theory Spec2Isabelle
  imports Main "HOL-Library.Char_ord" "HOL-Library.List_Lexorder" "HOL-Library.Sublist"
begin

section \<open>Data model of the schema generator\<close>

text \<open>
  The generator (\<^verbatim>\<open>schema/generator.go\<close>) works on parsed DDL values. Go strings and
  byte slices are byte sequences and become \<^typ>\<open>string\<close>; a Go \<^verbatim>\<open>int\<close> becomes
  \<^typ>\<open>int\<close>; a nil-able pointer that is only dereferenced or tested against nil becomes
  an \<^typ>\<open>'a option\<close>; slices become lists held by value, and \<^verbatim>\<open>append\<close> becomes
  \<open>@\<close> (two copies of a table do not share the storage of their slices here). Record
  fields carry a short prefix naming their struct, since several structs share field names
  (\<^verbatim>\<open>name\<close>, \<^verbatim>\<open>columns\<close>, \<^verbatim>\<open>value\<close>, ...). The types, the method
  \<^verbatim>\<open>PrimaryKey\<close> of a table and \<^verbatim>\<open>isUnique\<close> are those of \<^verbatim>\<open>schema/ast.go\<close>.
\<close>

datatype GeneratorMode =
  GeneratorModeMysql | GeneratorModePostgres | GeneratorModeSQLite3 | GeneratorModeMssql

datatype ValueType =
  ValueTypeStr | ValueTypeInt | ValueTypeFloat | ValueTypeHexNum | ValueTypeHex
  | ValueTypeValArg | ValueTypeBit | ValueTypeBool

text \<open>
  A \<^verbatim>\<open>Value\<close>: the raw text plus the payload of its type. Floating point is not
  embedded: \<open>v_floatVal\<close> holds the text that \<^verbatim>\<open>%f\<close> prints for the float payload.
\<close>

record Val =
  v_valueType :: ValueType
  v_raw :: string
  v_strVal :: string
  v_intVal :: int
  v_floatVal :: string
  v_bitVal :: bool

datatype ColumnKeyOption =
  ColumnKeyNone | ColumnKeyPrimary | ColumnKeySpatialKey | ColumnKeyUnique
  | ColumnKeyUniqueKey | ColumnKey

fun isUnique :: "ColumnKeyOption \<Rightarrow> bool" where
  "isUnique ColumnKeyUnique = True"
| "isUnique ColumnKeyUniqueKey = True"
| "isUnique _ = False"

record DefaultDefinition =
  dd_value :: "Val option"
  dd_constraintName :: string

record CheckDefinition =
  cd_definition :: string
  cd_constraintName :: string

record Sequence =
  sq_Name :: string
  sq_IfNotExists :: bool
  sq_Type :: string
  sq_IncrementBy :: "int option"
  sq_MinValue :: "int option"
  sq_NoMinValue :: bool
  sq_MaxValue :: "int option"
  sq_NoMaxValue :: bool
  sq_StartWith :: "int option"
  sq_Cache :: "int option"
  sq_Cycle :: bool
  sq_NoCycle :: bool
  sq_OwnedBy :: string

text \<open>
  A column. The field \<^verbatim>\<open>check\<close> is a \<^verbatim>\<open>*CheckDefinition\<close> that
  \<^verbatim>\<open>haveSameColumnDefinition\<close> compares with \<^verbatim>\<open>==\<close>, that is by address; it is
  kept as the pair of the address and the definition it points to. The parser allocates
  a check definition for each column it reads, so the statements of two calls of the
  parser never share an address, whatever their texts.
\<close>

record Column =
  c_name :: string
  c_position :: int
  c_typeName :: string
  c_unsigned :: bool
  c_notNull :: "bool option"
  c_autoIncrement :: bool
  c_array :: bool
  c_defaultDef :: "DefaultDefinition option"
  c_length :: "Val option"
  c_scale :: "Val option"
  c_check :: "(nat \<times> CheckDefinition) option"
  c_checkNoInherit :: bool
  c_charset :: string
  c_collate :: string
  c_timezone :: bool
  c_keyOption :: ColumnKeyOption
  c_onUpdate :: "Val option"
  c_enumValues :: "string list"
  c_references :: string
  c_identity :: string
  c_sequence :: "Sequence option"

record IndexColumn =
  ic_column :: string
  ic_length :: "int option"

record IndexOption =
  io_optionName :: string
  io_value :: "Val option"

record Index =
  i_name :: string
  i_indexType :: string
  i_columns :: "IndexColumn list"
  i_primary :: bool
  i_unique :: bool
  i_where :: string
  i_clustered :: bool
  i_options :: "IndexOption list"

record ForeignKey =
  fk_constraintName :: string
  fk_indexName :: string
  fk_indexColumns :: "string list"
  fk_referenceName :: string
  fk_referenceColumns :: "string list"
  fk_onDelete :: string
  fk_onUpdate :: string

record Policy =
  p_name :: string
  p_referenceName :: string
  p_permissive :: string
  p_scope :: string
  p_roles :: "string list"
  p_using :: string
  p_withCheck :: string

record View =
  vw_statement :: string
  vw_name :: string
  vw_definition :: string

record Table =
  t_name :: string
  t_columns :: "Column list"
  t_indexes :: "Index list"
  t_foreignKeys :: "ForeignKey list"
  t_policies :: "Policy list"

text \<open>The parsed statements. Each carries its original text (\<^verbatim>\<open>Statement()\<close>).\<close>

datatype DDL =
  CreateTable string Table
  | CreateIndex string string Index
  | AddIndex string string Index
  | AddPrimaryKey string string Index
  | AddForeignKey string string ForeignKey
  | AddPolicy string string Policy
  | CreateView View

text \<open>
  Errors are values. Each \<^verbatim>\<open>fmt.Errorf\<close> site of the generator is one constructor of
  \<open>error\<close> carrying what its message prints; \<open>ParseError\<close> is an error of
  \<^verbatim>\<open>parseDDLs\<close>, whose code is outside the generator. The ways the Go code can stop
  without returning (an index out of range, a nil pointer dereferenced,
  \<^verbatim>\<open>log.Fatalf\<close>) are the constructors of \<open>panic\<close>.
\<close>

datatype error =
  ParseError string
  | UnknownStatement DDL
  | MissingTable string string string
  | MissingDesiredTable string string string
  | DuplicateIndex string string string
  | DuplicateForeignKey string string string
  | DuplicatePolicy string string string
  | DuplicateView string string
  | MissingConstraintName string string "string list"
  | UnsupportedPrimaryKeyRename string string string
  | UnsupportedColumnKey ColumnKeyOption Column
  | UnsupportedDefaultValueKind ValueType
  | InColumn error Column

datatype panic =
  PanicIndexOutOfRange
  | PanicNilDereference
  | FatalRemoveTable string

text \<open>
  A Go function with the results \<^verbatim>\<open>(x, err)\<close> becomes a function into
  \<open>'r failure + 'a\<close>. \<open>Inr x\<close> is the return of \<open>x\<close> with a nil error.
  \<open>Inl (Failed err r)\<close> is the return of the error \<open>err\<close> together with the value
  \<open>r\<close>, and \<open>Inl (Panicked p)\<close> is a run that does not return. The functions that
  gather statements return, with an error, either the statements gathered so far
  (\<^verbatim>\<open>return ddls, err\<close>) or a nil slice (\<^verbatim>\<open>return nil, err\<close>): the value \<open>r\<close> is
  then \<open>Some ddls\<close> or \<open>None\<close>.
\<close>

datatype 'r failure = Failed error 'r | Panicked panic

type_synonym ddlsFailure = "string list option failure"

section \<open>Strings\<close>

text \<open>
  \<^verbatim>\<open>strings.ToLower\<close> on the ASCII range: the letters A to Z are mapped to a to z,
  every other byte is kept.
\<close>

definition toLowerChar :: "char \<Rightarrow> char" where
  "toLowerChar c =
     (case map_of (zip ''ABCDEFGHIJKLMNOPQRSTUVWXYZ'' ''abcdefghijklmnopqrstuvwxyz'') c of
        Some l \<Rightarrow> l
      | None \<Rightarrow> c)"

definition toLower :: "string \<Rightarrow> string" where
  "toLower s = map toLowerChar s"

text \<open>\<^verbatim>\<open>strings.Join\<close>.\<close>

fun joinStrings :: "string list \<Rightarrow> string \<Rightarrow> string" where
  "joinStrings [] sep = []"
| "joinStrings [x] sep = x"
| "joinStrings (x # y # ys) sep = x @ sep @ joinStrings (y # ys) sep"

text \<open>\<^verbatim>\<open>strings.TrimSuffix(s, " ")\<close>: one trailing blank is removed, if there is one.\<close>

definition trimSuffixSpace :: "string \<Rightarrow> string" where
  "trimSuffixSpace s = (if s \<noteq> [] \<and> last s = CHR '' '' then butlast s else s)"

text \<open>The verb \<^verbatim>\<open>%d\<close> of \<^verbatim>\<open>fmt.Sprintf\<close>.\<close>

fun showNat :: "nat \<Rightarrow> string" where
  "showNat n =
     (if n < 10 then [''0123456789'' ! n] else showNat (n div 10) @ [''0123456789'' ! (n mod 10)])"

definition showInt :: "int \<Rightarrow> string" where
  "showInt i = (if i < 0 then CHR ''-'' # showNat (nat (- i)) else showNat (nat i))"

text \<open>
  \<^verbatim>\<open>strings.SplitN(name, ".", 2)\<close>: the text before the first dot and, when there is a
  dot, the text after it.
\<close>

fun splitDot :: "string \<Rightarrow> string \<times> string option" where
  "splitDot [] = ([], None)"
| "splitDot (c # cs) =
     (if c = CHR ''.'' then ([], Some cs)
      else (case splitDot cs of (a, b) \<Rightarrow> (c # a, b)))"

text \<open>\<^verbatim>\<open>strings.Replace(s, old, "", 1)\<close>: the first occurrence of \<open>old\<close> is removed.\<close>

fun removeFirst :: "string \<Rightarrow> string \<Rightarrow> string" where
  "removeFirst old [] = []"
| "removeFirst old (c # cs) =
     (if old \<noteq> [] \<and> prefix old (c # cs) then drop (length old) (c # cs)
      else c # removeFirst old cs)"

declare showNat.simps [simp del]

section \<open>Lookups\<close>

text \<open>
  The \<^verbatim>\<open>find...ByName\<close> functions return the first element with the name, or nil.
  A schema keeps its tables behind pointers (\<^verbatim>\<open>[]*Table\<close>): the table found is
  updated in place, which \<open>updateTableByName\<close> does on the list.
\<close>

fun findTableByName :: "Table list \<Rightarrow> string \<Rightarrow> Table option" where
  "findTableByName [] n = None"
| "findTableByName (t # ts) n = (if t_name t = n then Some t else findTableByName ts n)"

fun updateTableByName :: "Table list \<Rightarrow> string \<Rightarrow> Table \<Rightarrow> Table list" where
  "updateTableByName [] n t' = []"
| "updateTableByName (t # ts) n t' =
     (if t_name t = n then t' # ts else t # updateTableByName ts n t')"

fun findColumnByName :: "Column list \<Rightarrow> string \<Rightarrow> Column option" where
  "findColumnByName [] n = None"
| "findColumnByName (c # cs) n = (if c_name c = n then Some c else findColumnByName cs n)"

fun findIndexByName :: "Index list \<Rightarrow> string \<Rightarrow> Index option" where
  "findIndexByName [] n = None"
| "findIndexByName (i # is) n = (if i_name i = n then Some i else findIndexByName is n)"

fun findIndexOptionByName :: "IndexOption list \<Rightarrow> string \<Rightarrow> IndexOption option" where
  "findIndexOptionByName [] n = None"
| "findIndexOptionByName (opt # opts) n =
     (if io_optionName opt = n then Some opt else findIndexOptionByName opts n)"

fun findForeignKeyByName :: "ForeignKey list \<Rightarrow> string \<Rightarrow> ForeignKey option" where
  "findForeignKeyByName [] n = None"
| "findForeignKeyByName (f # fs) n =
     (if fk_constraintName f = n then Some f else findForeignKeyByName fs n)"

fun findPrimaryKey :: "Index list \<Rightarrow> Index option" where
  "findPrimaryKey [] = None"
| "findPrimaryKey (i # is) = (if i_primary i then Some i else findPrimaryKey is)"

fun findPolicyByName :: "Policy list \<Rightarrow> string \<Rightarrow> Policy option" where
  "findPolicyByName [] n = None"
| "findPolicyByName (p # ps) n = (if p_name p = n then Some p else findPolicyByName ps n)"

fun findViewByName :: "View list \<Rightarrow> string \<Rightarrow> View option" where
  "findViewByName [] n = None"
| "findViewByName (v # vs) n = (if vw_name v = n then Some v else findViewByName vs n)"

fun containsString :: "string list \<Rightarrow> string \<Rightarrow> bool" where
  "containsString [] str = False"
| "containsString (s # strs) str = (if s = str then True else containsString strs str)"

definition convertColumnsToColumnNames :: "Column list \<Rightarrow> string list" where
  "convertColumnsToColumnNames columns = map c_name columns"

definition convertIndexesToIndexNames :: "Index list \<Rightarrow> string list" where
  "convertIndexesToIndexNames indexes = map i_name indexes"

definition convertForeignKeysToConstraintNames :: "ForeignKey list \<Rightarrow> string list" where
  "convertForeignKeysToConstraintNames foreignKeys = map fk_constraintName foreignKeys"

fun convertForeignKeysToIndexNames :: "ForeignKey list \<Rightarrow> string list" where
  "convertForeignKeysToIndexNames [] = []"
| "convertForeignKeysToIndexNames (f # fs) =
     (if fk_indexName f \<noteq> [] then fk_indexName f # convertForeignKeysToIndexNames fs
      else if fk_constraintName f \<noteq> [] then fk_constraintName f # convertForeignKeysToIndexNames fs
      else convertForeignKeysToIndexNames fs)"

definition convertPolicyNames :: "Policy list \<Rightarrow> string list" where
  "convertPolicyNames policies = map p_name policies"

definition convertViewNames :: "View list \<Rightarrow> string list" where
  "convertViewNames views = map vw_name views"

text \<open>
  \<^verbatim>\<open>removeTableByName\<close> drops every table of the name and ends the process
  (\<^verbatim>\<open>log.Fatalf\<close>) when there was none.
\<close>

definition removeTableByName :: "Table list \<Rightarrow> string \<Rightarrow> 'r failure + Table list" where
  "removeTableByName tables n =
     (if \<not> list_ex (\<lambda>t. n = t_name t) tables then Inl (Panicked (FatalRemoveTable n))
      else Inr (filter (\<lambda>t. n \<noteq> t_name t) tables))"

text \<open>
  The method \<^verbatim>\<open>PrimaryKey()\<close> of a table (\<^verbatim>\<open>schema/ast.go\<close>). Its first loop
  returns the first index with \<^verbatim>\<open>primary\<close> set, which is \<^const>\<open>findPrimaryKey\<close>. Its
  second loop gathers an \<^verbatim>\<open>IndexColumn\<close> for each column whose \<^verbatim>\<open>keyOption\<close> is
  \<^verbatim>\<open>ColumnKeyPrimary\<close>, in the order of the columns; with none the result is nil, and
  otherwise it is an index over them named \<^verbatim>\<open>PRIMARY\<close>, of type
  \<^verbatim>\<open>primary key\<close>, primary, unique and clustered. The fields that the Go literals
  leave out have the zero value of their type.
\<close>

definition PrimaryKey :: "Table \<Rightarrow> Index option" where
  "PrimaryKey t =
     (case findPrimaryKey (t_indexes t) of
        Some i \<Rightarrow> Some i
      | None \<Rightarrow>
          (let cols = filter (\<lambda>c. c_keyOption c = ColumnKeyPrimary) (t_columns t) in
           if cols = [] then None
           else Some \<lparr> i_name = ''PRIMARY'', i_indexType = ''primary key'',
                       i_columns = map (\<lambda>c. \<lparr> ic_column = c_name c, ic_length = None \<rparr>) cols,
                       i_primary = True, i_unique = True, i_where = [],
                       i_clustered = True, i_options = [] \<rparr>))"

section \<open>Equality predicates\<close>

text \<open>
  \<^verbatim>\<open>areSameValue\<close>: both nil, or both set with equal raw texts, where a current raw
  longer than the desired one is first cut to the desired length when the desired value
  is a float.
\<close>

fun areSameValue :: "Val option \<Rightarrow> Val option \<Rightarrow> bool" where
  "areSameValue None None = True"
| "areSameValue None (Some desired) = False"
| "areSameValue (Some current) None = False"
| "areSameValue (Some current) (Some desired) =
     (let currentRaw = v_raw current; desiredRaw = v_raw desired;
          currentRaw = (if v_valueType desired = ValueTypeFloat
                           \<and> length currentRaw > length desiredRaw
                        then take (length desiredRaw) currentRaw else currentRaw)
      in currentRaw = desiredRaw)"

definition isNullValue :: "Val option \<Rightarrow> bool" where
  "isNullValue v =
     (case v of None \<Rightarrow> False
      | Some x \<Rightarrow> v_valueType x = ValueTypeValArg \<and> v_raw x = ''null'')"

definition areSameDefaultValue ::
  "DefaultDefinition option \<Rightarrow> DefaultDefinition option \<Rightarrow> bool" where
  "areSameDefaultValue currentDefault desiredDefault =
     (let current = (case currentDefault of None \<Rightarrow> None
                     | Some d \<Rightarrow> if \<not> isNullValue (dd_value d) then dd_value d else None);
          desired = (case desiredDefault of None \<Rightarrow> None
                     | Some d \<Rightarrow> if \<not> isNullValue (dd_value d) then dd_value d else None)
      in areSameValue current desired)"

definition areSameCheckDefinition ::
  "(nat \<times> CheckDefinition) option \<Rightarrow> (nat \<times> CheckDefinition) option \<Rightarrow> bool" where
  "areSameCheckDefinition checkA checkB =
     (case (checkA, checkB) of
        (None, None) \<Rightarrow> True
      | (None, Some b) \<Rightarrow> False
      | (Some a, None) \<Rightarrow> False
      | (Some a, Some b) \<Rightarrow> cd_definition (snd a) = cd_definition (snd b))"

text \<open>
  The option loop of \<^verbatim>\<open>areSameIndexes\<close>: each option of index B is looked up by name
  among the options of index A.
\<close>

fun sameIndexOptions :: "IndexOption list \<Rightarrow> IndexOption list \<Rightarrow> bool" where
  "sameIndexOptions optionsA [] = True"
| "sameIndexOptions optionsA (optionB # rest) =
     (case findIndexOptionByName optionsA (io_optionName optionB) of
        Some optionA \<Rightarrow>
          if \<not> areSameValue (io_value optionA) (io_value optionB) then False
          else sameIndexOptions optionsA rest
      | None \<Rightarrow> False)"

text \<open>
  The column loop of \<^verbatim>\<open>areSameIndexes\<close>; it runs only on lists of equal length, so
  \<^verbatim>\<open>indexB.columns[i]\<close> is always in range.
\<close>

fun sameIndexColumns :: "IndexColumn list \<Rightarrow> IndexColumn list \<Rightarrow> bool" where
  "sameIndexColumns [] bs = True"
| "sameIndexColumns (a # as) [] = True"
| "sameIndexColumns (a # as) (b # bs) =
     (if ic_column a \<noteq> ic_column b then False else sameIndexColumns as bs)"

definition areSameIndexes :: "Index \<Rightarrow> Index \<Rightarrow> bool" where
  "areSameIndexes indexA indexB =
     (if i_unique indexA \<noteq> i_unique indexB then False
      else if i_primary indexA \<noteq> i_primary indexB then False
      else if length (i_columns indexA) \<noteq> length (i_columns indexB) then False
      else if \<not> sameIndexColumns (i_columns indexA) (i_columns indexB) then False
      else if i_where indexA \<noteq> i_where indexB then False
      else sameIndexOptions (i_options indexA) (i_options indexB))"

definition areSamePrimaryKeys :: "Index option \<Rightarrow> Index option \<Rightarrow> bool" where
  "areSamePrimaryKeys primaryKeyA primaryKeyB =
     (case (primaryKeyA, primaryKeyB) of
        (Some a, Some b) \<Rightarrow> areSameIndexes a b
      | (None, None) \<Rightarrow> True
      | _ \<Rightarrow> False)"

text \<open>
  The role loop of \<^verbatim>\<open>areSamePolicies\<close>, over two lists of equal length.
\<close>

fun sameRoles :: "string list \<Rightarrow> string list \<Rightarrow> bool" where
  "sameRoles [] bs = True"
| "sameRoles (a # as) [] = True"
| "sameRoles (a # as) (b # bs) = (if toLower a \<noteq> toLower b then False else sameRoles as bs)"

text \<open>
  \<^verbatim>\<open>areSamePolicies\<close>. \<^verbatim>\<open>sort.Slice\<close> with the comparison \<^verbatim>\<open><=\<close> on strings
  is taken to leave the roles in ascending byte order, which is \<^const>\<open>sort\<close> on
  \<^typ>\<open>string\<close> (the insertion sort that Go runs on short slices does so). The function
  sorts the role slices of its arguments in place; only its result is modelled.
\<close>

definition areSamePolicies :: "Policy \<Rightarrow> Policy \<Rightarrow> bool" where
  "areSamePolicies policyA policyB =
     (if toLower (p_scope policyA) \<noteq> toLower (p_scope policyB) then False
      else if toLower (p_permissive policyA) \<noteq> toLower (p_permissive policyB) then False
      else if toLower (p_using policyA) \<noteq> toLower (p_using policyB)
        then ''('' @ p_using policyA @ '')'' = p_using policyB
      else if toLower (p_withCheck policyA) \<noteq> toLower (p_withCheck policyB)
        then ''('' @ p_withCheck policyA @ '')'' = p_withCheck policyB
      else if length (p_roles policyA) \<noteq> length (p_roles policyB) then False
      else sameRoles (sort (p_roles policyA)) (sort (p_roles policyB)))"

section \<open>The simulated table merge\<close>

text \<open>
  \<^verbatim>\<open>mergeTable\<close> walks the columns, then the indexes, of the second table and appends to
  the first table each one that passes the \<^verbatim>\<open>containsString\<close> test against the names
  the first table holds at that moment.
\<close>

fun mergeColumns :: "Column list \<Rightarrow> Column list \<Rightarrow> Column list" where
  "mergeColumns columns1 [] = columns1"
| "mergeColumns columns1 (column # rest) =
     (if containsString (convertColumnsToColumnNames columns1) (c_name column)
      then mergeColumns (columns1 @ [column]) rest
      else mergeColumns columns1 rest)"

fun mergeIndexes :: "Index list \<Rightarrow> Index list \<Rightarrow> Index list" where
  "mergeIndexes indexes1 [] = indexes1"
| "mergeIndexes indexes1 (index # rest) =
     (if containsString (convertIndexesToIndexNames indexes1) (i_name index)
      then mergeIndexes (indexes1 @ [index]) rest
      else mergeIndexes indexes1 rest)"

definition mergeTable :: "Table \<Rightarrow> Table \<Rightarrow> Table" where
  "mergeTable table1 table2 =
     table1 \<lparr> t_columns := mergeColumns (t_columns table1) (t_columns table2),
              t_indexes := mergeIndexes (t_indexes table1) (t_indexes table2) \<rparr>"

section \<open>Sequencing of fallible steps\<close>

text \<open>
  \<^verbatim>\<open>x, err := f(...); if err != nil { return ddls, err }\<close>: the caller drops what
  \<open>f\<close> returned with its error and returns its own list \<^verbatim>\<open>ddls\<close>. \<open>returnDDLs\<close>
  is this step for the part of the caller that begins at the call, of which nothing has
  been gathered yet; \<open>afterDDLs\<close> puts in front the statements that the caller had
  gathered before that part. A nil slice returned with an error stays nil.
  \<open>returnNil\<close> is the step \<^verbatim>\<open>if err != nil { return nil, err }\<close>.
\<close>

fun returnDDLs :: "'r failure + 'a \<Rightarrow> 'b list option failure + 'a" where
  "returnDDLs (Inl (Failed err r)) = Inl (Failed err (Some []))"
| "returnDDLs (Inl (Panicked p)) = Inl (Panicked p)"
| "returnDDLs (Inr x) = Inr x"

fun returnNil :: "'r failure + 'a \<Rightarrow> 'b option failure + 'a" where
  "returnNil (Inl (Failed err r)) = Inl (Failed err None)"
| "returnNil (Inl (Panicked p)) = Inl (Panicked p)"
| "returnNil (Inr x) = Inr x"

fun afterDDLs :: "'b list \<Rightarrow> 'b list option failure \<Rightarrow> 'b list option failure" where
  "afterDDLs ddls (Failed err (Some ddls')) = Failed err (Some (ddls @ ddls'))"
| "afterDDLs ddls (Failed err None) = Failed err None"
| "afterDDLs ddls (Panicked p) = Panicked p"

text \<open>
  A loop that appends the statements of each round to \<^verbatim>\<open>ddls\<close> and returns at the first
  failure: the rounds run in order, and the first failure is the result, with the
  statements of the rounds before it.
\<close>

fun forEachE ::
  "('a \<Rightarrow> 'b list option failure + 'b list) \<Rightarrow> 'a list \<Rightarrow> 'b list option failure + 'b list"
  where
  "forEachE f [] = Inr []"
| "forEachE f (x # xs) =
     (case f x of
        Inl fl \<Rightarrow> Inl fl
      | Inr ds \<Rightarrow>
          (case forEachE f xs of Inl fl \<Rightarrow> Inl (afterDDLs ds fl) | Inr ds' \<Rightarrow> Inr (ds @ ds')))"

text \<open>Straight-line code made of fallible parts, each adding to the same list.\<close>

fun seqE :: "('b list option failure + 'b list) list \<Rightarrow> 'b list option failure + 'b list" where
  "seqE [] = Inr []"
| "seqE (p # ps) =
     (case p of
        Inl fl \<Rightarrow> Inl fl
      | Inr ds \<Rightarrow>
          (case seqE ps of Inl fl \<Rightarrow> Inl (afterDDLs ds fl) | Inr ds' \<Rightarrow> Inr (ds @ ds')))"

section \<open>Rendering\<close>

definition escapeSQLName :: "GeneratorMode \<Rightarrow> string \<Rightarrow> string" where
  "escapeSQLName mode n =
     (case mode of
        GeneratorModePostgres \<Rightarrow> [CHR 0x22] @ n @ [CHR 0x22]
      | GeneratorModeMssql \<Rightarrow> ''['' @ n @ '']''
      | _ \<Rightarrow> ''`'' @ n @ ''`'')"

definition escapeTableName :: "GeneratorMode \<Rightarrow> string \<Rightarrow> string" where
  "escapeTableName mode n =
     (if mode = GeneratorModePostgres \<or> mode = GeneratorModeMssql then
        (case splitDot n of
           (tableName, None) \<Rightarrow>
             escapeSQLName mode (if mode = GeneratorModePostgres then ''public'' else ''dbo'')
               @ ''.'' @ escapeSQLName mode tableName
         | (schemaName, Some tableName) \<Rightarrow>
             escapeSQLName mode schemaName @ ''.'' @ escapeSQLName mode tableName)
      else escapeSQLName mode n)"

definition generateDropIndex :: "GeneratorMode \<Rightarrow> string \<Rightarrow> string \<Rightarrow> string" where
  "generateDropIndex mode tableName indexName =
     (case mode of
        GeneratorModeMysql \<Rightarrow>
          ''ALTER TABLE '' @ escapeTableName mode tableName @ '' DROP INDEX ''
            @ escapeSQLName mode indexName
      | GeneratorModePostgres \<Rightarrow> ''DROP INDEX '' @ escapeSQLName mode indexName
      | GeneratorModeMssql \<Rightarrow>
          ''DROP INDEX '' @ escapeSQLName mode indexName @ '' ON ''
            @ escapeTableName mode tableName
      | _ \<Rightarrow> [])"

text \<open>
  The statement that drops the default constraint of a column, and the one that drops a
  column, as \<^verbatim>\<open>generateDDLsForAbsentColumn\<close> prints them.
\<close>

definition dropConstraintDDL :: "GeneratorMode \<Rightarrow> string \<Rightarrow> string \<Rightarrow> string" where
  "dropConstraintDDL mode tableName constraintName =
     ''ALTER TABLE '' @ escapeTableName mode tableName @ '' DROP CONSTRAINT ''
       @ escapeSQLName mode constraintName"

definition dropColumnDDL :: "GeneratorMode \<Rightarrow> string \<Rightarrow> string \<Rightarrow> string" where
  "dropColumnDDL mode tableName columnName =
     ''ALTER TABLE '' @ escapeTableName mode tableName @ '' DROP COLUMN ''
       @ escapeSQLName mode columnName"

text \<open>The loop of \<^verbatim>\<open>generateDDLsForAbsentColumn\<close> over the columns of the table.\<close>

fun dropDefaultConstraints :: "GeneratorMode \<Rightarrow> string \<Rightarrow> string \<Rightarrow> Column list \<Rightarrow> string list" where
  "dropDefaultConstraints mode tableName columnName [] = []"
| "dropDefaultConstraints mode tableName columnName (column # rest) =
     (case c_defaultDef column of
        Some d \<Rightarrow>
          if c_name column = columnName \<and> dd_constraintName d \<noteq> []
          then dropConstraintDDL mode tableName (dd_constraintName d)
                 # dropDefaultConstraints mode tableName columnName rest
          else dropDefaultConstraints mode tableName columnName rest
      | None \<Rightarrow> dropDefaultConstraints mode tableName columnName rest)"

definition generateDDLsForAbsentColumn :: "GeneratorMode \<Rightarrow> Table \<Rightarrow> string \<Rightarrow> string list" where
  "generateDDLsForAbsentColumn mode currentTable columnName =
     (let ddls = (if mode = GeneratorModeMssql
                  then dropDefaultConstraints mode (t_name currentTable) columnName
                         (t_columns currentTable)
                  else [])
      in ddls @ [dropColumnDDL mode (t_name currentTable) columnName])"

definition generateDataType :: "Column \<Rightarrow> string" where
  "generateDataType column =
     (let suffix = (if c_array column then ''[]'' else []) in
      case c_length column of
        Some len \<Rightarrow>
          (case c_scale column of
             Some scale \<Rightarrow>
               c_typeName column @ ''('' @ v_raw len @ '', '' @ v_raw scale @ '')'' @ suffix
           | None \<Rightarrow> c_typeName column @ ''('' @ v_raw len @ '')'' @ suffix)
      | None \<Rightarrow>
          if c_typeName column = ''enum''
          then c_typeName column @ ''('' @ joinStrings (c_enumValues column) '', '' @ '')''
                 @ suffix
          else c_typeName column @ suffix)"

text \<open>
  \<^verbatim>\<open>strings.TrimSpace\<close> on the ASCII range: blanks, tabs, line feeds, vertical tabs,
  form feeds and carriage returns are removed at both ends.
\<close>

definition isSpace :: "char \<Rightarrow> bool" where
  "isSpace c = (c \<in> set [CHR '' '', CHR 0x09, CHR 0x0A, CHR 0x0B, CHR 0x0C, CHR 0x0D])"

definition trimSpace :: "string \<Rightarrow> string" where
  "trimSpace s = rev (dropWhile isSpace (rev (dropWhile isSpace s)))"

definition generateSequenceClause :: "Sequence \<Rightarrow> string" where
  "generateSequenceClause sequence =
     trimSpace
       ((if sq_Name sequence \<noteq> [] then ''SEQUENCE NAME '' @ sq_Name sequence @ '' '' else [])
        @ (case sq_StartWith sequence of
             Some n \<Rightarrow> ''START WITH '' @ showInt n @ '' '' | None \<Rightarrow> [])
        @ (case sq_IncrementBy sequence of
             Some n \<Rightarrow> ''INCREMENT BY '' @ showInt n @ '' '' | None \<Rightarrow> [])
        @ (case sq_MinValue sequence of
             Some n \<Rightarrow> ''MINVALUE '' @ showInt n @ '' '' | None \<Rightarrow> [])
        @ (if sq_NoMinValue sequence then ''NO MINVALUE '' else [])
        @ (case sq_MaxValue sequence of
             Some n \<Rightarrow> ''MAXVALUE '' @ showInt n @ '' '' | None \<Rightarrow> [])
        @ (if sq_NoMaxValue sequence then ''NO MAXVALUE '' else [])
        @ (case sq_Cache sequence of
             Some n \<Rightarrow> ''CACHE '' @ showInt n @ '' '' | None \<Rightarrow> [])
        @ (if sq_Cycle sequence then ''CYCLE '' else [])
        @ (if sq_NoCycle sequence then ''NO CYCLE '' else []))"

definition generateDefaultDefinition :: "Val \<Rightarrow> string failure + string" where
  "generateDefaultDefinition defaultVal =
     (case v_valueType defaultVal of
        ValueTypeStr \<Rightarrow> Inr (''DEFAULT '' @ [CHR 0x27] @ v_strVal defaultVal @ [CHR 0x27])
      | ValueTypeInt \<Rightarrow> Inr (''DEFAULT '' @ showInt (v_intVal defaultVal))
      | ValueTypeFloat \<Rightarrow> Inr (''DEFAULT '' @ v_floatVal defaultVal)
      | ValueTypeBit \<Rightarrow>
          if v_bitVal defaultVal then Inr (''DEFAULT b'' @ [CHR 0x27] @ ''1'' @ [CHR 0x27])
          else Inr (''DEFAULT b'' @ [CHR 0x27] @ ''0'' @ [CHR 0x27])
      | ValueTypeValArg \<Rightarrow> Inr (''DEFAULT '' @ v_raw defaultVal)
      | other \<Rightarrow> Inl (Failed (UnsupportedDefaultValueKind other) []))"

text \<open>
  \<^verbatim>\<open>generateColumnDefinition\<close> appends one clause after the other to
  \<^verbatim>\<open>definition\<close>. \<open>columnClauses\<close> is the list of the clauses appended, in order, each
  with its trailing blank; the definition rendered is their concatenation without one
  trailing blank. With an error the function returns the empty string and nothing of the
  clauses, so a failing clause carries no list.
\<close>

definition nullabilityClause :: "Column \<Rightarrow> string list" where
  "nullabilityClause column =
     (if c_identity column = []
           \<and> (c_notNull column = Some True \<or> c_keyOption column = ColumnKeyPrimary)
      then [''NOT NULL '']
      else if c_notNull column = Some False then [''NULL '']
      else [])"

definition defaultClause :: "Column \<Rightarrow> ddlsFailure + string list" where
  "defaultClause column =
     (case c_defaultDef column of
        None \<Rightarrow> Inr []
      | Some d \<Rightarrow>
          (case dd_value d of
             None \<Rightarrow> Inr []
           | Some v \<Rightarrow>
               (case generateDefaultDefinition v of
                  Inl (Failed err r) \<Rightarrow> Inl (Failed (InColumn err column) None)
                | Inl (Panicked p) \<Rightarrow> Inl (Panicked p)
                | Inr def \<Rightarrow> Inr [def @ '' ''])))"

definition keyOptionClause :: "Column \<Rightarrow> bool \<Rightarrow> ddlsFailure + string list" where
  "keyOptionClause column enableUnique =
     (case c_keyOption column of
        ColumnKeyNone \<Rightarrow> Inr []
      | ColumnKeyUnique \<Rightarrow> Inr (if enableUnique then [''UNIQUE ''] else [])
      | ColumnKeyUniqueKey \<Rightarrow> Inr (if enableUnique then [''UNIQUE KEY ''] else [])
      | ColumnKeyPrimary \<Rightarrow> Inr []
      | other \<Rightarrow> Inl (Failed (UnsupportedColumnKey other column) None))"

definition identityClause :: "GeneratorMode \<Rightarrow> Column \<Rightarrow> ddlsFailure + string list" where
  "identityClause mode column =
     (if c_identity column \<noteq> [] then
        Inr ([''GENERATED '' @ c_identity column @ '' AS IDENTITY '']
             @ (case c_sequence column of
                  Some sq \<Rightarrow> [''('' @ generateSequenceClause sq @ '') '']
                | None \<Rightarrow> []))
      else if mode = GeneratorModeMssql then
        (case c_sequence column of
           None \<Rightarrow> Inr []
         | Some sq \<Rightarrow>
             (case (sq_StartWith sq, sq_IncrementBy sq) of
                (Some st, Some inc) \<Rightarrow>
                  Inr [''IDENTITY('' @ showInt st @ '','' @ showInt inc @ '')'']
              | _ \<Rightarrow> Inl (Panicked PanicNilDereference)))
      else Inr [])"

definition columnClauses :: "GeneratorMode \<Rightarrow> Column \<Rightarrow> bool \<Rightarrow> ddlsFailure + string list" where
  "columnClauses mode column enableUnique =
     seqE
       [Inr [escapeSQLName mode (c_name column) @ '' '' @ generateDataType column @ '' ''],
        Inr (if c_unsigned column then [''UNSIGNED ''] else []),
        Inr (if c_timezone column then [''WITH TIME ZONE ''] else []),
        Inr (if c_charset column \<noteq> [] then [''CHARACTER SET '' @ c_charset column @ '' ''] else []),
        Inr (if c_collate column \<noteq> [] then [''COLLATE '' @ c_collate column @ '' ''] else []),
        Inr (nullabilityClause column),
        defaultClause column,
        Inr (if c_autoIncrement column then [''AUTO_INCREMENT ''] else []),
        Inr (case c_onUpdate column of
               Some v \<Rightarrow> [''ON UPDATE '' @ v_raw v @ '' ''] | None \<Rightarrow> []),
        Inr (case c_check column of
               Some (a, chk) \<Rightarrow> [''CHECK ('' @ cd_definition chk @ '') ''] | None \<Rightarrow> []),
        Inr (if c_checkNoInherit column then [''NO INHERIT ''] else []),
        keyOptionClause column enableUnique,
        identityClause mode column]"

definition generateColumnDefinition ::
  "GeneratorMode \<Rightarrow> Column \<Rightarrow> bool \<Rightarrow> string failure + string" where
  "generateColumnDefinition mode column enableUnique =
     (case columnClauses mode column enableUnique of
        Inl (Failed err r) \<Rightarrow> Inl (Failed err [])
      | Inl (Panicked p) \<Rightarrow> Inl (Panicked p)
      | Inr clauses \<Rightarrow> Inr (trimSuffixSpace (concat clauses)))"

text \<open>The first option only, in MySQL mode; every option, in MSSQL mode.\<close>

fun mssqlIndexOptions :: "IndexOption list \<Rightarrow> string failure + string list" where
  "mssqlIndexOptions [] = Inr []"
| "mssqlIndexOptions (indexOption # rest) =
     (case io_value indexOption of
        None \<Rightarrow> Inl (Panicked PanicNilDereference)
      | Some v \<Rightarrow>
          (let optionValue =
                 (if v_valueType v = ValueTypeBool
                  then (if v_raw v = ''true'' then ''ON'' else ''OFF'')
                  else v_raw v)
           in case mssqlIndexOptions rest of
                Inl e \<Rightarrow> Inl e
              | Inr options \<Rightarrow> Inr ((io_optionName indexOption @ '' = '' @ optionValue) # options)))"

definition generateIndexOptionDefinition ::
  "GeneratorMode \<Rightarrow> IndexOption list \<Rightarrow> string failure + string" where
  "generateIndexOptionDefinition mode indexOptions =
     (case indexOptions of
        [] \<Rightarrow> Inr []
      | indexOption # rest \<Rightarrow>
          (case mode of
             GeneratorModeMysql \<Rightarrow>
               (case io_value indexOption of
                  None \<Rightarrow> Inl (Panicked PanicNilDereference)
                | Some v \<Rightarrow>
                    Inr ('' '' @ (if io_optionName indexOption = ''parser''
                                  then ''WITH '' @ io_optionName indexOption
                                  else io_optionName indexOption) @ '' '' @ v_raw v))
           | GeneratorModeMssql \<Rightarrow>
               (case mssqlIndexOptions indexOptions of
                  Inl e \<Rightarrow> Inl e
                | Inr options \<Rightarrow> Inr ('' WITH ('' @ joinStrings options '', '' @ '')''))
           | _ \<Rightarrow> Inr []))"

definition indexColumnText :: "GeneratorMode \<Rightarrow> IndexColumn \<Rightarrow> string" where
  "indexColumnText mode indexColumn =
     escapeSQLName mode (ic_column indexColumn)
       @ (case ic_length indexColumn of Some n \<Rightarrow> ''('' @ showInt n @ '')'' | None \<Rightarrow> [])"

definition generateAddIndex ::
  "GeneratorMode \<Rightarrow> string \<Rightarrow> Index \<Rightarrow> string failure + string" where
  "generateAddIndex mode tbl index =
     (let uniqueOption = (if i_unique index then '' UNIQUE'' else []);
          clusteredOption = (if i_clustered index then '' CLUSTERED'' else '' NONCLUSTERED'');
          columns = map (indexColumnText mode) (i_columns index)
      in case generateIndexOptionDefinition mode (i_options index) of
           Inl e \<Rightarrow> Inl e
         | Inr optionDefinition \<Rightarrow>
             (if mode = GeneratorModeMssql then
                Inr ((if \<not> i_primary index
                      then ''CREATE'' @ uniqueOption @ clusteredOption @ '' INDEX ''
                             @ escapeSQLName mode (i_name index) @ '' ON ''
                             @ escapeTableName mode tbl
                      else ''ALTER TABLE '' @ escapeTableName mode tbl @ '' ADD''
                             @ (if i_name index \<noteq> ''PRIMARY''
                                then '' CONSTRAINT '' @ escapeSQLName mode (i_name index)
                                else [])
                             @ '' '' @ i_indexType index @ clusteredOption)
                     @ '' ('' @ joinStrings columns '', '' @ '')'' @ optionDefinition)
              else
                Inr (''ALTER TABLE '' @ escapeTableName mode tbl @ '' ADD '' @ i_indexType index
                     @ (if \<not> i_primary index then '' '' @ escapeSQLName mode (i_name index)
                        else [])
                     @ '' ('' @ joinStrings columns '', '' @ '')'' @ optionDefinition)))"

definition generateForeignKeyDefinition :: "GeneratorMode \<Rightarrow> ForeignKey \<Rightarrow> string" where
  "generateForeignKeyDefinition mode foreignKey =
     trimSuffixSpace
       (''CONSTRAINT '' @ escapeSQLName mode (fk_constraintName foreignKey) @ '' FOREIGN KEY ''
        @ (if fk_indexName foreignKey \<noteq> []
           then escapeSQLName mode (fk_indexName foreignKey) @ '' '' else [])
        @ ''('' @ joinStrings (map (escapeSQLName mode) (fk_indexColumns foreignKey)) '',''
        @ '') REFERENCES '' @ escapeSQLName mode (fk_referenceName foreignKey)
        @ '' ('' @ joinStrings (map (escapeSQLName mode) (fk_referenceColumns foreignKey)) '',''
        @ '') ''
        @ (if fk_onDelete foreignKey \<noteq> [] then ''ON DELETE '' @ fk_onDelete foreignKey @ '' ''
           else [])
        @ (if fk_onUpdate foreignKey \<noteq> [] then ''ON UPDATE '' @ fk_onUpdate foreignKey @ '' ''
           else []))"

section \<open>Column comparison\<close>

definition notNull :: "GeneratorMode \<Rightarrow> Column \<Rightarrow> bool" where
  "notNull mode column =
     (case c_notNull column of
        None \<Rightarrow>
          (case mode of
             GeneratorModePostgres \<Rightarrow>
               c_typeName column = ''serial'' \<or> c_typeName column = ''bigserial''
           | _ \<Rightarrow> False)
      | Some b \<Rightarrow> b)"

definition isPrimaryKey :: "Column \<Rightarrow> Table \<Rightarrow> bool" where
  "isPrimaryKey column tbl =
     (if c_keyOption column = ColumnKeyPrimary then True
      else list_ex (\<lambda>index. i_primary index
                      \<and> list_ex (\<lambda>indexColumn. ic_column indexColumn = c_name column)
                           (i_columns index))
             (t_indexes tbl))"

definition dataTypeAliases :: "(string \<times> string) list" where
  "dataTypeAliases =
     [(''bool'', ''boolean''), (''int'', ''integer''), (''char'', ''character''),
      (''varchar'', ''character varying'')]"

definition mysqlDataTypeAliases :: "(string \<times> string) list" where
  "mysqlDataTypeAliases = [(''boolean'', ''tinyint'')]"

definition normalizeDataType :: "GeneratorMode \<Rightarrow> string \<Rightarrow> string" where
  "normalizeDataType mode dataType =
     (let dataType = (case map_of dataTypeAliases dataType of
                        Some alias \<Rightarrow> alias | None \<Rightarrow> dataType)
      in if mode = GeneratorModeMysql
         then (case map_of mysqlDataTypeAliases dataType of
                 Some alias \<Rightarrow> alias | None \<Rightarrow> dataType)
         else dataType)"

definition haveSameDataType :: "GeneratorMode \<Rightarrow> Column \<Rightarrow> Column \<Rightarrow> bool" where
  "haveSameDataType mode current desired =
     (normalizeDataType mode (c_typeName current) = normalizeDataType mode (c_typeName desired)
      \<and> (case (c_length current, c_length desired) of
            (Some cl, Some dl) \<Rightarrow> v_intVal cl = v_intVal dl
          | _ \<Rightarrow> True)
      \<and> c_array current = c_array desired)"

text \<open>
  \<^verbatim>\<open>haveSameColumnDefinition\<close>. The check definitions are compared as pointers
  (\<^verbatim>\<open>current.check == desired.check\<close>): both nil, or both at the same address. The
  \<^verbatim>\<open>onUpdate\<close> values are compared with \<^verbatim>\<open>reflect.DeepEqual\<close>, which follows the
  pointers: both nil, or the values pointed to equal.
\<close>

definition haveSameColumnDefinition :: "GeneratorMode \<Rightarrow> Column \<Rightarrow> Column \<Rightarrow> bool" where
  "haveSameColumnDefinition mode current desired =
     (haveSameDataType mode current desired
      \<and> c_unsigned current = c_unsigned desired
      \<and> ((c_notNull current = Some True)
           = (c_notNull desired = Some True \<or> c_keyOption desired = ColumnKeyPrimary))
      \<and> c_timezone current = c_timezone desired
      \<and> map_option fst (c_check current) = map_option fst (c_check desired)
      \<and> (c_charset desired = [] \<or> c_charset current = c_charset desired)
      \<and> (c_collate desired = [] \<or> c_collate current = c_collate desired)
      \<and> c_onUpdate current = c_onUpdate desired)"

definition normalizeOnUpdate :: "GeneratorMode \<Rightarrow> string \<Rightarrow> string" where
  "normalizeOnUpdate mode onUpdate =
     (if (mode = GeneratorModePostgres \<or> mode = GeneratorModeMssql) \<and> onUpdate = []
      then ''NO ACTION'' else onUpdate)"

definition normalizeOnDelete :: "GeneratorMode \<Rightarrow> string \<Rightarrow> string" where
  "normalizeOnDelete mode onDelete =
     (if (mode = GeneratorModePostgres \<or> mode = GeneratorModeMssql) \<and> onDelete = []
      then ''NO ACTION'' else onDelete)"

definition areSameForeignKeys :: "GeneratorMode \<Rightarrow> ForeignKey \<Rightarrow> ForeignKey \<Rightarrow> bool" where
  "areSameForeignKeys mode foreignKeyA foreignKeyB =
     (if normalizeOnUpdate mode (fk_onUpdate foreignKeyA)
           \<noteq> normalizeOnUpdate mode (fk_onUpdate foreignKeyB) then False
      else if normalizeOnDelete mode (fk_onDelete foreignKeyA)
           \<noteq> normalizeOnDelete mode (fk_onDelete foreignKeyB) then False
      else True)"

section \<open>Statements for what the desired schema no longer has\<close>

definition generateDDLsForAbsentForeignKey ::
  "GeneratorMode \<Rightarrow> ForeignKey \<Rightarrow> Table \<Rightarrow> Table \<Rightarrow> string list" where
  "generateDDLsForAbsentForeignKey mode currentForeignKey currentTable desiredTable =
     (if mode = GeneratorModeMysql then
        [''ALTER TABLE '' @ escapeTableName mode (t_name currentTable) @ '' DROP FOREIGN KEY ''
           @ escapeSQLName mode (fk_constraintName currentForeignKey)]
      else if mode = GeneratorModePostgres \<or> mode = GeneratorModeMssql then
        (case find (\<lambda>column. c_references column = fk_referenceName currentForeignKey)
                (t_columns desiredTable) of
           None \<Rightarrow>
             [''ALTER TABLE '' @ escapeTableName mode (t_name currentTable)
                @ '' DROP CONSTRAINT ''
                @ escapeSQLName mode (fk_constraintName currentForeignKey)]
         | Some referencesColumn \<Rightarrow> [])
      else [])"

text \<open>
  The search for a unique column in \<^verbatim>\<open>generateDDLsForAbsentIndex\<close> reads
  \<^verbatim>\<open>currentIndex.columns[0]\<close> in every round, which is out of range for an index
  without columns.
\<close>

definition firstIndexColumn :: "Index \<Rightarrow> string failure + string" where
  "firstIndexColumn index =
     (case i_columns index of
        [] \<Rightarrow> Inl (Panicked PanicIndexOutOfRange)
      | ic # _ \<Rightarrow> Inr (ic_column ic))"

definition generateDDLsForAbsentIndex ::
  "GeneratorMode \<Rightarrow> Index \<Rightarrow> Table \<Rightarrow> Table \<Rightarrow> ddlsFailure + string list" where
  "generateDDLsForAbsentIndex mode currentIndex currentTable desiredTable =
     (if i_primary currentIndex then
        (case find (\<lambda>column. c_keyOption column = ColumnKeyPrimary) (t_columns desiredTable) of
           None \<Rightarrow>
             if mode = GeneratorModeMssql
             then Inr [''ALTER TABLE '' @ escapeTableName mode (t_name currentTable)
                         @ '' DROP CONSTRAINT '' @ escapeSQLName mode (i_name currentIndex)]
             else Inr []
         | Some primaryKeyColumn \<Rightarrow>
             (case returnDDLs (firstIndexColumn currentIndex) of
                Inl fl \<Rightarrow> Inl fl
              | Inr col \<Rightarrow>
                  if c_name primaryKeyColumn \<noteq> col
                  then Inl (Failed (UnsupportedPrimaryKeyRename (t_name currentTable)
                                      (c_name primaryKeyColumn) col) (Some []))
                  else Inr []))
      else if i_unique currentIndex then
        (if t_columns desiredTable = [] then
           Inr [generateDropIndex mode (t_name currentTable) (i_name currentIndex)]
         else
           (case returnDDLs (firstIndexColumn currentIndex) of
              Inl fl \<Rightarrow> Inl fl
            | Inr col \<Rightarrow>
                (case find (\<lambda>column. c_name column = col \<and> isUnique (c_keyOption column))
                        (t_columns desiredTable) of
                   None \<Rightarrow> Inr [generateDropIndex mode (t_name currentTable) (i_name currentIndex)]
                 | Some uniqueKeyColumn \<Rightarrow> Inr [])))
      else Inr [generateDropIndex mode (t_name currentTable) (i_name currentIndex)])"

section \<open>The diff of one table\<close>

text \<open>
  \<^verbatim>\<open>generateDDLsForCreateTable\<close> runs six loops one after the other over the current
  table and the desired table. Each loop is a function here; the first failure ends the
  whole function, which then returns the error with the statements gathered up to there
  (every error return of the function is \<^verbatim>\<open>return ddls, err\<close>).
\<close>

definition positionClause :: "GeneratorMode \<Rightarrow> Table \<Rightarrow> nat \<Rightarrow> string" where
  "positionClause mode desiredTable i =
     (if i > 0 then '' AFTER '' @ escapeSQLName mode (c_name (t_columns desiredTable ! (i - 1)))
      else '' FIRST'')"

definition checkConstraintName :: "string \<Rightarrow> Table \<Rightarrow> Column \<Rightarrow> string" where
  "checkConstraintName schemaPrefix desiredTable desiredColumn =
     removeFirst schemaPrefix (t_name desiredTable) @ ''_'' @ c_name desiredColumn @ ''_check''"

definition changeColumnMysql ::
  "Table \<Rightarrow> Table \<Rightarrow> nat \<Rightarrow> Column \<Rightarrow> Column \<Rightarrow> ddlsFailure + string list" where
  "changeColumnMysql currentTable desiredTable i currentColumn desiredColumn =
     (let mode = GeneratorModeMysql;
          currentPos = c_position currentColumn;
          desiredPos = c_position desiredColumn;
          changeOrder = (currentPos > desiredPos
                         \<and> currentPos - desiredPos
                             > int (length (t_columns currentTable))
                               - int (length (t_columns desiredTable)))
      in seqE
           [if \<not> haveSameColumnDefinition mode currentColumn desiredColumn
                \<or> \<not> areSameDefaultValue (c_defaultDef currentColumn) (c_defaultDef desiredColumn)
                \<or> changeOrder
            then (case returnDDLs (generateColumnDefinition mode desiredColumn False) of
                    Inl fl \<Rightarrow> Inl fl
                  | Inr definition \<Rightarrow>
                      Inr [''ALTER TABLE '' @ escapeTableName mode (t_name desiredTable)
                             @ '' CHANGE COLUMN '' @ escapeSQLName mode (c_name currentColumn)
                             @ '' '' @ definition
                             @ (if changeOrder then positionClause mode desiredTable i else [])])
            else Inr [],
            Inr (if isUnique (c_keyOption desiredColumn)
                      \<and> \<not> isUnique (c_keyOption currentColumn)
                      \<and> findIndexByName (t_indexes currentTable) (c_name desiredColumn) = None
                 then [''ALTER TABLE '' @ escapeTableName mode (t_name desiredTable)
                         @ '' ADD UNIQUE KEY '' @ escapeSQLName mode (c_name desiredColumn)
                         @ ''('' @ escapeSQLName mode (c_name desiredColumn) @ '')'']
                 else [])])"

definition changeColumnPostgres ::
  "Table \<Rightarrow> Table \<Rightarrow> Column \<Rightarrow> Column \<Rightarrow> ddlsFailure + string list" where
  "changeColumnPostgres currentTable desiredTable currentColumn desiredColumn =
     (let mode = GeneratorModePostgres;
          alterDesired = ''ALTER TABLE '' @ escapeTableName mode (t_name desiredTable);
          alterCurrent = ''ALTER TABLE '' @ escapeTableName mode (t_name currentTable);
          currentName = escapeSQLName mode (c_name currentColumn);
          desiredName = escapeSQLName mode (c_name desiredColumn)
      in seqE
           [Inr (if \<not> haveSameDataType mode currentColumn desiredColumn
                 then [alterDesired @ '' ALTER COLUMN '' @ currentName @ '' TYPE ''
                         @ generateDataType desiredColumn]
                 else []),
            Inr (if \<not> isPrimaryKey currentColumn currentTable then
                   (if notNull mode currentColumn \<and> \<not> notNull mode desiredColumn
                    then [alterDesired @ '' ALTER COLUMN '' @ currentName @ '' DROP NOT NULL'']
                    else if \<not> notNull mode currentColumn \<and> notNull mode desiredColumn
                    then [alterDesired @ '' ALTER COLUMN '' @ currentName @ '' SET NOT NULL'']
                    else [])
                 else []),
            Inr (if c_identity currentColumn \<noteq> c_identity desiredColumn then
                   (if c_identity currentColumn = [] then
                      [alterDesired @ '' ALTER COLUMN '' @ desiredName @ '' ADD GENERATED ''
                         @ c_identity desiredColumn @ '' AS IDENTITY''
                         @ (case c_sequence desiredColumn of
                              Some sq \<Rightarrow> '' ('' @ generateSequenceClause sq @ '')''
                            | None \<Rightarrow> [])]
                    else if c_identity desiredColumn = [] then
                      [alterCurrent @ '' ALTER COLUMN '' @ currentName
                         @ '' DROP IDENTITY IF EXISTS'']
                    else
                      [alterDesired @ '' ALTER COLUMN '' @ desiredName @ '' SET GENERATED ''
                         @ c_identity desiredColumn])
                 else []),
            if \<not> areSameDefaultValue (c_defaultDef currentColumn) (c_defaultDef desiredColumn)
            then (case c_defaultDef desiredColumn of
                    None \<Rightarrow> Inr [alterCurrent @ '' ALTER COLUMN '' @ currentName @ '' DROP DEFAULT'']
                  | Some d \<Rightarrow>
                      (case dd_value d of
                         None \<Rightarrow> Inl (Panicked PanicNilDereference)
                       | Some v \<Rightarrow>
                           (case returnDDLs (generateDefaultDefinition v) of
                              Inl fl \<Rightarrow> Inl fl
                            | Inr definition \<Rightarrow>
                                Inr [alterCurrent @ '' ALTER COLUMN '' @ currentName @ '' SET ''
                                       @ definition])))
            else Inr [],
            Inr (if \<not> areSameCheckDefinition (c_check currentColumn) (c_check desiredColumn)
                      \<or> c_checkNoInherit currentColumn \<noteq> c_checkNoInherit desiredColumn
                 then
                   (let constraintName = checkConstraintName ''public.'' desiredTable desiredColumn
                    in (case c_check currentColumn of
                          Some cur \<Rightarrow> [alterDesired @ '' DROP CONSTRAINT '' @ constraintName]
                        | None \<Rightarrow> [])
                       @ (case c_check desiredColumn of
                            Some (a, chk) \<Rightarrow>
                              [alterDesired @ '' ADD CONSTRAINT '' @ constraintName @ '' CHECK (''
                                 @ cd_definition chk @ '')''
                                 @ (if c_checkNoInherit desiredColumn then '' NO INHERIT'' else [])]
                          | None \<Rightarrow> []))
                 else [])])"

definition changeColumnMssql :: "Table \<Rightarrow> Column \<Rightarrow> Column \<Rightarrow> string list" where
  "changeColumnMssql desiredTable currentColumn desiredColumn =
     (let mode = GeneratorModeMssql;
          alterDesired = ''ALTER TABLE '' @ escapeTableName mode (t_name desiredTable)
      in if \<not> areSameCheckDefinition (c_check currentColumn) (c_check desiredColumn)
              \<or> c_checkNoInherit currentColumn \<noteq> c_checkNoInherit desiredColumn
         then
           (let constraintName = checkConstraintName ''dbo.'' desiredTable desiredColumn
            in (case c_check currentColumn of
                  Some (a, cur) \<Rightarrow> [alterDesired @ '' DROP CONSTRAINT '' @ cd_constraintName cur]
                | None \<Rightarrow> [])
               @ (case c_check desiredColumn of
                    Some (a, chk) \<Rightarrow>
                      [alterDesired @ '' ADD CONSTRAINT ''
                         @ (if cd_constraintName chk = [] then constraintName
                            else cd_constraintName chk)
                         @ '' CHECK ('' @ cd_definition chk @ '')'']
                  | None \<Rightarrow> []))
         else [])"

definition examineColumn ::
  "GeneratorMode \<Rightarrow> Table \<Rightarrow> Table \<Rightarrow> nat \<Rightarrow> Column \<Rightarrow> ddlsFailure + string list" where
  "examineColumn mode currentTable desiredTable i desiredColumn0 =
     (case findColumnByName (t_columns currentTable) (c_name desiredColumn0) of
        None \<Rightarrow>
          (let desiredColumn = desiredColumn0 \<lparr> c_autoIncrement := False \<rparr> in
           case returnDDLs (generateColumnDefinition mode desiredColumn True) of
             Inl fl \<Rightarrow> Inl fl
           | Inr definition \<Rightarrow>
               Inr [(if mode = GeneratorModeMssql
                     then ''ALTER TABLE '' @ escapeTableName mode (t_name desiredTable)
                            @ '' ADD '' @ definition
                     else ''ALTER TABLE '' @ escapeTableName mode (t_name desiredTable)
                            @ '' ADD COLUMN '' @ definition)
                    @ (if mode = GeneratorModeMysql then positionClause mode desiredTable i
                       else [])])
      | Some currentColumn \<Rightarrow>
          (let desiredColumn = (if \<not> c_autoIncrement currentColumn
                                then desiredColumn0 \<lparr> c_autoIncrement := False \<rparr>
                                else desiredColumn0) in
           case mode of
             GeneratorModeMysql \<Rightarrow>
               changeColumnMysql currentTable desiredTable i currentColumn desiredColumn
           | GeneratorModePostgres \<Rightarrow>
               changeColumnPostgres currentTable desiredTable currentColumn desiredColumn
           | GeneratorModeMssql \<Rightarrow>
               Inr (changeColumnMssql desiredTable currentColumn desiredColumn)
           | _ \<Rightarrow> Inr []))"

definition examineColumns ::
  "GeneratorMode \<Rightarrow> Table \<Rightarrow> Table \<Rightarrow> ddlsFailure + string list" where
  "examineColumns mode currentTable desiredTable =
     forEachE (\<lambda>(i, desiredColumn). examineColumn mode currentTable desiredTable i desiredColumn)
       (enumerate 0 (t_columns desiredTable))"

definition removeOldAutoIncrement ::
  "GeneratorMode \<Rightarrow> Table \<Rightarrow> Table \<Rightarrow> ddlsFailure + string list" where
  "removeOldAutoIncrement mode currentTable desiredTable =
     (if mode = GeneratorModeMysql then
        forEachE
          (\<lambda>currentColumn.
             if c_autoIncrement currentColumn
                \<and> (case findColumnByName (t_columns desiredTable) (c_name currentColumn) of
                      None \<Rightarrow> True
                    | Some desiredColumn \<Rightarrow> \<not> c_autoIncrement desiredColumn)
             then (case returnDDLs (generateColumnDefinition mode
                                      (currentColumn \<lparr> c_autoIncrement := False \<rparr>) False) of
                     Inl fl \<Rightarrow> Inl fl
                   | Inr definition \<Rightarrow>
                       Inr [''ALTER TABLE '' @ escapeTableName mode (t_name currentTable)
                              @ '' CHANGE COLUMN '' @ escapeSQLName mode (c_name currentColumn)
                              @ '' '' @ definition])
             else Inr [])
          (t_columns currentTable)
      else Inr [])"

definition examinePrimaryKey ::
  "GeneratorMode \<Rightarrow> Table \<Rightarrow> Table \<Rightarrow> ddlsFailure + string list" where
  "examinePrimaryKey mode currentTable desiredTable =
     (let currentPrimaryKey = PrimaryKey currentTable;
          desiredPrimaryKey = PrimaryKey desiredTable
      in if \<not> areSamePrimaryKeys currentPrimaryKey desiredPrimaryKey then
           seqE
             [case currentPrimaryKey of
                None \<Rightarrow> Inr []
              | Some cpk \<Rightarrow>
                  (case mode of
                     GeneratorModeMysql \<Rightarrow>
                       Inr [''ALTER TABLE '' @ escapeTableName mode (t_name desiredTable)
                              @ '' DROP PRIMARY KEY'']
                   | GeneratorModePostgres \<Rightarrow>
                       (case splitDot (t_name desiredTable) of
                          (schemaName, None) \<Rightarrow> Inl (Panicked PanicIndexOutOfRange)
                        | (schemaName, Some tableName) \<Rightarrow>
                            Inr [''ALTER TABLE '' @ escapeTableName mode (t_name desiredTable)
                                   @ '' DROP CONSTRAINT ''
                                   @ escapeSQLName mode (tableName @ ''_pkey'')])
                   | _ \<Rightarrow> Inr []),
              case desiredPrimaryKey of
                None \<Rightarrow> Inr []
              | Some dpk \<Rightarrow>
                  (case returnDDLs (generateAddIndex mode (t_name desiredTable) dpk) of
                     Inl fl \<Rightarrow> Inl fl
                   | Inr ddl \<Rightarrow> Inr [ddl])]
         else Inr [])"

definition examineIndexes ::
  "GeneratorMode \<Rightarrow> Table \<Rightarrow> Table \<Rightarrow> ddlsFailure + string list" where
  "examineIndexes mode currentTable desiredTable =
     forEachE
       (\<lambda>desiredIndex.
          if i_primary desiredIndex then Inr []
          else
            (case findIndexByName (t_indexes currentTable) (i_name desiredIndex) of
               Some currentIndex \<Rightarrow>
                 if \<not> areSameIndexes currentIndex desiredIndex then
                   (case returnDDLs (generateAddIndex mode (t_name desiredTable) desiredIndex) of
                      Inl fl \<Rightarrow> Inl fl
                    | Inr ddl \<Rightarrow>
                        Inr [generateDropIndex mode (t_name desiredTable) (i_name desiredIndex),
                             ddl])
                 else Inr []
             | None \<Rightarrow>
                 (case returnDDLs (generateAddIndex mode (t_name desiredTable) desiredIndex) of
                    Inl fl \<Rightarrow> Inl fl
                  | Inr ddl \<Rightarrow> Inr [ddl])))
       (t_indexes desiredTable)"

definition addNewAutoIncrement ::
  "GeneratorMode \<Rightarrow> Table \<Rightarrow> Table \<Rightarrow> ddlsFailure + string list" where
  "addNewAutoIncrement mode currentTable desiredTable =
     (if mode = GeneratorModeMysql then
        forEachE
          (\<lambda>desiredColumn.
             if c_autoIncrement desiredColumn
                \<and> (case findColumnByName (t_columns currentTable) (c_name desiredColumn) of
                      None \<Rightarrow> True
                    | Some currentColumn \<Rightarrow> \<not> c_autoIncrement currentColumn)
             then (case returnDDLs (generateColumnDefinition mode desiredColumn False) of
                     Inl fl \<Rightarrow> Inl fl
                   | Inr definition \<Rightarrow>
                       Inr [''ALTER TABLE '' @ escapeTableName mode (t_name currentTable)
                              @ '' CHANGE COLUMN '' @ escapeSQLName mode (c_name desiredColumn)
                              @ '' '' @ definition])
             else Inr [])
          (t_columns desiredTable)
      else Inr [])"

definition examineForeignKey ::
  "GeneratorMode \<Rightarrow> Table \<Rightarrow> Table \<Rightarrow> ForeignKey \<Rightarrow> ddlsFailure + string list" where
  "examineForeignKey mode currentTable desiredTable desiredForeignKey =
     (if length (fk_constraintName desiredForeignKey) = 0 then
        Inl (Failed (MissingConstraintName (t_name desiredTable)
                       (fk_indexName desiredForeignKey) (fk_indexColumns desiredForeignKey))
               (Some []))
      else
        (let addDDL = ''ALTER TABLE '' @ escapeTableName mode (t_name desiredTable) @ '' ADD ''
                        @ generateForeignKeyDefinition mode desiredForeignKey
         in case findForeignKeyByName (t_foreignKeys currentTable)
                   (fk_constraintName desiredForeignKey) of
              Some currentForeignKey \<Rightarrow>
                if \<not> areSameForeignKeys mode currentForeignKey desiredForeignKey then
                  Inr ((if mode = GeneratorModeMysql then
                          [''ALTER TABLE '' @ escapeTableName mode (t_name desiredTable)
                             @ '' DROP FOREIGN KEY ''
                             @ escapeSQLName mode (fk_constraintName currentForeignKey)]
                        else if mode = GeneratorModePostgres \<or> mode = GeneratorModeMssql then
                          [''ALTER TABLE '' @ escapeTableName mode (t_name desiredTable)
                             @ '' DROP CONSTRAINT ''
                             @ escapeSQLName mode (fk_constraintName currentForeignKey)]
                        else [])
                       @ [addDDL])
                else Inr []
            | None \<Rightarrow> Inr [addDDL]))"

definition examineForeignKeys ::
  "GeneratorMode \<Rightarrow> Table \<Rightarrow> Table \<Rightarrow> ddlsFailure + string list" where
  "examineForeignKeys mode currentTable desiredTable =
     forEachE (examineForeignKey mode currentTable desiredTable) (t_foreignKeys desiredTable)"

definition generateDDLsForCreateTable ::
  "GeneratorMode \<Rightarrow> Table \<Rightarrow> Table \<Rightarrow> ddlsFailure + string list" where
  "generateDDLsForCreateTable mode currentTable desiredTable =
     seqE
       [examineColumns mode currentTable desiredTable,
        removeOldAutoIncrement mode currentTable desiredTable,
        examinePrimaryKey mode currentTable desiredTable,
        examineIndexes mode currentTable desiredTable,
        addNewAutoIncrement mode currentTable desiredTable,
        examineForeignKeys mode currentTable desiredTable]"

section \<open>The generator\<close>

text \<open>The simulated schema state held during \<^verbatim>\<open>generateDDLs\<close>.\<close>

record Generator =
  g_mode :: GeneratorMode
  g_desiredTables :: "Table list"
  g_currentTables :: "Table list"
  g_desiredViews :: "View list"
  g_currentViews :: "View list"

text \<open>
  The functions called for one desired statement return the statements to emit together
  with the state they leave. Each of their error returns is \<^verbatim>\<open>return nil, err\<close>.
\<close>

definition replaceIndex :: "Index list \<Rightarrow> Index \<Rightarrow> Index list" where
  "replaceIndex indexes desiredIndex =
     map (\<lambda>currentIndex. if i_name currentIndex = i_name desiredIndex then desiredIndex
                          else currentIndex) indexes"

definition generateDDLsForCreateIndex ::
  "Generator \<Rightarrow> string \<Rightarrow> Index \<Rightarrow> string \<Rightarrow> string \<Rightarrow> ddlsFailure + (string list \<times> Generator)"
  where
  "generateDDLsForCreateIndex g tableName desiredIndex action statement =
     (case findTableByName (g_currentTables g) tableName of
        None \<Rightarrow> Inl (Failed (MissingTable action tableName statement) None)
      | Some currentTable \<Rightarrow>
          (let (ddls, currentTable') =
                 (case findIndexByName (t_indexes currentTable) (i_name desiredIndex) of
                    None \<Rightarrow>
                      ([statement],
                       currentTable \<lparr> t_indexes := t_indexes currentTable @ [desiredIndex] \<rparr>)
                  | Some currentIndex \<Rightarrow>
                      if \<not> areSameIndexes currentIndex desiredIndex then
                        ([generateDropIndex (g_mode g) (t_name currentTable) (i_name currentIndex),
                          statement],
                         currentTable \<lparr> t_indexes :=
                                          replaceIndex (t_indexes currentTable) desiredIndex \<rparr>)
                      else ([], currentTable));
               g1 = g \<lparr> g_currentTables :=
                          updateTableByName (g_currentTables g) tableName currentTable' \<rparr>
           in case findTableByName (g_desiredTables g1) tableName of
                None \<Rightarrow> Inl (Failed (MissingDesiredTable action tableName statement) None)
              | Some desiredTable \<Rightarrow>
                  if containsString (convertIndexesToIndexNames (t_indexes desiredTable))
                       (i_name desiredIndex)
                  then Inl (Failed (DuplicateIndex (i_name desiredIndex) tableName statement)
                              None)
                  else Inr (ddls,
                            g1 \<lparr> g_desiredTables :=
                                   updateTableByName (g_desiredTables g1) tableName
                                     (desiredTable \<lparr> t_indexes :=
                                        t_indexes desiredTable @ [desiredIndex] \<rparr>) \<rparr>)))"

definition generateDDLsForAddForeignKey ::
  "Generator \<Rightarrow> string \<Rightarrow> ForeignKey \<Rightarrow> string \<Rightarrow> string
     \<Rightarrow> ddlsFailure + (string list \<times> Generator)" where
  "generateDDLsForAddForeignKey g tableName desiredForeignKey action statement =
     (case findTableByName (g_desiredTables g) tableName of
        None \<Rightarrow> Inl (Failed (MissingDesiredTable action tableName statement) None)
      | Some desiredTable \<Rightarrow>
          if containsString (convertForeignKeysToConstraintNames (t_foreignKeys desiredTable))
               (fk_constraintName desiredForeignKey)
          then Inl (Failed (DuplicateForeignKey (fk_constraintName desiredForeignKey) tableName
                              statement) None)
          else Inr ([],
                    g \<lparr> g_desiredTables :=
                          updateTableByName (g_desiredTables g) tableName
                            (desiredTable \<lparr> t_foreignKeys :=
                               t_foreignKeys desiredTable @ [desiredForeignKey] \<rparr>) \<rparr>))"

definition generateDDLsForCreatePolicy ::
  "Generator \<Rightarrow> string \<Rightarrow> Policy \<Rightarrow> string \<Rightarrow> string \<Rightarrow> ddlsFailure + (string list \<times> Generator)"
  where
  "generateDDLsForCreatePolicy g tableName desiredPolicy action statement =
     (case findTableByName (g_currentTables g) tableName of
        None \<Rightarrow> Inl (Failed (MissingTable action tableName statement) None)
      | Some currentTable \<Rightarrow>
          (let (ddls, currentTable') =
                 (case findPolicyByName (t_policies currentTable) (p_name desiredPolicy) of
                    None \<Rightarrow>
                      ([statement],
                       currentTable \<lparr> t_policies := t_policies currentTable @ [desiredPolicy] \<rparr>)
                  | Some currentPolicy \<Rightarrow>
                      if \<not> areSamePolicies currentPolicy desiredPolicy then
                        ([''DROP POLICY '' @ escapeSQLName (g_mode g) (p_name currentPolicy)
                            @ '' ON '' @ escapeTableName (g_mode g) (t_name currentTable),
                          statement],
                         currentTable)
                      else ([], currentTable));
               g1 = g \<lparr> g_currentTables :=
                          updateTableByName (g_currentTables g) tableName currentTable' \<rparr>
           in case findTableByName (g_desiredTables g1) tableName of
                None \<Rightarrow> Inl (Failed (MissingDesiredTable action tableName statement) None)
              | Some desiredTable \<Rightarrow>
                  if containsString (convertPolicyNames (t_policies desiredTable))
                       (p_name desiredPolicy)
                  then Inl (Failed (DuplicatePolicy (p_name desiredPolicy) tableName statement)
                              None)
                  else Inr (ddls,
                            g1 \<lparr> g_desiredTables :=
                                   updateTableByName (g_desiredTables g1) tableName
                                     (desiredTable \<lparr> t_policies :=
                                        t_policies desiredTable @ [desiredPolicy] \<rparr>) \<rparr>)))"

definition generateDDLsForCreateView ::
  "Generator \<Rightarrow> string \<Rightarrow> View \<Rightarrow> ddlsFailure + (string list \<times> Generator)" where
  "generateDDLsForCreateView g viewName desiredView =
     (let mode = g_mode g;
          ddls =
            (case findViewByName (g_currentViews g) viewName of
               None \<Rightarrow> [vw_statement desiredView]
             | Some currentView \<Rightarrow>
                 if toLower (vw_definition currentView) \<noteq> toLower (vw_definition desiredView)
                 then
                   (if mode = GeneratorModeSQLite3 \<or> mode = GeneratorModeMssql
                    then [''DROP VIEW '' @ escapeTableName mode viewName,
                          ''CREATE VIEW '' @ escapeTableName mode viewName @ '' AS ''
                            @ vw_definition desiredView]
                    else [''CREATE OR REPLACE VIEW '' @ escapeTableName mode viewName @ '' AS ''
                            @ vw_definition desiredView])
                 else [])
      in if containsString (convertViewNames (g_desiredViews g)) (vw_name desiredView)
         then Inl (Failed (DuplicateView (vw_name desiredView) (vw_statement desiredView)) None)
         else Inr (ddls, g \<lparr> g_desiredViews := g_desiredViews g @ [desiredView] \<rparr>))"

text \<open>
  One round of the loop of \<^verbatim>\<open>generateDDLs\<close> over the desired statements. When the
  function called for the statement returns an error, \<^verbatim>\<open>generateDDLs\<close> returns that
  error with its own list \<^verbatim>\<open>ddls\<close>, whatever the function returned with the error; for
  a statement of a kind it does not know, it returns the error with nil.
\<close>

fun generateDDL :: "Generator \<Rightarrow> DDL \<Rightarrow> ddlsFailure + (string list \<times> Generator)" where
  "generateDDL g (CreateTable statement desiredTable) =
     (case findTableByName (g_currentTables g) (t_name desiredTable) of
        Some currentTable \<Rightarrow>
          (case returnDDLs (generateDDLsForCreateTable (g_mode g) currentTable desiredTable) of
             Inl fl \<Rightarrow> Inl fl
           | Inr tableDDLs \<Rightarrow>
               Inr (tableDDLs,
                    g \<lparr> g_currentTables :=
                          updateTableByName (g_currentTables g) (t_name desiredTable)
                            (mergeTable currentTable desiredTable),
                        g_desiredTables := g_desiredTables g @ [desiredTable] \<rparr>))
      | None \<Rightarrow>
          Inr ([statement],
               g \<lparr> g_currentTables := g_currentTables g @ [desiredTable],
                   g_desiredTables := g_desiredTables g @ [desiredTable] \<rparr>))"
| "generateDDL g (CreateIndex statement tableName index) =
     returnDDLs (generateDDLsForCreateIndex g tableName index ''CREATE INDEX'' statement)"
| "generateDDL g (AddIndex statement tableName index) =
     returnDDLs (generateDDLsForCreateIndex g tableName index ''ALTER TABLE'' statement)"
| "generateDDL g (AddForeignKey statement tableName foreignKey) =
     returnDDLs (generateDDLsForAddForeignKey g tableName foreignKey ''ALTER TABLE'' statement)"
| "generateDDL g (AddPolicy statement tableName policy) =
     returnDDLs (generateDDLsForCreatePolicy g tableName policy ''CREATE POLICY'' statement)"
| "generateDDL g (CreateView view) =
     returnDDLs (generateDDLsForCreateView g (vw_name view) view)"
| "generateDDL g (AddPrimaryKey statement tableName index) =
     Inl (Failed (UnknownStatement (AddPrimaryKey statement tableName index)) None)"

text \<open>
  The loop over the desired statements: the statements of the rounds are gathered in
  \<^verbatim>\<open>ddls\<close>, and a failing round ends the loop.
\<close>

fun examineDesiredDDLs ::
  "Generator \<Rightarrow> DDL list \<Rightarrow> ddlsFailure + (string list \<times> Generator)" where
  "examineDesiredDDLs g [] = Inr ([], g)"
| "examineDesiredDDLs g (ddl # rest) =
     (case generateDDL g ddl of
        Inl fl \<Rightarrow> Inl fl
      | Inr (ddls, g1) \<Rightarrow>
          (case examineDesiredDDLs g1 rest of
             Inl fl \<Rightarrow> Inl (afterDDLs ddls fl)
           | Inr (ddls', g2) \<Rightarrow> Inr (ddls @ ddls', g2)))"

text \<open>The clean-up of one current table that the desired schema still has.\<close>

definition dropObsoleteForeignKeys :: "GeneratorMode \<Rightarrow> Table \<Rightarrow> Table \<Rightarrow> string list" where
  "dropObsoleteForeignKeys mode currentTable desiredTable =
     concat (map (\<lambda>foreignKey.
                    if containsString
                         (convertForeignKeysToConstraintNames (t_foreignKeys desiredTable))
                         (fk_constraintName foreignKey)
                    then []
                    else generateDDLsForAbsentForeignKey mode foreignKey currentTable desiredTable)
               (t_foreignKeys currentTable))"

definition dropObsoleteIndexes ::
  "GeneratorMode \<Rightarrow> Table \<Rightarrow> Table \<Rightarrow> ddlsFailure + string list" where
  "dropObsoleteIndexes mode currentTable desiredTable =
     forEachE (\<lambda>index.
                 if containsString (convertIndexesToIndexNames (t_indexes desiredTable))
                      (i_name index)
                    \<or> containsString (convertForeignKeysToIndexNames (t_foreignKeys desiredTable))
                         (i_name index)
                 then Inr []
                 else returnDDLs (generateDDLsForAbsentIndex mode index currentTable desiredTable))
       (t_indexes currentTable)"

definition dropObsoleteColumns :: "GeneratorMode \<Rightarrow> Table \<Rightarrow> Table \<Rightarrow> string list" where
  "dropObsoleteColumns mode currentTable desiredTable =
     concat (map (\<lambda>column.
                    if containsString (convertColumnsToColumnNames (t_columns desiredTable))
                         (c_name column)
                    then []
                    else generateDDLsForAbsentColumn mode currentTable (c_name column))
               (t_columns currentTable))"

definition dropObsoletePolicies :: "GeneratorMode \<Rightarrow> Table \<Rightarrow> Table \<Rightarrow> string list" where
  "dropObsoletePolicies mode currentTable desiredTable =
     concat (map (\<lambda>policy.
                    if containsString (convertPolicyNames (t_policies desiredTable)) (p_name policy)
                    then []
                    else [''DROP POLICY '' @ escapeSQLName mode (p_name policy) @ '' ON ''
                            @ escapeTableName mode (t_name currentTable)])
               (t_policies currentTable))"

definition cleanUpTable ::
  "GeneratorMode \<Rightarrow> Table \<Rightarrow> Table \<Rightarrow> ddlsFailure + string list" where
  "cleanUpTable mode currentTable desiredTable =
     seqE
       [Inr (dropObsoleteForeignKeys mode currentTable desiredTable),
        dropObsoleteIndexes mode currentTable desiredTable,
        Inr (dropObsoleteColumns mode currentTable desiredTable),
        Inr (dropObsoletePolicies mode currentTable desiredTable)]"

text \<open>
  The clean-up loop over the current tables. The loop ranges over the list as it was when
  the loop began; \<open>currentTables\<close> is \<^verbatim>\<open>g.currentTables\<close>, from which dropped tables
  are removed.
\<close>

fun cleanUpTables ::
  "GeneratorMode \<Rightarrow> Table list \<Rightarrow> Table list \<Rightarrow> Table list \<Rightarrow> ddlsFailure + string list" where
  "cleanUpTables mode desiredTables currentTables [] = Inr []"
| "cleanUpTables mode desiredTables currentTables (currentTable # rest) =
     (case findTableByName desiredTables (t_name currentTable) of
        None \<Rightarrow>
          (case removeTableByName currentTables (t_name currentTable) of
             Inl fl \<Rightarrow> Inl fl
           | Inr currentTables' \<Rightarrow>
               (case cleanUpTables mode desiredTables currentTables' rest of
                  Inl fl \<Rightarrow>
                    Inl (afterDDLs [''DROP TABLE '' @ escapeTableName mode (t_name currentTable)]
                           fl)
                | Inr ddls \<Rightarrow>
                    Inr ((''DROP TABLE '' @ escapeTableName mode (t_name currentTable)) # ddls)))
      | Some desiredTable \<Rightarrow>
          (case cleanUpTable mode currentTable desiredTable of
             Inl fl \<Rightarrow> Inl fl
           | Inr tableDDLs \<Rightarrow>
               (case cleanUpTables mode desiredTables currentTables rest of
                  Inl fl \<Rightarrow> Inl (afterDDLs tableDDLs fl)
                | Inr ddls \<Rightarrow> Inr (tableDDLs @ ddls))))"

definition cleanUpViews :: "GeneratorMode \<Rightarrow> View list \<Rightarrow> View list \<Rightarrow> string list" where
  "cleanUpViews mode desiredViews currentViews =
     concat (map (\<lambda>currentView.
                    if containsString (convertViewNames desiredViews) (vw_name currentView)
                    then []
                    else [''DROP VIEW '' @ escapeTableName mode (vw_name currentView)])
               currentViews)"

text \<open>
  \<^verbatim>\<open>generateDDLs\<close>: the walk over the desired statements, then the clean-up of the
  tables and of the views. A failure of the clean-up comes with the statements of the walk
  and of the clean-up so far.
\<close>

definition generateDDLs :: "Generator \<Rightarrow> DDL list \<Rightarrow> ddlsFailure + string list" where
  "generateDDLs g desiredDDLs =
     (case examineDesiredDDLs g desiredDDLs of
        Inl fl \<Rightarrow> Inl fl
      | Inr (ddls, g1) \<Rightarrow>
          (case cleanUpTables (g_mode g1) (g_desiredTables g1) (g_currentTables g1)
                  (g_currentTables g1) of
             Inl fl \<Rightarrow> Inl (afterDDLs ddls fl)
           | Inr tableDDLs \<Rightarrow>
               Inr (ddls @ tableDDLs
                    @ cleanUpViews (g_mode g1) (g_desiredViews g1) (g_currentViews g1))))"

section \<open>Folding the current statements into a schema\<close>

fun convertDDLToTables :: "Table list \<Rightarrow> DDL \<Rightarrow> Table list option failure + Table list" where
  "convertDDLToTables tables (CreateTable statement tbl) = Inr (tables @ [tbl])"
| "convertDDLToTables tables (CreateIndex statement tableName index) =
     (case findTableByName tables tableName of
        None \<Rightarrow> Inl (Failed (MissingTable ''CREATE INDEX'' tableName statement) None)
      | Some tbl \<Rightarrow>
          Inr (updateTableByName tables tableName (tbl \<lparr> t_indexes := t_indexes tbl @ [index] \<rparr>)))"
| "convertDDLToTables tables (AddIndex statement tableName index) =
     Inl (Failed (UnknownStatement (AddIndex statement tableName index)) None)"
| "convertDDLToTables tables (AddPrimaryKey statement tableName index) =
     (case findTableByName tables tableName of
        None \<Rightarrow> Inl (Failed (MissingTable ''ADD PRIMARY KEY'' tableName statement) None)
      | Some tbl \<Rightarrow>
          if t_columns tbl = [] then Inr tables
          else
            (case returnNil (firstIndexColumn index) of
               Inl fl \<Rightarrow> Inl fl
             | Inr col \<Rightarrow>
                 Inr (updateTableByName tables tableName
                        (tbl \<lparr> t_columns :=
                                 map (\<lambda>column. if c_name column = col
                                                then column \<lparr> c_keyOption := ColumnKeyPrimary \<rparr>
                                                else column)
                                   (t_columns tbl) \<rparr>))))"
| "convertDDLToTables tables (AddForeignKey statement tableName foreignKey) =
     (case findTableByName tables tableName of
        None \<Rightarrow> Inl (Failed (MissingTable ''ADD FOREIGN KEY'' tableName statement) None)
      | Some tbl \<Rightarrow>
          Inr (updateTableByName tables tableName
                 (tbl \<lparr> t_foreignKeys := t_foreignKeys tbl @ [foreignKey] \<rparr>)))"
| "convertDDLToTables tables (AddPolicy statement tableName policy) =
     (case findTableByName tables tableName of
        None \<Rightarrow> Inl (Failed (MissingTable ''ADD POLICY'' tableName statement) None)
      | Some tbl \<Rightarrow>
          Inr (updateTableByName tables tableName
                 (tbl \<lparr> t_policies := t_policies tbl @ [policy] \<rparr>)))"
| "convertDDLToTables tables (CreateView view) = Inr tables"

fun convertDDLsToTablesFrom ::
  "Table list \<Rightarrow> DDL list \<Rightarrow> Table list option failure + Table list" where
  "convertDDLsToTablesFrom tables [] = Inr tables"
| "convertDDLsToTablesFrom tables (ddl # rest) =
     (case convertDDLToTables tables ddl of
        Inl fl \<Rightarrow> Inl fl
      | Inr tables' \<Rightarrow> convertDDLsToTablesFrom tables' rest)"

definition convertDDLsToTables :: "DDL list \<Rightarrow> Table list option failure + Table list" where
  "convertDDLsToTables ddls = convertDDLsToTablesFrom [] ddls"

fun convertDDLsToViews :: "DDL list \<Rightarrow> View list" where
  "convertDDLsToViews [] = []"
| "convertDDLsToViews (CreateView view # rest) = view # convertDDLsToViews rest"
| "convertDDLsToViews (ddl # rest) = convertDDLsToViews rest"

text \<open>
  \<^verbatim>\<open>GenerateIdempotentDDLs\<close>. The parser is outside the generator, so the results of
  its two calls \<^verbatim>\<open>parseDDLs(mode, desiredSQL)\<close> and \<^verbatim>\<open>parseDDLs(mode, currentSQL)\<close>
  are the arguments \<open>desiredParsed\<close> and \<open>currentParsed\<close>: the statements read, or the
  error of the parser. The current statements are folded into the current schema, and the
  desired statements are examined against it. This is the function
  \<open>diff(dialect, desired_ddls, current_ddls)\<close> of the specification.
\<close>

definition GenerateIdempotentDDLs ::
  "GeneratorMode \<Rightarrow> error + DDL list \<Rightarrow> error + DDL list \<Rightarrow> ddlsFailure + string list" where
  "GenerateIdempotentDDLs mode desiredParsed currentParsed =
     (case desiredParsed of
        Inl err \<Rightarrow> Inl (Failed err None)
      | Inr desiredDDLs \<Rightarrow>
          (case currentParsed of
             Inl err \<Rightarrow> Inl (Failed err None)
           | Inr currentDDLs \<Rightarrow>
               (case returnNil (convertDDLsToTables currentDDLs) of
                  Inl fl \<Rightarrow> Inl fl
                | Inr tables \<Rightarrow>
                    generateDDLs
                      \<lparr> g_mode = mode, g_desiredTables = [], g_currentTables = tables,
                        g_desiredViews = [],
                        g_currentViews = convertDDLsToViews currentDDLs \<rparr>
                      desiredDDLs)))"

text \<open>
  The two arguments come from two calls of the parser, so no check definition of a
  desired statement is at the address of a check definition of a current statement:
  \<open>parsedSeparately\<close>. The content of a column is the column with its check definition
  moved to the address 0; two statement lists with the same content are what the parser
  reads from the same text in two calls.
\<close>

definition checkAddresses :: "DDL list \<Rightarrow> nat list" where
  "checkAddresses ddls =
     concat (map (\<lambda>ddl. case ddl of
                          CreateTable statement tbl \<Rightarrow>
                            concat (map (\<lambda>column. case c_check column of
                                                     Some (a, chk) \<Rightarrow> [a] | None \<Rightarrow> [])
                                      (t_columns tbl))
                        | _ \<Rightarrow> [])
               ddls)"

definition parsedSeparately :: "DDL list \<Rightarrow> DDL list \<Rightarrow> bool" where
  "parsedSeparately desiredDDLs currentDDLs \<longleftrightarrow>
     list_all (\<lambda>a. a \<notin> set (checkAddresses currentDDLs)) (checkAddresses desiredDDLs)"

definition columnContent :: "Column \<Rightarrow> Column" where
  "columnContent column =
     \<lparr> c_name = c_name column, c_position = c_position column, c_typeName = c_typeName column,
       c_unsigned = c_unsigned column, c_notNull = c_notNull column,
       c_autoIncrement = c_autoIncrement column, c_array = c_array column,
       c_defaultDef = c_defaultDef column, c_length = c_length column,
       c_scale = c_scale column,
       c_check = map_option (\<lambda>(a, chk). (0, chk)) (c_check column),
       c_checkNoInherit = c_checkNoInherit column, c_charset = c_charset column,
       c_collate = c_collate column, c_timezone = c_timezone column,
       c_keyOption = c_keyOption column, c_onUpdate = c_onUpdate column,
       c_enumValues = c_enumValues column, c_references = c_references column,
       c_identity = c_identity column, c_sequence = c_sequence column \<rparr>"

definition tableContent :: "Table \<Rightarrow> Table" where
  "tableContent tbl =
     \<lparr> t_name = t_name tbl, t_columns = map columnContent (t_columns tbl),
       t_indexes = t_indexes tbl, t_foreignKeys = t_foreignKeys tbl,
       t_policies = t_policies tbl \<rparr>"

fun statementContent :: "DDL \<Rightarrow> DDL" where
  "statementContent (CreateTable statement tbl) = CreateTable statement (tableContent tbl)"
| "statementContent ddl = ddl"

definition sameContent :: "DDL list \<Rightarrow> DDL list \<Rightarrow> bool" where
  "sameContent desiredDDLs currentDDLs \<longleftrightarrow>
     map statementContent desiredDDLs = map statementContent currentDDLs"

section \<open>Index statements of the desired stream\<close>

text \<open>
  \<^verbatim>\<open>CREATE INDEX\<close> and \<^verbatim>\<open>ALTER TABLE ... ADD INDEX\<close> are examined by the same
  function; \<open>indexStatement\<close> reads the text, the table and the index of either.
\<close>

fun indexStatement :: "DDL \<Rightarrow> (string \<times> string \<times> Index) option" where
  "indexStatement (CreateIndex statement tableName index) = Some (statement, tableName, index)"
| "indexStatement (AddIndex statement tableName index) = Some (statement, tableName, index)"
| "indexStatement _ = None"

text \<open>
  The simulated state has recorded an index name for a table: the desired table holds an
  index of that name, and a current table of that name exists.
\<close>

definition indexRecorded :: "string \<Rightarrow> string \<Rightarrow> Generator \<Rightarrow> bool" where
  "indexRecorded tableName indexName g \<longleftrightarrow>
     (\<exists>t. findTableByName (g_desiredTables g) tableName = Some t
          \<and> indexName \<in> i_name ` set (t_indexes t))
     \<and> tableName \<in> t_name ` set (g_currentTables g)"

section \<open>Example values\<close>

text \<open>Small schema values on which the theorems below are exercised.\<close>

definition exVal :: "ValueType \<Rightarrow> string \<Rightarrow> Val" where
  "exVal ty r =
     \<lparr> v_valueType = ty, v_raw = r, v_strVal = r, v_intVal = 0, v_floatVal = r,
       v_bitVal = False \<rparr>"

definition exColumn :: "string \<Rightarrow> string \<Rightarrow> Column" where
  "exColumn n ty =
     \<lparr> c_name = n, c_position = 0, c_typeName = ty, c_unsigned = False, c_notNull = None,
       c_autoIncrement = False, c_array = False, c_defaultDef = None, c_length = None,
       c_scale = None, c_check = None, c_checkNoInherit = False, c_charset = [],
       c_collate = [], c_timezone = False, c_keyOption = ColumnKeyNone, c_onUpdate = None,
       c_enumValues = [], c_references = [], c_identity = [], c_sequence = None \<rparr>"

definition exIndex :: "string \<Rightarrow> string list \<Rightarrow> IndexOption list \<Rightarrow> Index" where
  "exIndex n cols opts =
     \<lparr> i_name = n, i_indexType = ''index'',
       i_columns = map (\<lambda>c. \<lparr> ic_column = c, ic_length = None \<rparr>) cols,
       i_primary = False, i_unique = False, i_where = [], i_clustered = False,
       i_options = opts \<rparr>"

definition exOption :: "string \<Rightarrow> Val option \<Rightarrow> IndexOption" where
  "exOption n v = \<lparr> io_optionName = n, io_value = v \<rparr>"

definition exTable :: "string \<Rightarrow> Column list \<Rightarrow> Index list \<Rightarrow> Table" where
  "exTable n cols idxs =
     \<lparr> t_name = n, t_columns = cols, t_indexes = idxs, t_foreignKeys = [], t_policies = [] \<rparr>"

definition exPolicy :: "string \<Rightarrow> string list \<Rightarrow> Policy" where
  "exPolicy u rs =
     \<lparr> p_name = ''p'', p_referenceName = ''t'', p_permissive = ''PERMISSIVE'',
       p_scope = ''ALL'', p_roles = rs, p_using = u, p_withCheck = [] \<rparr>"

definition exGenerator :: "GeneratorMode \<Rightarrow> Table list \<Rightarrow> Generator" where
  "exGenerator mode current =
     \<lparr> g_mode = mode, g_desiredTables = [], g_currentTables = current, g_desiredViews = [],
       g_currentViews = [] \<rparr>"

text \<open>
  A table \<open>users\<close> whose column \<open>name\<close> has the default constraint \<open>df_name\<close>, and the
  same table without that column.
\<close>

definition exNameColumn :: Column where
  "exNameColumn =
     exColumn ''name'' ''varchar''
       \<lparr> c_defaultDef := Some \<lparr> dd_value = Some (exVal ValueTypeValArg ''null''),
                                 dd_constraintName = ''df_name'' \<rparr> \<rparr>"

definition exUsersCurrent :: Table where
  "exUsersCurrent = exTable ''users'' [exColumn ''id'' ''bigint'', exNameColumn] []"

definition exUsersDesired :: Table where
  "exUsersDesired = exTable ''users'' [exColumn ''id'' ''bigint''] []"

definition exUsersDDL :: DDL where
  "exUsersDDL = CreateTable ''CREATE TABLE users (id bigint)'' exUsersDesired"

text \<open>The state after the desired statement \<open>exUsersDDL\<close> has been examined.\<close>

definition exUsersAfter :: "GeneratorMode \<Rightarrow> Generator" where
  "exUsersAfter mode =
     \<lparr> g_mode = mode, g_desiredTables = [exUsersDesired],
       g_currentTables =
         [exTable ''users'' [exColumn ''id'' ''bigint'', exNameColumn, exColumn ''id'' ''bigint''] []],
       g_desiredViews = [], g_currentViews = [] \<rparr>"

text \<open>A table \<open>t\<close> with an index \<open>i\<close>, and the same table without the index.\<close>

definition exIndexedCurrent :: Table where
  "exIndexedCurrent = exTable ''t'' [exColumn ''a'' ''int''] [exIndex ''i'' [''a''] []]"

definition exPlainDesired :: Table where
  "exPlainDesired = exTable ''t'' [exColumn ''a'' ''int''] []"

definition exPlainDDL :: DDL where
  "exPlainDDL = CreateTable ''CREATE TABLE t (a int)'' exPlainDesired"

definition exPlainAfter :: "GeneratorMode \<Rightarrow> Generator" where
  "exPlainAfter mode =
     \<lparr> g_mode = mode, g_desiredTables = [exPlainDesired],
       g_currentTables =
         [exTable ''t'' [exColumn ''a'' ''int'', exColumn ''a'' ''int''] [exIndex ''i'' [''a''] []]],
       g_desiredViews = [], g_currentViews = [] \<rparr>"

definition exCreateIndexDDL :: DDL where
  "exCreateIndexDDL = CreateIndex ''CREATE INDEX i ON t (a)'' ''t'' (exIndex ''i'' [''a''] [])"

text \<open>A table \<open>posts\<close> with a foreign key that has no constraint name.\<close>

definition exUnnamedForeignKey :: ForeignKey where
  "exUnnamedForeignKey =
     \<lparr> fk_constraintName = [], fk_indexName = [], fk_indexColumns = [''user_id''],
       fk_referenceName = ''users'', fk_referenceColumns = [''id''], fk_onDelete = [],
       fk_onUpdate = [] \<rparr>"

definition exPostsCurrent :: Table where
  "exPostsCurrent = exTable ''posts'' [exColumn ''user_id'' ''bigint''] []"

definition exPostsDesired :: Table where
  "exPostsDesired = exPostsCurrent \<lparr> t_foreignKeys := [exUnnamedForeignKey] \<rparr>"

text \<open>A primary key column that is an identity column and explicitly not null.\<close>

definition exIdentityColumn :: Column where
  "exIdentityColumn =
     exColumn ''id'' ''bigint''
       \<lparr> c_notNull := Some True, c_keyOption := ColumnKeyPrimary, c_identity := ''ALWAYS'' \<rparr>"

text \<open>A table whose only column is a primary key without an explicit \<open>NOT NULL\<close>.\<close>

definition exPrimaryDDL :: DDL where
  "exPrimaryDDL =
     CreateTable ''CREATE TABLE t (id int PRIMARY KEY)''
       (exTable ''t'' [exColumn ''id'' ''int'' \<lparr> c_keyOption := ColumnKeyPrimary \<rparr>] [])"

text \<open>
  A table whose only column has a check definition, as the parser reads it with the
  check definition allocated at the address \<open>a\<close>.
\<close>

definition exCheckedDDL :: "nat \<Rightarrow> DDL" where
  "exCheckedDDL a =
     CreateTable ''CREATE TABLE t (age int CHECK (age > 0))''
       (exTable ''t''
          [exColumn ''age'' ''int''
             \<lparr> c_check := Some (a, \<lparr> cd_definition = ''age > 0'', cd_constraintName = [] \<rparr>) \<rparr>]
          [])"

section \<open>Schemas that are diffed against themselves\<close>

text \<open>
  The conditions under which a schema diffed against itself gives no statement. A
  statement of the schema is admitted when it is not an \<^verbatim>\<open>ADD PRIMARY KEY\<close> (which the
  generator does not accept among the desired statements) and not a \<^verbatim>\<open>CREATE INDEX\<close>
  of a primary index.
\<close>

fun admittedStatement :: "DDL \<Rightarrow> bool" where
  "admittedStatement (AddPrimaryKey statement tableName index) = False"
| "admittedStatement (CreateIndex statement tableName index) = (\<not> i_primary index)"
| "admittedStatement _ = True"

text \<open>
  A folded table is well formed when the names of its columns, indexes, foreign key
  constraints and policies are unique, no foreign key lacks its constraint name, the
  option names of each index are unique, and, in MySQL mode, every primary key column is
  explicitly not null and no column has a check definition.
\<close>

definition wellFormedTable :: "GeneratorMode \<Rightarrow> Table \<Rightarrow> bool" where
  "wellFormedTable mode t \<longleftrightarrow>
     distinct (map c_name (t_columns t))
     \<and> distinct (map i_name (t_indexes t))
     \<and> distinct (map fk_constraintName (t_foreignKeys t))
     \<and> list_all (\<lambda>f. fk_constraintName f \<noteq> []) (t_foreignKeys t)
     \<and> distinct (map p_name (t_policies t))
     \<and> list_all (\<lambda>i. distinct (map io_optionName (i_options i))) (t_indexes t)
     \<and> (if mode = GeneratorModeMysql
        then list_all (\<lambda>c. (if c_keyOption c = ColumnKeyPrimary then c_notNull c = Some True
                             else True)
                            \<and> c_check c = None) (t_columns t)
        else True)"

definition wellFormedSchema :: "GeneratorMode \<Rightarrow> DDL list \<Rightarrow> bool" where
  "wellFormedSchema mode ddls \<longleftrightarrow>
     list_all admittedStatement ddls
     \<and> distinct (map vw_name (convertDDLsToViews ddls))
     \<and> (case convertDDLsToTables ddls of
          Inl e \<Rightarrow> False
        | Inr tables \<Rightarrow>
            distinct (map t_name tables) \<and> list_all (wellFormedTable mode) tables)"

text \<open>
  Two relations between tables of the same name, used to follow the simulated state.
  A folded table grows from an earlier stage of itself by statements that append
  non-primary indexes, foreign keys and policies. A current table that has been merged
  with its desired table holds the folded table's columns and indexes, followed by
  columns and indexes of names it has already.
\<close>

definition tableGrows :: "Table \<Rightarrow> Table \<Rightarrow> bool" where
  "tableGrows d t \<longleftrightarrow>
     t_name t = t_name d \<and> t_columns t = t_columns d
     \<and> prefix (t_indexes d) (t_indexes t)
     \<and> list_all (\<lambda>i. \<not> i_primary i) (drop (length (t_indexes d)) (t_indexes t))
     \<and> prefix (t_foreignKeys d) (t_foreignKeys t)
     \<and> prefix (t_policies d) (t_policies t)"

definition tableMerged :: "Table \<Rightarrow> Table \<Rightarrow> bool" where
  "tableMerged c t \<longleftrightarrow>
     t_name c = t_name t
     \<and> prefix (t_columns t) (t_columns c)
     \<and> c_name ` set (t_columns c) \<subseteq> c_name ` set (t_columns t)
     \<and> prefix (t_indexes t) (t_indexes c) \<and> set (t_indexes c) \<subseteq> set (t_indexes t)
     \<and> t_foreignKeys c = t_foreignKeys t \<and> t_policies c = t_policies t"

text \<open>
  The simulated state after the statements \<open>seen\<close> of a schema whose fold is \<open>tables\<close>,
  when the desired statements have the content of the schema: the desired tables have the
  content of the fold of \<open>seen\<close>, and each current table is the folded table of its name,
  merged once its \<^verbatim>\<open>CREATE TABLE\<close> has been examined.
\<close>

definition selfDiffState ::
  "GeneratorMode \<Rightarrow> DDL list \<Rightarrow> Table list \<Rightarrow> DDL list \<Rightarrow> Generator \<Rightarrow> bool" where
  "selfDiffState mode ddls tables seen g \<longleftrightarrow>
     g_mode g = mode
     \<and> (case convertDDLsToTablesFrom [] seen of
          Inl fl \<Rightarrow> False
        | Inr folded \<Rightarrow> map tableContent (g_desiredTables g) = map tableContent folded)
     \<and> g_desiredViews g = convertDDLsToViews seen
     \<and> g_currentViews g = convertDDLsToViews ddls
     \<and> map t_name (g_currentTables g) = map t_name tables
     \<and> (\<forall>c \<in> set (g_currentTables g).
           \<exists>t. findTableByName tables (t_name c) = Some t
              \<and> (if t_name c \<in> t_name ` set (g_desiredTables g) then tableMerged c t
                  else c = t))"

text \<open>
  A schema for the self-diff: a table with a primary key, an index on it and a view. With
  \<open>Some a\<close> the column \<open>name\<close> has a check definition, allocated at the address \<open>a\<close>.
\<close>

definition exSchema :: "nat option \<Rightarrow> DDL list" where
  "exSchema a =
     [CreateTable ''CREATE TABLE users (id bigint NOT NULL PRIMARY KEY, name varchar)''
        (exTable ''users''
           [exColumn ''id'' ''bigint'' \<lparr> c_notNull := Some True, c_keyOption := ColumnKeyPrimary \<rparr>,
            exColumn ''name'' ''varchar''
              \<lparr> c_position := 1,
                c_check := map_option
                             (\<lambda>a. (a, \<lparr> cd_definition = ''length(name) > 0'',
                                         cd_constraintName = [] \<rparr>)) a \<rparr>] []),
      CreateIndex ''CREATE INDEX by_name ON users (name)'' ''users''
        (exIndex ''by_name'' [''name''] []),
      CreateView \<lparr> vw_statement = ''CREATE VIEW v AS select id from users'', vw_name = ''v'',
                   vw_definition = ''select id from users'' \<rparr>]"

section \<open>Evaluation\<close>

text \<open>The defining equations with which ground instances of the generator are computed.\<close>

lemmas eval_defs =
  exVal_def exColumn_def exIndex_def exOption_def exTable_def exPolicy_def exGenerator_def
  exNameColumn_def exUsersCurrent_def exUsersDesired_def exUsersDDL_def exUsersAfter_def
  exIndexedCurrent_def exPlainDesired_def exPlainDDL_def exPlainAfter_def exCreateIndexDDL_def
  exUnnamedForeignKey_def exPostsCurrent_def exPostsDesired_def exIdentityColumn_def
  exPrimaryDDL_def exCheckedDDL_def
  generateDDLs_def generateDDLsForCreateTable_def examineColumns_def examineColumn_def
  removeOldAutoIncrement_def examinePrimaryKey_def examineIndexes_def addNewAutoIncrement_def
  examineForeignKeys_def examineForeignKey_def changeColumnMysql_def changeColumnPostgres_def
  changeColumnMssql_def PrimaryKey_def areSamePrimaryKeys_def areSameIndexes_def
  mergeTable_def convertColumnsToColumnNames_def convertIndexesToIndexNames_def
  convertForeignKeysToConstraintNames_def convertPolicyNames_def convertViewNames_def
  cleanUpTable_def dropObsoleteForeignKeys_def dropObsoleteIndexes_def dropObsoleteColumns_def
  dropObsoletePolicies_def cleanUpViews_def generateDDLsForAbsentIndex_def
  generateDDLsForAbsentColumn_def generateDDLsForAbsentForeignKey_def generateDropIndex_def
  escapeTableName_def escapeSQLName_def dropConstraintDDL_def dropColumnDDL_def
  removeTableByName_def haveSameColumnDefinition_def haveSameDataType_def normalizeDataType_def
  dataTypeAliases_def mysqlDataTypeAliases_def areSameDefaultValue_def isNullValue_def
  areSameCheckDefinition_def generateColumnDefinition_def columnClauses_def
  nullabilityClause_def defaultClause_def keyOptionClause_def identityClause_def
  generateDataType_def generateDefaultDefinition_def trimSuffixSpace_def positionClause_def
  generateDDLsForCreateIndex_def generateDDLsForAddForeignKey_def generateDDLsForCreatePolicy_def
  generateDDLsForCreateView_def replaceIndex_def generateAddIndex_def
  generateIndexOptionDefinition_def indexColumnText_def generateForeignKeyDefinition_def
  areSameForeignKeys_def normalizeOnUpdate_def normalizeOnDelete_def notNull_def isPrimaryKey_def
  firstIndexColumn_def checkConstraintName_def GenerateIdempotentDDLs_def convertDDLsToTables_def
  Let_def enumerate_eq_zip

section \<open>The table merge\<close>

text \<open>
  Claim C2 says that \<^verbatim>\<open>mergeTable(into, from)\<close> appends to \<open>into\<close> exactly the columns
  and indexes of \<open>from\<close> whose name \<open>into\<close> does not have yet. The function tests the
  opposite condition. Merging a table with the columns \<open>a\<close> and \<open>b\<close> into a table with
  the single column \<open>a\<close> leaves \<open>b\<close> out and appends \<open>a\<close> a second time.
\<close>

theorem mergeTable_appends_present_column:
  "t_columns (mergeTable (exTable ''t'' [exColumn ''a'' ''int''] [])
                (exTable ''t'' [exColumn ''a'' ''int'', exColumn ''b'' ''int''] []))
     = [exColumn ''a'' ''int'', exColumn ''a'' ''int'']"
  by (simp add: mergeTable_def exTable_def exColumn_def convertColumnsToColumnNames_def)

section \<open>Equality of values\<close>

text \<open>
  Claim C3, as stated: whenever one of two values is a float, \<^verbatim>\<open>areSameValue\<close> cuts the
  longer raw text to the length of the shorter one, whichever side carries it, and so is
  symmetric on floats. This fails: the current raw \<open>0.00\<close> equals the desired raw
  \<open>0.0\<close>, but the current raw \<open>0.0\<close> does not equal the desired raw \<open>0.00\<close>.
\<close>

theorem areSameValue_float_not_symmetric:
  "areSameValue (Some (exVal ValueTypeFloat ''0.00'')) (Some (exVal ValueTypeFloat ''0.0''))
   \<and> \<not> areSameValue (Some (exVal ValueTypeFloat ''0.0'')) (Some (exVal ValueTypeFloat ''0.00''))"
  by (simp add: exVal_def)

text \<open>
  Claim C3, amended: only the current raw is ever cut, and only when the desired value is
  a float. With a float desired value, two values are the same exactly when the desired
  raw is a prefix of the current raw; with any other desired value, exactly when the raw
  texts are equal.
\<close>

theorem areSameValue_float_prefix:
  "areSameValue (Some current) (Some desired) =
     (if v_valueType desired = ValueTypeFloat then prefix (v_raw desired) (v_raw current)
      else v_raw current = v_raw desired)"
proof (cases "v_valueType desired = ValueTypeFloat")
  case False
  then show ?thesis by (simp add: Let_def)
next
  case float: True
  show ?thesis
  proof (cases "length (v_raw current) > length (v_raw desired)")
    case True
    with float show ?thesis
      by (auto simp: Let_def prefix_def take_is_prefix) (metis append_eq_conv_conj)
  next
    case False
    have "prefix (v_raw desired) (v_raw current) \<longleftrightarrow> v_raw current = v_raw desired"
    proof
      assume p: "prefix (v_raw desired) (v_raw current)"
      then have "length (v_raw desired) \<le> length (v_raw current)" by (rule prefix_length_le)
      with False have "length (v_raw desired) = length (v_raw current)" by simp
      with p show "v_raw current = v_raw desired" by (auto simp: prefix_def)
    qed simp
    with float False show ?thesis by (simp add: Let_def)
  qed
qed

theorem areSameValue_float_prefix_witness:
  "areSameValue (Some (exVal ValueTypeFloat ''1.500'')) (Some (exVal ValueTypeFloat ''1.5''))
   \<and> \<not> areSameValue (Some (exVal ValueTypeInt ''10'')) (Some (exVal ValueTypeInt ''1''))"
  using areSameValue_float_prefix [of "exVal ValueTypeFloat ''1.500''" "exVal ValueTypeFloat ''1.5''"]
        areSameValue_float_prefix [of "exVal ValueTypeInt ''10''" "exVal ValueTypeInt ''1''"]
  by (simp add: exVal_def)

section \<open>Equality of policies\<close>

lemma sameRoles_list_all2:
  "length xs = length ys \<Longrightarrow>
     sameRoles xs ys = list_all2 (\<lambda>x y. toLower x = toLower y) xs ys"
  by (induction xs ys rule: sameRoles.induct) auto

text \<open>
  Claim C4, as stated: \<^verbatim>\<open>areSamePolicies\<close> returns false whenever the case-folded
  \<open>using\<close> texts differ. This fails: a desired \<open>using\<close> that is the current one wrapped
  in parentheses is accepted.
\<close>

theorem areSamePolicies_parenthesized_using:
  "areSamePolicies (exPolicy ''x'' []) (exPolicy ''(x)'' [])
   \<and> toLower (p_using (exPolicy ''x'' [])) \<noteq> toLower (p_using (exPolicy ''(x)'' []))"
  by (simp add: areSamePolicies_def exPolicy_def toLower_def)

text \<open>
  Claim C4, amended. When \<open>using\<close> and \<open>with_check\<close> agree under case folding, two
  policies are the same exactly when scope and permissive agree under case folding and the
  role lists, each sorted by bytes, have the same length and agree element by element
  under case folding. Two policies that are the same always agree on scope and permissive
  under case folding, and a \<open>using\<close> (or, with agreeing \<open>using\<close>, a \<open>with_check\<close>)
  that differs under case folding is the other one wrapped in parentheses.
\<close>

theorem areSamePolicies_amended:
  "(toLower (p_using a) = toLower (p_using b)
      \<and> toLower (p_withCheck a) = toLower (p_withCheck b)
    \<longrightarrow> areSamePolicies a b =
          (toLower (p_scope a) = toLower (p_scope b)
           \<and> toLower (p_permissive a) = toLower (p_permissive b)
           \<and> list_all2 (\<lambda>x y. toLower x = toLower y) (sort (p_roles a)) (sort (p_roles b))))
   \<and> (areSamePolicies a b \<longrightarrow>
         toLower (p_scope a) = toLower (p_scope b)
         \<and> toLower (p_permissive a) = toLower (p_permissive b)
         \<and> (toLower (p_using a) = toLower (p_using b)
              \<or> p_using b = ''('' @ p_using a @ '')'')
         \<and> (toLower (p_withCheck a) = toLower (p_withCheck b)
              \<or> p_using b = ''('' @ p_using a @ '')''
              \<or> p_withCheck b = ''('' @ p_withCheck a @ '')''))"
  unfolding areSamePolicies_def
  using sameRoles_list_all2 [of "sort (p_roles a)" "sort (p_roles b)"]
        list_all2_lengthD [of _ "sort (p_roles a)" "sort (p_roles b)"]
  by (auto split: if_splits)

theorem areSamePolicies_amended_witness:
  "toLower (p_using (exPolicy ''id > 0'' [''b'', ''a'']))
     = toLower (p_using (exPolicy ''ID > 0'' [''A'', ''B'']))
   \<and> areSamePolicies (exPolicy ''id > 0'' [''b'', ''a'']) (exPolicy ''ID > 0'' [''A'', ''B''])
   \<and> \<not> areSamePolicies (exPolicy ''id > 0'' [''b'', ''A'']) (exPolicy ''ID > 0'' [''a'', ''B''])"
  using areSamePolicies_amended [of "exPolicy ''id > 0'' [''b'', ''a'']"
                                    "exPolicy ''ID > 0'' [''A'', ''B'']"]
        areSamePolicies_amended [of "exPolicy ''id > 0'' [''b'', ''A'']"
                                    "exPolicy ''ID > 0'' [''a'', ''B'']"]
  by (simp add: exPolicy_def toLower_def toLowerChar_def less_eq_char_def less_char_def)

section \<open>Equality of indexes\<close>

lemma sameIndexColumns_map:
  "length as = length bs \<Longrightarrow> sameIndexColumns as bs = (map ic_column as = map ic_column bs)"
  by (induction as bs rule: sameIndexColumns.induct) auto

lemma sameIndexOptions_iff:
  "sameIndexOptions optionsA optionsB =
     (\<forall>ob \<in> set optionsB. \<exists>oa. findIndexOptionByName optionsA (io_optionName ob) = Some oa
                                  \<and> areSameValue (io_value oa) (io_value ob))"
  by (induction optionsB) (auto split: option.splits)

text \<open>
  Claim C8, as stated: \<^verbatim>\<open>areSameIndexes\<close> is symmetric, and false whenever either index
  has an option without a match on the other side. This fails: an option that only the
  first index carries is not looked at.
\<close>

theorem areSameIndexes_not_symmetric:
  "areSameIndexes (exIndex ''i'' [''c''] [exOption ''fillfactor'' None]) (exIndex ''i'' [''c''] [])
   \<and> \<not> areSameIndexes (exIndex ''i'' [''c''] []) (exIndex ''i'' [''c''] [exOption ''fillfactor'' None])"
  by (simp add: areSameIndexes_def exIndex_def exOption_def)

text \<open>
  Claim C8, amended: \<^verbatim>\<open>areSameIndexes(a, b)\<close> holds exactly when the unique and primary
  flags are equal, the column names are the same sequence, the \<open>where\<close> texts are equal,
  and every option of \<open>b\<close> has an option of the same name in \<open>a\<close> (the first of that
  name) with the same value. Options that only \<open>a\<close> carries are ignored.
\<close>

theorem areSameIndexes_one_sided:
  "areSameIndexes a b \<longleftrightarrow>
     i_unique a = i_unique b \<and> i_primary a = i_primary b
     \<and> map ic_column (i_columns a) = map ic_column (i_columns b)
     \<and> i_where a = i_where b
     \<and> (\<forall>ob \<in> set (i_options b).
           \<exists>oa. findIndexOptionByName (i_options a) (io_optionName ob) = Some oa
                \<and> areSameValue (io_value oa) (io_value ob))"
  unfolding areSameIndexes_def sameIndexOptions_iff
  using sameIndexColumns_map [of "i_columns a" "i_columns b"]
        map_eq_imp_length_eq [of ic_column "i_columns a" ic_column "i_columns b"]
  by auto

theorem areSameIndexes_one_sided_witness:
  "areSameIndexes
     (exIndex ''i'' [''c''] [exOption ''pad_index'' (Some (exVal ValueTypeBool ''true'')),
                              exOption ''fillfactor'' (Some (exVal ValueTypeInt ''10''))])
     (exIndex ''i'' [''c''] [exOption ''fillfactor'' (Some (exVal ValueTypeInt ''10''))])"
  using areSameIndexes_one_sided
          [of "exIndex ''i'' [''c''] [exOption ''pad_index'' (Some (exVal ValueTypeBool ''true'')),
                                       exOption ''fillfactor'' (Some (exVal ValueTypeInt ''10''))]"
              "exIndex ''i'' [''c''] [exOption ''fillfactor'' (Some (exVal ValueTypeInt ''10''))]"]
  by (simp add: exIndex_def exOption_def exVal_def)

section \<open>Sequencing lemmas\<close>

lemma returnDDLs_Inr_iff [simp]: "returnDDLs x = Inr y \<longleftrightarrow> x = Inr y"
  by (cases x rule: returnDDLs.cases) auto

lemma isl_returnDDLs [simp]: "isl (returnDDLs x) = isl x"
  by (cases x rule: returnDDLs.cases) auto

lemma returnNil_Inr_iff [simp]: "returnNil x = Inr y \<longleftrightarrow> x = Inr y"
  by (cases x rule: returnNil.cases) auto

lemma returnDDLs_Inl: "\<exists>fl'. returnDDLs (Inl fl) = Inl fl'"
  by (cases fl) auto

lemma afterDDLs_append: "afterDDLs xs (afterDDLs ys fl) = afterDDLs (xs @ ys) fl"
  by (cases "(ys, fl)" rule: afterDDLs.cases) auto

lemma afterDDLs_Nil [simp]: "afterDDLs [] fl = fl"
  by (cases "([] :: 'a list, fl)" rule: afterDDLs.cases) auto

lemma seqE_Inr_D:
  "seqE ps = Inr out \<Longrightarrow> (\<forall>p \<in> set ps. \<exists>ds. p = Inr ds) \<and> out = concat (map projr ps)"
  by (induction ps arbitrary: out) (auto split: sum.splits)

lemma seqE_Inl_mem: "Inl fl \<in> set ps \<Longrightarrow> isl (seqE ps)"
  by (induction ps) (auto split: sum.splits)

lemma forEachE_Inr_D:
  "forEachE f xs = Inr out \<Longrightarrow>
     (\<forall>x \<in> set xs. \<exists>ds. f x = Inr ds) \<and> out = concat (map (\<lambda>x. projr (f x)) xs)"
  by (induction xs arbitrary: out) (auto split: sum.splits)

text \<open>
  A loop with a failing round fails, and its failure has every property that the failures
  of its rounds have and that the statements gathered before do not change.
\<close>

lemma forEachE_first_failure:
  "x \<in> set xs \<Longrightarrow> f x = Inl fl0 \<Longrightarrow> (\<forall>y \<in> set xs. \<forall>fl. f y = Inl fl \<longrightarrow> P fl) \<Longrightarrow>
   (\<forall>ds fl. P fl \<longrightarrow> P (afterDDLs ds fl)) \<Longrightarrow>
     \<exists>fl. forEachE f xs = Inl fl \<and> P fl"
  by (induction xs) (auto split: sum.splits)

lemma sublist_concat_map: "x \<in> set xs \<Longrightarrow> sublist (f x) (concat (map f xs))"
proof (induction xs)
  case Nil
  then show ?case by simp
next
  case (Cons y ys)
  show ?case
  proof (cases "x = y")
    case True
    then show ?thesis by simp
  next
    case False
    with Cons have "sublist (f x) (concat (map f ys))" by simp
    then obtain ps ss where "concat (map f ys) = ps @ f x @ ss"
      by (auto simp: sublist_def)
    then have "concat (map f (y # ys)) = (f y @ ps) @ f x @ ss" by simp
    then show ?thesis unfolding sublist_def by blast
  qed
qed

lemma sublist_trans: "sublist xs ys \<Longrightarrow> sublist ys zs \<Longrightarrow> sublist xs zs"
  by (rule sublist_order.order_trans)

section \<open>Tables by name\<close>

lemma findTableByName_Some_D: "findTableByName ts n = Some t \<Longrightarrow> t_name t = n \<and> t \<in> set ts"
  by (induction ts) (auto split: if_splits)

lemma findTableByName_None_iff: "findTableByName ts n = None \<longleftrightarrow> n \<notin> t_name ` set ts"
  by (induction ts) auto

lemma findTableByName_append:
  "findTableByName (ts @ us) n =
     (case findTableByName ts n of Some t \<Rightarrow> Some t | None \<Rightarrow> findTableByName us n)"
  by (induction ts) auto

lemma findTableByName_update:
  "t_name t' = n \<Longrightarrow> findTableByName ts n = Some t \<Longrightarrow>
     findTableByName (updateTableByName ts n t') m
       = (if m = n then Some t' else findTableByName ts m)"
  by (induction ts) auto

lemma map_name_updateTableByName:
  "t_name t' = n \<Longrightarrow> map t_name (updateTableByName ts n t') = map t_name ts"
  by (induction ts) auto

lemma containsString_iff: "containsString strs s \<longleftrightarrow> s \<in> set strs"
  by (induction strs) auto

section \<open>The walk over the desired statements\<close>

lemma generateDDL_mode: "generateDDL g d = Inr (out, g1) \<Longrightarrow> g_mode g1 = g_mode g"
  by (cases d)
     (auto simp: generateDDLsForCreateIndex_def generateDDLsForAddForeignKey_def
                 generateDDLsForCreatePolicy_def generateDDLsForCreateView_def Let_def
           split: option.splits sum.splits if_splits prod.splits)

lemma examineDesiredDDLs_mode:
  "examineDesiredDDLs g ds = Inr (out, g1) \<Longrightarrow> g_mode g1 = g_mode g"
proof (induction ds arbitrary: g out)
  case Nil
  then show ?case by simp
next
  case (Cons d ds)
  then show ?case
    by (auto split: sum.splits prod.splits dest!: generateDDL_mode)
qed

lemma examineDesiredDDLs_append:
  "examineDesiredDDLs g (xs @ ys) =
     (case examineDesiredDDLs g xs of
        Inl fl \<Rightarrow> Inl fl
      | Inr (o1, g1) \<Rightarrow>
          (case examineDesiredDDLs g1 ys of
             Inl fl \<Rightarrow> Inl (afterDDLs o1 fl)
           | Inr (o2, g2) \<Rightarrow> Inr (o1 @ o2, g2)))"
  by (induction xs arbitrary: g) (auto split: sum.splits prod.splits simp: afterDDLs_append)

lemma generateDDLsForCreateIndex_currentNames:
  "generateDDLsForCreateIndex g tn idx action s = Inr (out, g1) \<Longrightarrow>
     map t_name (g_currentTables g1) = map t_name (g_currentTables g)"
  unfolding generateDDLsForCreateIndex_def Let_def
  by (auto split: option.splits if_splits prod.splits
           dest!: findTableByName_Some_D simp: map_name_updateTableByName)

lemma generateDDLsForCreatePolicy_currentNames:
  "generateDDLsForCreatePolicy g tn p action s = Inr (out, g1) \<Longrightarrow>
     map t_name (g_currentTables g1) = map t_name (g_currentTables g)"
  unfolding generateDDLsForCreatePolicy_def Let_def
  by (auto split: option.splits if_splits prod.splits
           dest!: findTableByName_Some_D simp: map_name_updateTableByName)

text \<open>No round of the walk removes a current table.\<close>

lemma generateDDL_currentNames:
  assumes "generateDDL g d = Inr (out, g1)"
  shows "t_name ` set (g_currentTables g) \<subseteq> t_name ` set (g_currentTables g1)"
proof (cases d)
  case (CreateTable s t)
  show ?thesis
  proof (cases "findTableByName (g_currentTables g) (t_name t)")
    case None
    with assms CreateTable show ?thesis by auto
  next
    case (Some cur)
    with assms CreateTable have "g_currentTables g1 =
        updateTableByName (g_currentTables g) (t_name t) (mergeTable cur t)"
      by (auto split: sum.splits)
    moreover have "t_name (mergeTable cur t) = t_name t"
      using findTableByName_Some_D[OF Some] by (simp add: mergeTable_def)
    ultimately have "map t_name (g_currentTables g1) = map t_name (g_currentTables g)"
      by (simp add: map_name_updateTableByName)
    then show ?thesis by (metis set_map subset_refl)
  qed
next
  case (CreateIndex s tn i)
  with assms have "map t_name (g_currentTables g1) = map t_name (g_currentTables g)"
    by (auto dest: generateDDLsForCreateIndex_currentNames)
  then show ?thesis by (metis set_map subset_refl)
next
  case (AddIndex s tn i)
  with assms have "map t_name (g_currentTables g1) = map t_name (g_currentTables g)"
    by (auto dest: generateDDLsForCreateIndex_currentNames)
  then show ?thesis by (metis set_map subset_refl)
next
  case (AddPolicy s tn p)
  with assms have "map t_name (g_currentTables g1) = map t_name (g_currentTables g)"
    by (auto dest: generateDDLsForCreatePolicy_currentNames)
  then show ?thesis by (metis set_map subset_refl)
next
  case (AddForeignKey s tn f)
  with assms show ?thesis
    by (auto simp: generateDDLsForAddForeignKey_def split: option.splits if_splits)
next
  case (CreateView v)
  with assms show ?thesis
    by (auto simp: generateDDLsForCreateView_def Let_def split: option.splits if_splits)
next
  case (AddPrimaryKey s tn i)
  with assms show ?thesis by simp
qed

section \<open>The clean-up walk\<close>

lemma cleanUpTables_sublist:
  "cleanUpTables mode dts cts snap = Inr out \<Longrightarrow> cur \<in> set snap \<Longrightarrow>
   findTableByName dts (t_name cur) = Some des \<Longrightarrow>
     \<exists>tds. cleanUpTable mode cur des = Inr tds \<and> sublist tds out"
proof (induction snap arbitrary: cts out)
  case Nil
  then show ?case by simp
next
  case (Cons t ts)
  show ?case
  proof (cases "cur = t")
    case True
    with Cons.prems show ?thesis by (auto split: sum.splits option.splits)
  next
    case False
    with Cons.prems have mem: "cur \<in> set ts" by simp
    show ?thesis
    proof (cases "findTableByName dts (t_name t)")
      case None
      with Cons.prems obtain cts' rest where
        rest: "cleanUpTables mode dts cts' ts = Inr rest"
        and out: "out = (''DROP TABLE '' @ escapeTableName mode (t_name t)) # rest"
        by (auto split: sum.splits)
      from Cons.IH[OF rest mem Cons.prems(3)] obtain tds where
        "cleanUpTable mode cur des = Inr tds" "sublist tds rest" by blast
      then show ?thesis unfolding out by (auto simp: sublist_Cons_right)
    next
      case (Some d)
      with Cons.prems obtain tds0 rest where
        rest: "cleanUpTables mode dts cts ts = Inr rest" and out: "out = tds0 @ rest"
        by (auto split: sum.splits)
      from Cons.IH[OF rest mem Cons.prems(3)] obtain tds where
        t: "cleanUpTable mode cur des = Inr tds" "sublist tds rest" by blast
      from t(2) have "sublist tds (tds0 @ rest)"
        by (auto simp: sublist_def) (metis append.assoc)
      with t(1) show ?thesis unfolding out by blast
    qed
  qed
qed

text \<open>
  The statements of the clean-up of a current table that the desired schema still has
  are a contiguous part of the generated list.
\<close>

lemma generateDDLs_cleanUp_sublist:
  assumes "examineDesiredDDLs g desiredDDLs = Inr (ddls, g1)"
    and "generateDDLs g desiredDDLs = Inr out"
    and "cur \<in> set (g_currentTables g1)"
    and "findTableByName (g_desiredTables g1) (t_name cur) = Some des"
  shows "\<exists>tds. cleanUpTable (g_mode g) cur des = Inr tds \<and> sublist tds out"
proof -
  from assms(1,2) obtain tableDDLs where
    c: "cleanUpTables (g_mode g1) (g_desiredTables g1) (g_currentTables g1) (g_currentTables g1)
          = Inr tableDDLs"
    and out: "out = ddls @ tableDDLs
                @ cleanUpViews (g_mode g1) (g_desiredViews g1) (g_currentViews g1)"
    by (auto simp: generateDDLs_def split: sum.splits)
  from cleanUpTables_sublist[OF c assms(3,4)] obtain tds where
    t: "cleanUpTable (g_mode g1) cur des = Inr tds" "sublist tds tableDDLs" by blast
  have "sublist tableDDLs out" unfolding out by simp
  with t(2) have "sublist tds out" by (rule sublist_trans)
  with t(1) examineDesiredDDLs_mode[OF assms(1)] show ?thesis by auto
qed

lemma cleanUpTable_parts:
  "cleanUpTable mode cur des = Inr tds \<Longrightarrow>
     \<exists>ids. dropObsoleteIndexes mode cur des = Inr ids \<and>
       tds = dropObsoleteForeignKeys mode cur des @ ids @ dropObsoleteColumns mode cur des
             @ dropObsoletePolicies mode cur des"
  by (auto simp: cleanUpTable_def split: sum.splits)

section \<open>Dropping a column with a default constraint\<close>

lemma dropDefaultConstraints_replicate:
  assumes "\<forall>c \<in> set cols. c_name c = n \<longrightarrow>
             (\<exists>d. c_defaultDef c = Some d \<and> dd_constraintName d = k)"
    and "k \<noteq> []"
  shows "dropDefaultConstraints mode tn n cols =
           replicate (length (filter (\<lambda>c. c_name c = n) cols)) (dropConstraintDDL mode tn k)"
  using assms by (induction cols) (auto split: option.splits)

lemma generateDDLsForAbsentColumn_mssql:
  assumes "column \<in> set (t_columns tbl)"
    and "\<forall>c \<in> set (t_columns tbl). c_name c = c_name column \<longrightarrow>
            (\<exists>d. c_defaultDef c = Some d \<and> dd_constraintName d = k)"
    and "k \<noteq> []"
  shows "\<exists>pre. generateDDLsForAbsentColumn GeneratorModeMssql tbl (c_name column) =
           pre @ [dropConstraintDDL GeneratorModeMssql (t_name tbl) k,
                  dropColumnDDL GeneratorModeMssql (t_name tbl) (c_name column)]"
proof -
  let ?m = "length (filter (\<lambda>c. c_name c = c_name column) (t_columns tbl))"
  from assms(1) have "filter (\<lambda>c. c_name c = c_name column) (t_columns tbl) \<noteq> []"
    by (auto simp: filter_empty_conv)
  then obtain m where m: "?m = Suc m" by (cases ?m) auto
  have "dropDefaultConstraints GeneratorModeMssql (t_name tbl) (c_name column) (t_columns tbl)
        = replicate m (dropConstraintDDL GeneratorModeMssql (t_name tbl) k)
          @ [dropConstraintDDL GeneratorModeMssql (t_name tbl) k]"
    unfolding dropDefaultConstraints_replicate[OF assms(2,3)] m
    by (simp add: replicate_append_same)
  then show ?thesis by (simp add: generateDDLsForAbsentColumn_def)
qed

text \<open>
  Claim C5, as stated: in every dialect, the \<^verbatim>\<open>DROP COLUMN\<close> of a column with a named
  default constraint is immediately preceded by the \<^verbatim>\<open>DROP CONSTRAINT\<close> of that
  constraint. This fails outside MSSQL: in MySQL mode the generated list for the table
  \<open>users\<close> that loses its column \<open>name\<close> is the \<^verbatim>\<open>DROP COLUMN\<close> alone.
\<close>

theorem mysql_drop_column_without_drop_constraint:
  "generateDDLs (exGenerator GeneratorModeMysql [exUsersCurrent]) [exUsersDDL]
     = Inr [''ALTER TABLE `users` DROP COLUMN `name`'']"
  by (simp add: eval_defs)

text \<open>
  Claim C5, amended. Whenever the clean-up walk drops a column of a current table (the
  column is absent from the desired table) and the columns of that name in the current
  table carry the default constraint name \<open>k\<close>, non-empty: under the MSSQL-like dialect
  the statements for that column end with \<^verbatim>\<open>DROP CONSTRAINT k\<close> followed by
  \<^verbatim>\<open>DROP COLUMN\<close>, and these two statements stand next to each other, in this order,
  in the generated list; under every other dialect the statements for that column are the
  \<^verbatim>\<open>DROP COLUMN\<close> alone, which is in the generated list.
\<close>

theorem mssql_drop_constraint_before_drop_column:
  assumes "examineDesiredDDLs g desiredDDLs = Inr (ddls, g1)"
    and "generateDDLs g desiredDDLs = Inr out"
    and "currentTable \<in> set (g_currentTables g1)"
    and "findTableByName (g_desiredTables g1) (t_name currentTable) = Some desiredTable"
    and "column \<in> set (t_columns currentTable)"
    and "\<not> containsString (convertColumnsToColumnNames (t_columns desiredTable)) (c_name column)"
    and "\<forall>c \<in> set (t_columns currentTable). c_name c = c_name column \<longrightarrow>
            (\<exists>d. c_defaultDef c = Some d \<and> dd_constraintName d = k)"
    and "k \<noteq> []"
  shows "(g_mode g = GeneratorModeMssql \<longrightarrow>
            (\<exists>pre. generateDDLsForAbsentColumn GeneratorModeMssql currentTable (c_name column) =
               pre @ [dropConstraintDDL GeneratorModeMssql (t_name currentTable) k,
                      dropColumnDDL GeneratorModeMssql (t_name currentTable) (c_name column)])
            \<and> sublist [dropConstraintDDL GeneratorModeMssql (t_name currentTable) k,
                        dropColumnDDL GeneratorModeMssql (t_name currentTable) (c_name column)]
                 out)
       \<and> (g_mode g \<noteq> GeneratorModeMssql \<longrightarrow>
            generateDDLsForAbsentColumn (g_mode g) currentTable (c_name column) =
              [dropColumnDDL (g_mode g) (t_name currentTable) (c_name column)]
            \<and> sublist [dropColumnDDL (g_mode g) (t_name currentTable) (c_name column)] out)"
proof -
  let ?mode = "g_mode g"
  let ?f = "\<lambda>column. if containsString (convertColumnsToColumnNames (t_columns desiredTable))
                         (c_name column)
                    then []
                    else generateDDLsForAbsentColumn ?mode currentTable (c_name column)"
  have "sublist (?f column) (dropObsoleteColumns ?mode currentTable desiredTable)"
    unfolding dropObsoleteColumns_def by (rule sublist_concat_map[OF assms(5)])
  then have cols: "sublist (generateDDLsForAbsentColumn ?mode currentTable (c_name column))
                     (dropObsoleteColumns ?mode currentTable desiredTable)"
    using assms(6) by simp
  from generateDDLs_cleanUp_sublist[OF assms(1,2,3,4)] obtain tds where
    t: "cleanUpTable ?mode currentTable desiredTable = Inr tds" "sublist tds out"
    by auto
  from cleanUpTable_parts[OF t(1)] obtain ids where
    "tds = (dropObsoleteForeignKeys ?mode currentTable desiredTable @ ids)
             @ dropObsoleteColumns ?mode currentTable desiredTable
             @ dropObsoletePolicies ?mode currentTable desiredTable"
    by auto
  then have "sublist (dropObsoleteColumns ?mode currentTable desiredTable) tds"
    by (simp only: sublist_appendI)
  with cols have "sublist (generateDDLsForAbsentColumn ?mode currentTable (c_name column)) tds"
    by (rule sublist_trans)
  then have all: "sublist (generateDDLsForAbsentColumn ?mode currentTable (c_name column)) out"
    using t(2) by (rule sublist_trans)
  have mssql: "(\<exists>pre. generateDDLsForAbsentColumn GeneratorModeMssql currentTable (c_name column) =
               pre @ [dropConstraintDDL GeneratorModeMssql (t_name currentTable) k,
                      dropColumnDDL GeneratorModeMssql (t_name currentTable) (c_name column)])
            \<and> sublist [dropConstraintDDL GeneratorModeMssql (t_name currentTable) k,
                        dropColumnDDL GeneratorModeMssql (t_name currentTable) (c_name column)]
                 out"
    if m: "g_mode g = GeneratorModeMssql"
  proof -
    let ?pair = "[dropConstraintDDL GeneratorModeMssql (t_name currentTable) k,
                  dropColumnDDL GeneratorModeMssql (t_name currentTable) (c_name column)]"
    from generateDDLsForAbsentColumn_mssql[OF assms(5,7,8)] obtain pre where
      pre: "generateDDLsForAbsentColumn GeneratorModeMssql currentTable (c_name column)
              = pre @ ?pair"
      by blast
    then have "sublist ?pair (generateDDLsForAbsentColumn ?mode currentTable (c_name column))"
      unfolding m by (simp del: append.simps)
    then have "sublist ?pair out" using all by (rule sublist_trans)
    with pre show ?thesis by blast
  qed
  have other: "generateDDLsForAbsentColumn ?mode currentTable (c_name column) =
                 [dropColumnDDL ?mode (t_name currentTable) (c_name column)]"
    if "g_mode g \<noteq> GeneratorModeMssql"
    using that by (simp add: generateDDLsForAbsentColumn_def)
  from mssql other all show ?thesis by auto
qed

theorem mssql_drop_constraint_before_drop_column_witness:
  "generateDDLs (exGenerator GeneratorModeMssql [exUsersCurrent]) [exUsersDDL]
     = Inr [''ALTER TABLE [dbo].[users] DROP CONSTRAINT [df_name]'',
            ''ALTER TABLE [dbo].[users] DROP COLUMN [name]'']
   \<and> sublist [dropConstraintDDL GeneratorModeMssql ''users'' ''df_name'',
               dropColumnDDL GeneratorModeMssql ''users'' ''name'']
        [''ALTER TABLE [dbo].[users] DROP CONSTRAINT [df_name]'',
         ''ALTER TABLE [dbo].[users] DROP COLUMN [name]'']
   \<and> generateDDLsForAbsentColumn GeneratorModeSQLite3
        (exTable ''users'' [exColumn ''id'' ''bigint'', exNameColumn, exColumn ''id'' ''bigint''] [])
        ''name''
     = [dropColumnDDL GeneratorModeSQLite3 ''users'' ''name'']"
proof -
  let ?cur = "exTable ''users'' [exColumn ''id'' ''bigint'', exNameColumn, exColumn ''id'' ''bigint''] []"
  have h4: "?cur \<in> set (g_currentTables (exUsersAfter mode))" for mode
    by (simp add: exUsersAfter_def)
  have h5: "findTableByName (g_desiredTables (exUsersAfter mode)) (t_name ?cur)
              = Some exUsersDesired" for mode
    by (simp add: exUsersAfter_def exUsersDesired_def exTable_def)
  have h6: "exNameColumn \<in> set (t_columns ?cur)" by (simp add: exTable_def)
  have h7: "\<not> containsString (convertColumnsToColumnNames (t_columns exUsersDesired))
                (c_name exNameColumn)"
    by (simp add: eval_defs)
  have h8: "\<forall>c \<in> set (t_columns ?cur). c_name c = c_name exNameColumn \<longrightarrow>
              (\<exists>d. c_defaultDef c = Some d \<and> dd_constraintName d = ''df_name'')"
    by (simp add: eval_defs)
  have h9: "''df_name'' \<noteq> []" by simp
  let ?g = "exGenerator GeneratorModeMssql [exUsersCurrent]"
  have m1: "g_mode ?g = GeneratorModeMssql" by (simp add: exGenerator_def)
  have m2: "examineDesiredDDLs ?g [exUsersDDL] = Inr ([], exUsersAfter GeneratorModeMssql)"
    by (simp add: eval_defs)
  have m3: "generateDDLs ?g [exUsersDDL]
              = Inr [''ALTER TABLE [dbo].[users] DROP CONSTRAINT [df_name]'',
                     ''ALTER TABLE [dbo].[users] DROP COLUMN [name]'']"
    by (simp add: eval_defs)
  let ?p = "exGenerator GeneratorModeSQLite3 [exUsersCurrent]"
  have p1: "g_mode ?p \<noteq> GeneratorModeMssql" by (simp add: exGenerator_def)
  have p2: "examineDesiredDDLs ?p [exUsersDDL] = Inr ([], exUsersAfter GeneratorModeSQLite3)"
    by (simp add: eval_defs)
  have p3: "generateDDLs ?p [exUsersDDL] = Inr [''ALTER TABLE `users` DROP COLUMN `name`'']"
    by (simp add: eval_defs)
  from mssql_drop_constraint_before_drop_column[OF m2 m3 h4 h5 h6 h7 h8 h9] m1 m3
       mssql_drop_constraint_before_drop_column[OF p2 p3 h4 h5 h6 h7 h8 h9] p1
  show ?thesis by (simp add: exTable_def exNameColumn_def exColumn_def exGenerator_def)
qed

section \<open>Foreign keys without a constraint name\<close>

lemma examineForeignKeys_missing:
  assumes "fk \<in> set (t_foreignKeys des)" and "fk_constraintName fk = []"
  shows "\<exists>indexName indexColumns fkDDLs. examineForeignKeys mode cur des =
           Inl (Failed (MissingConstraintName (t_name des) indexName indexColumns)
                  (Some fkDDLs))"
proof -
  let ?P = "\<lambda>fl. \<exists>ixn ixc ds. fl = Failed (MissingConstraintName (t_name des) ixn ixc) (Some ds)"
  have "\<exists>fl. forEachE (examineForeignKey mode cur des) (t_foreignKeys des) = Inl fl \<and> ?P fl"
  proof (rule forEachE_first_failure[OF assms(1)])
    show "examineForeignKey mode cur des fk =
            Inl (Failed (MissingConstraintName (t_name des) (fk_indexName fk)
                           (fk_indexColumns fk)) (Some []))"
      using assms(2) by (simp add: examineForeignKey_def)
    show "\<forall>y\<in>set (t_foreignKeys des). \<forall>fl. examineForeignKey mode cur des y = Inl fl \<longrightarrow> ?P fl"
      by (auto simp: examineForeignKey_def Let_def split: if_splits option.splits)
    show "\<forall>ds fl. ?P fl \<longrightarrow> ?P (afterDDLs ds fl)" by auto
  qed
  then show ?thesis by (auto simp: examineForeignKeys_def)
qed

lemma generateDDLsForCreateTable_missing:
  assumes "fk \<in> set (t_foreignKeys des)" and "fk_constraintName fk = []"
  shows "isl (generateDDLsForCreateTable mode cur des)"
proof -
  from examineForeignKeys_missing[OF assms] obtain fl where
    "examineForeignKeys mode cur des = Inl fl" by blast
  then show ?thesis
    unfolding generateDDLsForCreateTable_def
    by (intro seqE_Inl_mem[of fl]) simp
qed

lemma examineDesiredDDLs_aborts:
  assumes "fk \<in> set (t_foreignKeys des)" and "fk_constraintName fk = []"
  shows "CreateTable s des \<in> set ds \<Longrightarrow> t_name des \<in> t_name ` set (g_currentTables g) \<Longrightarrow>
           isl (examineDesiredDDLs g ds)"
proof (induction ds arbitrary: g)
  case Nil
  then show ?case by simp
next
  case (Cons d ds)
  show ?case
  proof (cases "generateDDL g d")
    case (Inl fl)
    then show ?thesis by simp
  next
    case (Inr r)
    obtain out g1 where r: "r = (out, g1)" by (cases r)
    have ne: "d \<noteq> CreateTable s des"
    proof
      assume "d = CreateTable s des"
      moreover from Cons.prems(2) obtain cur where
        "findTableByName (g_currentTables g) (t_name des) = Some cur"
        using findTableByName_None_iff[of "g_currentTables g" "t_name des"] by auto
      moreover have "isl (generateDDLsForCreateTable (g_mode g) cur des)"
        by (rule generateDDLsForCreateTable_missing[OF assms])
      ultimately show False using Inr by (auto simp: isl_def split: sum.splits)
    qed
    with Cons.prems(1) have "CreateTable s des \<in> set ds" by auto
    moreover have "t_name des \<in> t_name ` set (g_currentTables g1)"
      using generateDDL_currentNames[OF Inr[unfolded r]] Cons.prems(2) by blast
    ultimately have "isl (examineDesiredDDLs g1 ds)" by (rule Cons.IH)
    then show ?thesis using Inr r by (auto split: sum.splits)
  qed
qed

text \<open>
  A round that fails ends \<^verbatim>\<open>generateDDLs\<close> with the statements of the rounds before
  it.
\<close>

lemma generateDDLs_failing_round:
  assumes "examineDesiredDDLs g pre = Inr (ddls, g1)" and "generateDDL g1 d = Inl fl"
  shows "generateDDLs g (pre @ d # post) = Inl (afterDDLs ddls fl)"
  using assms by (simp add: generateDDLs_def examineDesiredDDLs_append)

text \<open>
  Claim C6, as stated: when a desired foreign key has an empty constraint name, the
  examination returns an error identifying the table, and the whole diff aborts without
  returning a statement list. The first half holds; the second fails, since
  \<^verbatim>\<open>generateDDLs\<close> returns the error together with the statements it has gathered from
  the statements before (\<^verbatim>\<open>return ddls, err\<close>). With the new table \<open>users\<close> before
  the table \<open>posts\<close>, whose foreign key has no constraint name, it returns the error
  and the list holding the \<^verbatim>\<open>CREATE TABLE\<close> of \<open>users\<close>.
\<close>

theorem missing_constraint_name_returned_with_statements:
  "generateDDLs (exGenerator GeneratorModeMssql [exPostsCurrent])
     [exUsersDDL, CreateTable ''CREATE TABLE posts (...)'' exPostsDesired]
   = Inl (Failed (MissingConstraintName ''posts'' [] [''user_id''])
            (Some [''CREATE TABLE users (id bigint)'']))"
  by (simp add: eval_defs)

text \<open>
  Claim C6, amended: in every dialect, when the desired table of a \<^verbatim>\<open>CREATE TABLE\<close> that
  matches a current table has a foreign key with an empty constraint name, the examination
  of the desired foreign keys returns the error \<open>MissingConstraintName\<close> for that table,
  with the statements of the foreign keys before it. The diff of the table does not
  succeed, and it returns this very error when its five earlier loops pass. The generator
  does not return a statement list with a nil error for any desired stream that holds the
  statement while a current table of that name exists: it returns an error or stops in a
  panic. When the statements before the \<^verbatim>\<open>CREATE TABLE\<close> are examined without failure and
  the five earlier loops of the table diff pass, the generator returns
  \<open>MissingConstraintName\<close> together with the statements generated for the statements
  before, and nothing of the table diff or of the clean-up.
\<close>

theorem missing_constraint_name_aborts:
  assumes "fk \<in> set (t_foreignKeys desiredTable)" and "fk_constraintName fk = []"
  shows "(\<exists>indexName indexColumns fkDDLs. examineForeignKeys mode currentTable desiredTable =
             Inl (Failed (MissingConstraintName (t_name desiredTable) indexName indexColumns)
                    (Some fkDDLs)))
       \<and> isl (generateDDLsForCreateTable mode currentTable desiredTable)
       \<and> (\<not> isl (examineColumns mode currentTable desiredTable)
            \<and> \<not> isl (removeOldAutoIncrement mode currentTable desiredTable)
            \<and> \<not> isl (examinePrimaryKey mode currentTable desiredTable)
            \<and> \<not> isl (examineIndexes mode currentTable desiredTable)
            \<and> \<not> isl (addNewAutoIncrement mode currentTable desiredTable)
          \<longrightarrow> (\<exists>indexName indexColumns tableDDLs.
                 generateDDLsForCreateTable mode currentTable desiredTable =
                   Inl (Failed (MissingConstraintName (t_name desiredTable) indexName
                                  indexColumns) (Some tableDDLs))))
       \<and> (CreateTable statement desiredTable \<in> set desiredDDLs
            \<and> t_name desiredTable \<in> t_name ` set (g_currentTables g)
          \<longrightarrow> isl (generateDDLs g desiredDDLs))
       \<and> (examineDesiredDDLs g before = Inr (ddls, g1)
            \<and> findTableByName (g_currentTables g1) (t_name desiredTable) = Some currentTable
            \<and> g_mode g = mode
            \<and> \<not> isl (examineColumns mode currentTable desiredTable)
            \<and> \<not> isl (removeOldAutoIncrement mode currentTable desiredTable)
            \<and> \<not> isl (examinePrimaryKey mode currentTable desiredTable)
            \<and> \<not> isl (examineIndexes mode currentTable desiredTable)
            \<and> \<not> isl (addNewAutoIncrement mode currentTable desiredTable)
          \<longrightarrow> (\<exists>indexName indexColumns.
                 generateDDLs g (before @ CreateTable statement desiredTable # rest) =
                   Inl (Failed (MissingConstraintName (t_name desiredTable) indexName
                                  indexColumns) (Some ddls))))"
proof -
  from examineForeignKeys_missing[OF assms, of mode currentTable] obtain ixn ixc fds where
    fk: "examineForeignKeys mode currentTable desiredTable =
           Inl (Failed (MissingConstraintName (t_name desiredTable) ixn ixc) (Some fds))"
    by blast
  have phases: "\<exists>tableDDLs. generateDDLsForCreateTable mode currentTable desiredTable =
                  Inl (Failed (MissingConstraintName (t_name desiredTable) ixn ixc)
                         (Some tableDDLs))"
    if "\<not> isl (examineColumns mode currentTable desiredTable)"
      and "\<not> isl (removeOldAutoIncrement mode currentTable desiredTable)"
      and "\<not> isl (examinePrimaryKey mode currentTable desiredTable)"
      and "\<not> isl (examineIndexes mode currentTable desiredTable)"
      and "\<not> isl (addNewAutoIncrement mode currentTable desiredTable)"
    using that fk unfolding generateDDLsForCreateTable_def
    by (auto simp: isl_def split: sum.splits)
  have aborts: "isl (generateDDLs g desiredDDLs)"
    if "CreateTable statement desiredTable \<in> set desiredDDLs"
      and "t_name desiredTable \<in> t_name ` set (g_currentTables g)"
  proof -
    from examineDesiredDDLs_aborts[OF assms that] obtain fl where
      "examineDesiredDDLs g desiredDDLs = Inl fl"
      by (cases "examineDesiredDDLs g desiredDDLs") auto
    then show ?thesis by (simp add: generateDDLs_def)
  qed
  have returned: "generateDDLs g (before @ CreateTable statement desiredTable # rest) =
                    Inl (Failed (MissingConstraintName (t_name desiredTable) ixn ixc) (Some ddls))"
    if w: "examineDesiredDDLs g before = Inr (ddls, g1)"
      and c: "findTableByName (g_currentTables g1) (t_name desiredTable) = Some currentTable"
      and m: "g_mode g = mode"
      and p: "\<not> isl (examineColumns mode currentTable desiredTable)"
        "\<not> isl (removeOldAutoIncrement mode currentTable desiredTable)"
        "\<not> isl (examinePrimaryKey mode currentTable desiredTable)"
        "\<not> isl (examineIndexes mode currentTable desiredTable)"
        "\<not> isl (addNewAutoIncrement mode currentTable desiredTable)"
  proof -
    from phases[OF p] obtain tds where
      "generateDDLsForCreateTable mode currentTable desiredTable =
         Inl (Failed (MissingConstraintName (t_name desiredTable) ixn ixc) (Some tds))"
      by blast
    with c m examineDesiredDDLs_mode[OF w]
    have "generateDDL g1 (CreateTable statement desiredTable) =
            Inl (Failed (MissingConstraintName (t_name desiredTable) ixn ixc) (Some []))"
      by simp
    from generateDDLs_failing_round[OF w this] show ?thesis by simp
  qed
  from fk phases aborts returned
    generateDDLsForCreateTable_missing[OF assms, of mode currentTable]
  show ?thesis by blast
qed

theorem missing_constraint_name_aborts_witness:
  "examineForeignKeys GeneratorModeMysql exPostsCurrent exPostsDesired
     = Inl (Failed (MissingConstraintName ''posts'' [] [''user_id'']) (Some []))
   \<and> generateDDLs (exGenerator GeneratorModeMysql [exPostsCurrent])
        [exPlainDDL, CreateTable ''CREATE TABLE posts (...)'' exPostsDesired]
     = Inl (Failed (MissingConstraintName ''posts'' [] [''user_id''])
              (Some [''CREATE TABLE t (a int)'']))"
proof -
  let ?g = "exGenerator GeneratorModeMysql [exPostsCurrent]"
  let ?g1 = "\<lparr> g_mode = GeneratorModeMysql, g_desiredTables = [exPlainDesired],
               g_currentTables = [exPostsCurrent, exPlainDesired], g_desiredViews = [],
               g_currentViews = [] \<rparr>"
  have h1: "exUnnamedForeignKey \<in> set (t_foreignKeys exPostsDesired)"
    by (simp add: exPostsDesired_def)
  have h2: "fk_constraintName exUnnamedForeignKey = []"
    by (simp add: exUnnamedForeignKey_def)
  have h3: "examineDesiredDDLs ?g [exPlainDDL] = Inr ([''CREATE TABLE t (a int)''], ?g1)"
    by (simp add: eval_defs)
  have h4: "findTableByName (g_currentTables ?g1) (t_name exPostsDesired) = Some exPostsCurrent"
    by (simp add: eval_defs)
  have h5: "g_mode ?g = GeneratorModeMysql" by (simp add: exGenerator_def)
  have h6: "\<not> isl (examineColumns GeneratorModeMysql exPostsCurrent exPostsDesired)"
    "\<not> isl (removeOldAutoIncrement GeneratorModeMysql exPostsCurrent exPostsDesired)"
    "\<not> isl (examinePrimaryKey GeneratorModeMysql exPostsCurrent exPostsDesired)"
    "\<not> isl (examineIndexes GeneratorModeMysql exPostsCurrent exPostsDesired)"
    "\<not> isl (addNewAutoIncrement GeneratorModeMysql exPostsCurrent exPostsDesired)"
    by (simp_all add: eval_defs)
  from missing_constraint_name_aborts[OF h1 h2, of GeneratorModeMysql exPostsCurrent
      "''CREATE TABLE posts (...)''" "[]" ?g "[exPlainDDL]" "[''CREATE TABLE t (a int)'']" ?g1 "[]"]
    h3 h4 h5 h6
  show ?thesis by (simp add: eval_defs)
qed

section \<open>An index created twice\<close>

lemma generateDDLsForCreateIndex_desired:
  assumes "generateDDLsForCreateIndex g tn idx action s = Inr (out, g1)"
  shows "\<exists>t. findTableByName (g_desiredTables g) tn = Some t
           \<and> g_desiredTables g1 = updateTableByName (g_desiredTables g) tn
                                     (t \<lparr> t_indexes := t_indexes t @ [idx] \<rparr>)"
  using assms unfolding generateDDLsForCreateIndex_def Let_def
  by (auto split: option.splits if_splits prod.splits)

lemma generateDDLsForCreateIndex_current_found:
  assumes "generateDDLsForCreateIndex g tn idx action s = Inr (out, g1)"
  shows "tn \<in> t_name ` set (g_currentTables g)"
  using assms unfolding generateDDLsForCreateIndex_def Let_def
  by (auto split: option.splits dest!: findTableByName_Some_D)

lemma indexRecorded_after:
  assumes "generateDDLsForCreateIndex g tn idx action s = Inr (out, g1)"
  shows "indexRecorded tn (i_name idx) g1"
proof -
  from generateDDLsForCreateIndex_desired[OF assms] obtain t where
    t: "findTableByName (g_desiredTables g) tn = Some t"
    and d: "g_desiredTables g1 = updateTableByName (g_desiredTables g) tn
                                  (t \<lparr> t_indexes := t_indexes t @ [idx] \<rparr>)"
    by blast
  from findTableByName_Some_D[OF t]
  have n: "t_name (t \<lparr> t_indexes := t_indexes t @ [idx] \<rparr>) = tn" by simp
  have "findTableByName (g_desiredTables g1) tn = Some (t \<lparr> t_indexes := t_indexes t @ [idx] \<rparr>)"
    unfolding d using findTableByName_update[OF n t, of tn] by simp
  moreover have "tn \<in> t_name ` set (g_currentTables g1)"
    using generateDDLsForCreateIndex_current_found[OF assms]
      generateDDLsForCreateIndex_currentNames[OF assms] by (metis set_map)
  ultimately show ?thesis by (auto simp: indexRecorded_def)
qed

lemma indexRecorded_update:
  assumes "findTableByName ts tn = Some t" and "iname \<in> i_name ` set (t_indexes t)"
    and "findTableByName ts m = Some u" and "t_name u' = m"
    and "set (t_indexes u) \<subseteq> set (t_indexes u')"
  shows "\<exists>t'. findTableByName (updateTableByName ts m u') tn = Some t'
              \<and> iname \<in> i_name ` set (t_indexes t')"
proof (cases "tn = m")
  case True
  with assms have "u = t" by simp
  with assms True show ?thesis using findTableByName_update[OF assms(4,3), of tn] by auto
next
  case False
  with assms show ?thesis using findTableByName_update[OF assms(4,3), of tn] by auto
qed

text \<open>An index name that the simulated state has recorded stays recorded.\<close>

lemma indexRecorded_step:
  assumes "indexRecorded tn iname g" and "generateDDL g d = Inr (out, g1)"
  shows "indexRecorded tn iname g1"
proof -
  from assms(1) obtain t where t: "findTableByName (g_desiredTables g) tn = Some t"
    "iname \<in> i_name ` set (t_indexes t)" and c: "tn \<in> t_name ` set (g_currentTables g)"
    by (auto simp: indexRecorded_def)
  have cur: "tn \<in> t_name ` set (g_currentTables g1)"
    using generateDDL_currentNames[OF assms(2)] c by blast
  have "\<exists>t'. findTableByName (g_desiredTables g1) tn = Some t'
             \<and> iname \<in> i_name ` set (t_indexes t')"
  proof (cases d)
    case (CreateTable s tb)
    with assms(2) have "g_desiredTables g1 = g_desiredTables g @ [tb]"
      by (auto split: option.splits sum.splits)
    with t show ?thesis by (simp add: findTableByName_append)
  next
    case (CreateIndex s m i)
    with assms(2) have "generateDDLsForCreateIndex g m i ''CREATE INDEX'' s = Inr (out, g1)"
      by simp
    from generateDDLsForCreateIndex_desired[OF this] obtain u where
      u: "findTableByName (g_desiredTables g) m = Some u"
      "g_desiredTables g1 = updateTableByName (g_desiredTables g) m
                              (u \<lparr> t_indexes := t_indexes u @ [i] \<rparr>)"
      by blast
    with indexRecorded_update[OF t u(1), of "u \<lparr> t_indexes := t_indexes u @ [i] \<rparr>"]
      findTableByName_Some_D[OF u(1)]
    show ?thesis by auto
  next
    case (AddIndex s m i)
    with assms(2) have "generateDDLsForCreateIndex g m i ''ALTER TABLE'' s = Inr (out, g1)"
      by simp
    from generateDDLsForCreateIndex_desired[OF this] obtain u where
      u: "findTableByName (g_desiredTables g) m = Some u"
      "g_desiredTables g1 = updateTableByName (g_desiredTables g) m
                              (u \<lparr> t_indexes := t_indexes u @ [i] \<rparr>)"
      by blast
    with indexRecorded_update[OF t u(1), of "u \<lparr> t_indexes := t_indexes u @ [i] \<rparr>"]
      findTableByName_Some_D[OF u(1)]
    show ?thesis by auto
  next
    case (AddForeignKey s m f)
    with assms(2) obtain u where
      u: "findTableByName (g_desiredTables g) m = Some u"
      "g_desiredTables g1 = updateTableByName (g_desiredTables g) m
                              (u \<lparr> t_foreignKeys := t_foreignKeys u @ [f] \<rparr>)"
      by (auto simp: generateDDLsForAddForeignKey_def split: option.splits if_splits)
    with indexRecorded_update[OF t u(1), of "u \<lparr> t_foreignKeys := t_foreignKeys u @ [f] \<rparr>"]
      findTableByName_Some_D[OF u(1)]
    show ?thesis by auto
  next
    case (AddPolicy s m p)
    with assms(2) obtain u where
      u: "findTableByName (g_desiredTables g) m = Some u"
      "g_desiredTables g1 = updateTableByName (g_desiredTables g) m
                              (u \<lparr> t_policies := t_policies u @ [p] \<rparr>)"
      by (auto simp: generateDDLsForCreatePolicy_def Let_def
               split: option.splits if_splits prod.splits)
    with indexRecorded_update[OF t u(1), of "u \<lparr> t_policies := t_policies u @ [p] \<rparr>"]
      findTableByName_Some_D[OF u(1)]
    show ?thesis by auto
  next
    case (CreateView v)
    with assms(2) have "g_desiredTables g1 = g_desiredTables g"
      by (auto simp: generateDDLsForCreateView_def Let_def split: if_splits)
    with t show ?thesis by simp
  next
    case (AddPrimaryKey s m i)
    with assms(2) show ?thesis by simp
  qed
  with cur show ?thesis by (simp add: indexRecorded_def)
qed

lemma indexRecorded_walk:
  "indexRecorded tn iname g \<Longrightarrow> examineDesiredDDLs g ds = Inr (out, g1) \<Longrightarrow>
     indexRecorded tn iname g1"
proof (induction ds arbitrary: g out)
  case Nil
  then show ?case by simp
next
  case (Cons d ds)
  from Cons.prems(2) obtain o1 g' o2 where
    s: "generateDDL g d = Inr (o1, g')" and r: "examineDesiredDDLs g' ds = Inr (o2, g1)"
    by (auto split: sum.splits prod.splits)
  from indexRecorded_step[OF Cons.prems(1) s] have "indexRecorded tn iname g'" .
  from Cons.IH[OF this r] show ?case .
qed

lemma generateDDLsForCreateIndex_duplicate:
  assumes "indexRecorded tn (i_name idx) g"
  shows "generateDDLsForCreateIndex g tn idx action s
           = Inl (Failed (DuplicateIndex (i_name idx) tn s) None)"
proof -
  from assms obtain t where t: "findTableByName (g_desiredTables g) tn = Some t"
    "i_name idx \<in> i_name ` set (t_indexes t)" and c: "tn \<in> t_name ` set (g_currentTables g)"
    by (auto simp: indexRecorded_def)
  from c obtain cur where cur: "findTableByName (g_currentTables g) tn = Some cur"
    using findTableByName_None_iff[of "g_currentTables g" tn] by auto
  show ?thesis
    unfolding generateDDLsForCreateIndex_def Let_def
    using t cur by (auto simp: containsString_iff convertIndexesToIndexNames_def
                         split: option.splits prod.splits)
qed

lemma generateDDL_indexStatement:
  "indexStatement d = Some (s, tn, idx) \<Longrightarrow>
     \<exists>action. generateDDL g d = returnDDLs (generateDDLsForCreateIndex g tn idx action s)"
  by (cases d) auto

text \<open>
  Claim C7, as stated: a desired stream with two \<^verbatim>\<open>CREATE INDEX\<close> statements of the
  same index name against the same table makes the generator return a \<open>DuplicateIndex\<close>
  error rather than a statement list. This fails in two ways. When an earlier error comes
  first, that error is returned: with no table \<open>t\<close> at all, the first of the two
  statements already fails with \<open>MissingTable\<close>. And the error is returned together
  with the statements gathered so far: with the \<^verbatim>\<open>CREATE TABLE\<close> of a new table \<open>t\<close>
  before the two statements, the generator returns \<open>DuplicateIndex\<close> and the list of
  the \<^verbatim>\<open>CREATE TABLE\<close> and the first \<^verbatim>\<open>CREATE INDEX\<close>.
\<close>

theorem duplicate_index_preempted_by_missing_table:
  "generateDDLs (exGenerator GeneratorModeMysql []) [exCreateIndexDDL, exCreateIndexDDL]
     = Inl (Failed (MissingTable ''CREATE INDEX'' ''t'' ''CREATE INDEX i ON t (a)'') (Some []))
   \<and> generateDDLs (exGenerator GeneratorModeMysql [])
        [exPlainDDL, exCreateIndexDDL, exCreateIndexDDL]
     = Inl (Failed (DuplicateIndex ''i'' ''t'' ''CREATE INDEX i ON t (a)'')
              (Some [''CREATE TABLE t (a int)'', ''CREATE INDEX i ON t (a)'']))"
  by (simp add: eval_defs)

text \<open>
  Claim C7, amended: in every dialect, a desired stream with two \<^verbatim>\<open>CREATE INDEX\<close> (or
  \<^verbatim>\<open>ADD INDEX\<close>) statements of the same index name against the same table never makes
  the generator return a statement list with a nil error: it returns an error or stops in
  a panic. When every statement before the second of the two is examined without failure,
  the generator returns the error \<open>DuplicateIndex\<close> with the index name, the table name
  and the text of the second statement, together with the statements generated for the
  statements before the second.
\<close>

theorem duplicate_index_is_rejected:
  assumes "indexStatement d1 = Some (s1, tableName, index1)"
    and "indexStatement d2 = Some (s2, tableName, index2)"
    and "i_name index1 = i_name index2"
  shows "isl (generateDDLs g (pre @ d1 # mid @ d2 # post))
       \<and> (\<forall>out g'. examineDesiredDDLs g (pre @ d1 # mid) = Inr (out, g') \<longrightarrow>
             generateDDLs g (pre @ d1 # mid @ d2 # post)
               = Inl (Failed (DuplicateIndex (i_name index2) tableName s2) (Some out)))"
proof -
  have dup: "generateDDLs g (pre @ d1 # mid @ d2 # post)
               = Inl (Failed (DuplicateIndex (i_name index2) tableName s2) (Some out))"
    if w: "examineDesiredDDLs g (pre @ d1 # mid) = Inr (out, g')" for out g'
  proof -
    from w obtain o0 g0 o1 g1 o2 where
      p: "examineDesiredDDLs g pre = Inr (o0, g0)"
      and s: "generateDDL g0 d1 = Inr (o1, g1)"
      and m: "examineDesiredDDLs g1 mid = Inr (o2, g')"
      by (auto simp: examineDesiredDDLs_append split: sum.splits prod.splits)
    from generateDDL_indexStatement[OF assms(1), of g0] obtain action where
      "generateDDL g0 d1 = returnDDLs (generateDDLsForCreateIndex g0 tableName index1 action s1)"
      by blast
    with s have "generateDDLsForCreateIndex g0 tableName index1 action s1 = Inr (o1, g1)"
      by simp
    from indexRecorded_after[OF this] have "indexRecorded tableName (i_name index2) g1"
      by (simp add: assms(3))
    from indexRecorded_walk[OF this m] have "indexRecorded tableName (i_name index2) g'" .
    from generateDDLsForCreateIndex_duplicate[OF this]
      generateDDL_indexStatement[OF assms(2), of g']
    have "generateDDL g' d2 = Inl (Failed (DuplicateIndex (i_name index2) tableName s2) (Some []))"
      by auto
    from generateDDLs_failing_round[OF w this, of post] show ?thesis by simp
  qed
  have "isl (generateDDLs g (pre @ d1 # mid @ d2 # post))"
  proof (cases "examineDesiredDDLs g (pre @ d1 # mid)")
    case (Inl fl)
    then have "examineDesiredDDLs g ((pre @ d1 # mid) @ d2 # post) = Inl fl"
      unfolding examineDesiredDDLs_append[of g "pre @ d1 # mid"] by simp
    then show ?thesis by (simp add: generateDDLs_def)
  next
    case (Inr r)
    then show ?thesis using dup[of "fst r" "snd r"] by simp
  qed
  with dup show ?thesis by blast
qed

theorem duplicate_index_is_rejected_witness:
  "generateDDLs (exGenerator GeneratorModeMysql [exPlainDesired])
     [exPlainDDL, exCreateIndexDDL, exCreateIndexDDL]
   = Inl (Failed (DuplicateIndex ''i'' ''t'' ''CREATE INDEX i ON t (a)'')
            (Some [''CREATE INDEX i ON t (a)'']))"
proof -
  let ?idx = "exIndex ''i'' [''a''] []"
  let ?g = "exGenerator GeneratorModeMysql [exPlainDesired]"
  have h1: "indexStatement exCreateIndexDDL = Some (''CREATE INDEX i ON t (a)'', ''t'', ?idx)"
    by (simp add: exCreateIndexDDL_def)
  have h3: "i_name ?idx = i_name ?idx" by simp
  have "\<exists>g'. examineDesiredDDLs ?g ([exPlainDDL] @ exCreateIndexDDL # [])
               = Inr ([''CREATE INDEX i ON t (a)''], g')"
    by (simp add: eval_defs)
  with duplicate_index_is_rejected[OF h1 h1 h3, of ?g "[exPlainDDL]" "[]" "[]"]
  show ?thesis by (auto simp: exIndex_def)
qed

section \<open>Dropping an index in SQLite mode\<close>

lemma generateDDLsForAbsentIndex_sqlite:
  "\<not> i_primary index \<Longrightarrow> \<not> i_unique index \<Longrightarrow>
     generateDDLsForAbsentIndex GeneratorModeSQLite3 index cur des = Inr ['''']"
  by (simp add: generateDDLsForAbsentIndex_def generateDropIndex_def)

text \<open>
  Claim C9: in SQLite mode \<^verbatim>\<open>generateDropIndex\<close> returns the empty string for every
  table and index name. So when the clean-up walk comes to a current index that is neither
  primary nor unique and whose name the desired table has neither among its indexes nor
  among the index names of its foreign keys, the statements for that index are the single
  empty string, and the empty string is an element of the list the generator returns.
\<close>

theorem sqlite_drop_index_is_empty_statement:
  assumes "g_mode g = GeneratorModeSQLite3"
    and "examineDesiredDDLs g desiredDDLs = Inr (ddls, g1)"
    and "generateDDLs g desiredDDLs = Inr out"
    and "currentTable \<in> set (g_currentTables g1)"
    and "findTableByName (g_desiredTables g1) (t_name currentTable) = Some desiredTable"
    and "index \<in> set (t_indexes currentTable)"
    and "\<not> i_primary index" and "\<not> i_unique index"
    and "\<not> containsString (convertIndexesToIndexNames (t_indexes desiredTable)) (i_name index)"
    and "\<not> containsString (convertForeignKeysToIndexNames (t_foreignKeys desiredTable))
             (i_name index)"
  shows "generateDropIndex GeneratorModeSQLite3 tableName indexName = []
       \<and> generateDDLsForAbsentIndex GeneratorModeSQLite3 index currentTable desiredTable
           = Inr ['''']
       \<and> [] \<in> set out"
proof -
  let ?f = "\<lambda>index.
      if containsString (convertIndexesToIndexNames (t_indexes desiredTable)) (i_name index)
         \<or> containsString (convertForeignKeysToIndexNames (t_foreignKeys desiredTable))
              (i_name index)
      then Inr []
      else (returnDDLs
              (generateDDLsForAbsentIndex GeneratorModeSQLite3 index currentTable desiredTable)
            :: ddlsFailure + string list)"
  from generateDDLs_cleanUp_sublist[OF assms(2,3,4,5)] obtain tds where
    t: "cleanUpTable GeneratorModeSQLite3 currentTable desiredTable = Inr tds" "sublist tds out"
    by (auto simp: assms(1))
  from cleanUpTable_parts[OF t(1)] obtain ids where
    i: "dropObsoleteIndexes GeneratorModeSQLite3 currentTable desiredTable = Inr ids"
    and tds: "set ids \<subseteq> set tds" by fastforce
  from i have "forEachE ?f (t_indexes currentTable) = Inr ids"
    unfolding dropObsoleteIndexes_def .
  from forEachE_Inr_D[OF this]
  have "ids = concat (map (\<lambda>x. projr (?f x)) (t_indexes currentTable))" by (rule conjunct2)
  moreover have "projr (?f index) = ['''']"
    using assms(7-10) by (simp add: generateDDLsForAbsentIndex_sqlite)
  ultimately have "[] \<in> set ids" using assms(6) by force
  with tds set_mono_sublist[OF t(2)] have "[] \<in> set out" by blast
  then show ?thesis
    using assms(7,8) by (simp add: generateDropIndex_def generateDDLsForAbsentIndex_sqlite)
qed

theorem sqlite_drop_index_is_empty_statement_witness:
  "generateDDLs (exGenerator GeneratorModeSQLite3 [exIndexedCurrent]) [exPlainDDL] = Inr ['''']
   \<and> [] \<in> set (projr (generateDDLs (exGenerator GeneratorModeSQLite3 [exIndexedCurrent])
                         [exPlainDDL]))"
proof -
  let ?g = "exGenerator GeneratorModeSQLite3 [exIndexedCurrent]"
  let ?cur = "exTable ''t'' [exColumn ''a'' ''int'', exColumn ''a'' ''int'']
                [exIndex ''i'' [''a''] []]"
  have h1: "g_mode ?g = GeneratorModeSQLite3" by (simp add: exGenerator_def)
  have h2: "examineDesiredDDLs ?g [exPlainDDL] = Inr ([], exPlainAfter GeneratorModeSQLite3)"
    by (simp add: eval_defs)
  have h3: "generateDDLs ?g [exPlainDDL] = Inr ['''']"
    by (simp add: eval_defs)
  have h4: "?cur \<in> set (g_currentTables (exPlainAfter GeneratorModeSQLite3))"
    by (simp add: exPlainAfter_def)
  have h5: "findTableByName (g_desiredTables (exPlainAfter GeneratorModeSQLite3)) (t_name ?cur)
              = Some exPlainDesired"
    by (simp add: exPlainAfter_def exPlainDesired_def exTable_def)
  have h6: "exIndex ''i'' [''a''] [] \<in> set (t_indexes ?cur)" by (simp add: exTable_def)
  have h7: "\<not> i_primary (exIndex ''i'' [''a''] [])" by (simp add: exIndex_def)
  have h8: "\<not> i_unique (exIndex ''i'' [''a''] [])" by (simp add: exIndex_def)
  have h9: "\<not> containsString (convertIndexesToIndexNames (t_indexes exPlainDesired))
                (i_name (exIndex ''i'' [''a''] []))"
    by (simp add: eval_defs)
  have h10: "\<not> containsString (convertForeignKeysToIndexNames (t_foreignKeys exPlainDesired))
                 (i_name (exIndex ''i'' [''a''] []))"
    by (simp add: eval_defs)
  from sqlite_drop_index_is_empty_statement[OF h1 h2 h3 h4 h5 h6 h7 h8 h9 h10] h3
  show ?thesis by simp
qed

section \<open>Identity columns\<close>

lemma defaultClause_no_not_null:
  "defaultClause column = Inr ds \<Longrightarrow> ''NOT NULL '' \<notin> set ds"
  by (auto simp: defaultClause_def generateDefaultDefinition_def
           split: option.splits sum.splits failure.splits ValueType.splits if_splits)

lemma keyOptionClause_no_not_null:
  "keyOptionClause column u = Inr ds \<Longrightarrow> ''NOT NULL '' \<notin> set ds"
  by (auto simp: keyOptionClause_def split: ColumnKeyOption.splits if_splits)

lemma identityClause_no_not_null:
  "identityClause mode column = Inr ds \<Longrightarrow> ''NOT NULL '' \<notin> set ds"
  by (auto simp: identityClause_def split: option.splits if_splits)

lemma identityClause_generated:
  "c_identity column \<noteq> [] \<Longrightarrow> identityClause mode column = Inr ds \<Longrightarrow>
     (''GENERATED '' @ c_identity column @ '' AS IDENTITY '') \<in> set ds"
  by (auto simp: identityClause_def split: option.splits if_splits)

lemma nullabilityClause_identity:
  "c_identity column \<noteq> [] \<Longrightarrow> ''NOT NULL '' \<notin> set (nullabilityClause column)"
  by (auto simp: nullabilityClause_def)

lemma escapeSQLName_no_not_null: "''NOT NULL '' \<noteq> escapeSQLName mode n @ rest"
  by (cases mode) (auto simp: escapeSQLName_def)

text \<open>
  With an identity, the clauses do not depend on \<open>not_null\<close> being true rather than
  unset, nor on the key option being \<open>Primary\<close> rather than \<open>None\<close>.
\<close>

lemma columnClauses_identity_notNull:
  assumes "c_identity column \<noteq> []" and "c_notNull column = Some True"
    and "columnClauses mode column enableUnique = Inr clauses"
  shows "columnClauses mode (column \<lparr> c_notNull := None \<rparr>) enableUnique = Inr clauses"
proof -
  from assms(3) obtain d k i where
    d: "defaultClause column = Inr d" and k: "keyOptionClause column enableUnique = Inr k"
    and i: "identityClause mode column = Inr i"
    unfolding columnClauses_def by (auto dest!: seqE_Inr_D simp del: seqE.simps)
  have d': "defaultClause (column \<lparr> c_notNull := None \<rparr>) = Inr d"
    using d by (auto simp: defaultClause_def split: option.splits sum.splits failure.splits)
  have k': "keyOptionClause (column \<lparr> c_notNull := None \<rparr>) enableUnique = Inr k"
    using k by (auto simp: keyOptionClause_def split: ColumnKeyOption.splits)
  have "identityClause mode (column \<lparr> c_notNull := None \<rparr>) = identityClause mode column"
    by (simp add: identityClause_def)
  with i have i': "identityClause mode (column \<lparr> c_notNull := None \<rparr>) = Inr i" by simp
  have n: "nullabilityClause (column \<lparr> c_notNull := None \<rparr>) = nullabilityClause column"
    using assms(1,2) by (simp add: nullabilityClause_def)
  have t: "generateDataType (column \<lparr> c_notNull := None \<rparr>) = generateDataType column"
    by (simp add: generateDataType_def Let_def split: option.splits)
  show ?thesis
    unfolding assms(3)[symmetric] columnClauses_def by (simp add: d k i d' k' i' n t)
qed

lemma columnClauses_identity_primary:
  assumes "c_identity column \<noteq> []" and "c_keyOption column = ColumnKeyPrimary"
    and "columnClauses mode column enableUnique = Inr clauses"
  shows "columnClauses mode (column \<lparr> c_keyOption := ColumnKeyNone \<rparr>) enableUnique = Inr clauses"
proof -
  from assms(3) obtain d k i where
    d: "defaultClause column = Inr d" and k: "keyOptionClause column enableUnique = Inr k"
    and i: "identityClause mode column = Inr i"
    unfolding columnClauses_def by (auto dest!: seqE_Inr_D simp del: seqE.simps)
  have d': "defaultClause (column \<lparr> c_keyOption := ColumnKeyNone \<rparr>) = Inr d"
    using d by (auto simp: defaultClause_def split: option.splits sum.splits failure.splits)
  have k': "keyOptionClause (column \<lparr> c_keyOption := ColumnKeyNone \<rparr>) enableUnique = Inr k"
    using k assms(2) by (auto simp: keyOptionClause_def)
  have "identityClause mode (column \<lparr> c_keyOption := ColumnKeyNone \<rparr>)
          = identityClause mode column"
    by (simp add: identityClause_def)
  with i have i': "identityClause mode (column \<lparr> c_keyOption := ColumnKeyNone \<rparr>) = Inr i"
    by simp
  have n: "nullabilityClause (column \<lparr> c_keyOption := ColumnKeyNone \<rparr>)
             = nullabilityClause column"
    using assms(1) by (simp add: nullabilityClause_def)
  have t: "generateDataType (column \<lparr> c_keyOption := ColumnKeyNone \<rparr>)
             = generateDataType column"
    by (simp add: generateDataType_def Let_def split: option.splits)
  show ?thesis
    unfolding assms(3)[symmetric] columnClauses_def by (simp add: d k i d' k' i' n t)
qed

text \<open>
  Claim C10: for a column with a non-empty identity, the definition that
  \<^verbatim>\<open>generateColumnDefinition\<close> renders is made of clauses none of which is the
  \<^verbatim>\<open>NOT NULL\<close> keyword, and one of which is \<^verbatim>\<open>GENERATED <identity> AS IDENTITY\<close>;
  this holds also when \<open>not_null\<close> is explicitly true or the key option is \<open>Primary\<close>, and
  in those two cases the rendered clauses are the ones of the same column with \<open>not_null\<close>
  unset and with no key option.
\<close>

theorem identity_column_has_no_not_null:
  assumes "c_identity column \<noteq> []"
    and "columnClauses mode column enableUnique = Inr clauses"
  shows "generateColumnDefinition mode column enableUnique
           = Inr (trimSuffixSpace (concat clauses))
       \<and> ''NOT NULL '' \<notin> set clauses
       \<and> (''GENERATED '' @ c_identity column @ '' AS IDENTITY '') \<in> set clauses
       \<and> (c_notNull column = Some True \<longrightarrow>
            columnClauses mode (column \<lparr> c_notNull := None \<rparr>) enableUnique = Inr clauses)
       \<and> (c_keyOption column = ColumnKeyPrimary \<longrightarrow>
            columnClauses mode (column \<lparr> c_keyOption := ColumnKeyNone \<rparr>) enableUnique
              = Inr clauses)"
proof -
  from assms(2) obtain d k i where
    d: "defaultClause column = Inr d" and k: "keyOptionClause column enableUnique = Inr k"
    and i: "identityClause mode column = Inr i"
    unfolding columnClauses_def by (auto dest!: seqE_Inr_D simp del: seqE.simps)
  from assms(2) have cl: "clauses =
      [escapeSQLName mode (c_name column) @ '' '' @ generateDataType column @ '' '']
      @ (if c_unsigned column then [''UNSIGNED ''] else [])
      @ (if c_timezone column then [''WITH TIME ZONE ''] else [])
      @ (if c_charset column \<noteq> [] then [''CHARACTER SET '' @ c_charset column @ '' ''] else [])
      @ (if c_collate column \<noteq> [] then [''COLLATE '' @ c_collate column @ '' ''] else [])
      @ nullabilityClause column @ d
      @ (if c_autoIncrement column then [''AUTO_INCREMENT ''] else [])
      @ (case c_onUpdate column of
           Some v \<Rightarrow> [''ON UPDATE '' @ v_raw v @ '' ''] | None \<Rightarrow> [])
      @ (case c_check column of
           Some (a, chk) \<Rightarrow> [''CHECK ('' @ cd_definition chk @ '') ''] | None \<Rightarrow> [])
      @ (if c_checkNoInherit column then [''NO INHERIT ''] else [])
      @ k @ i"
    unfolding columnClauses_def by (simp add: d k i)
  have "''NOT NULL '' \<notin> set clauses"
    unfolding cl
    using defaultClause_no_not_null[OF d] keyOptionClause_no_not_null[OF k]
      identityClause_no_not_null[OF i] nullabilityClause_identity[OF assms(1)]
      escapeSQLName_no_not_null[of mode "c_name column"]
    by (simp split: option.splits prod.splits)
  moreover have "(''GENERATED '' @ c_identity column @ '' AS IDENTITY '') \<in> set clauses"
    unfolding cl using identityClause_generated[OF assms(1) i] by simp
  moreover have "generateColumnDefinition mode column enableUnique
                   = Inr (trimSuffixSpace (concat clauses))"
    by (simp add: generateColumnDefinition_def assms(2))
  ultimately show ?thesis
    using columnClauses_identity_notNull[OF assms(1) _ assms(2)]
      columnClauses_identity_primary[OF assms(1) _ assms(2)]
    by blast
qed

theorem identity_column_has_no_not_null_witness:
  "generateColumnDefinition GeneratorModePostgres exIdentityColumn True
     = Inr (CHR 0x22 # ''id'' @ [CHR 0x22] @ '' bigint GENERATED ALWAYS AS IDENTITY'')
   \<and> columnClauses GeneratorModePostgres
        (exIdentityColumn \<lparr> c_notNull := None \<rparr>) True
     = Inr [CHR 0x22 # ''id'' @ [CHR 0x22] @ '' bigint '', ''GENERATED ALWAYS AS IDENTITY '']"
proof -
  have h1: "c_identity exIdentityColumn \<noteq> []" by (simp add: exIdentityColumn_def)
  have h2: "columnClauses GeneratorModePostgres exIdentityColumn True
              = Inr [CHR 0x22 # ''id'' @ [CHR 0x22] @ '' bigint '',
                     ''GENERATED ALWAYS AS IDENTITY '']"
    by (simp add: eval_defs)
  have h3: "c_notNull exIdentityColumn = Some True" by (simp add: exIdentityColumn_def)
  from identity_column_has_no_not_null[OF h1 h2] h3
  show ?thesis by (simp add: trimSuffixSpace_def)
qed

section \<open>Diffing a schema against itself\<close>

text \<open>
  Claim C1, as stated: for every dialect and every schema \<open>S\<close>, the generator run with
  \<open>S\<close> as both the desired and the current statements returns the empty list. This
  fails in MySQL mode in two ways. For a table whose primary key column has no explicit
  \<^verbatim>\<open>NOT NULL\<close>, the current side counts the column as nullable, the desired side as
  not null, and a \<^verbatim>\<open>CHANGE COLUMN\<close> is generated. For a table with a column that has a
  check definition, the two sides are parsed separately, the check definitions are at
  different addresses (here 0 and 1), \<^verbatim>\<open>haveSameColumnDefinition\<close> compares the
  addresses, and a \<^verbatim>\<open>CHANGE COLUMN\<close> is generated.
\<close>

theorem identity_fails_for_mysql_primary_key:
  "GenerateIdempotentDDLs GeneratorModeMysql (Inr [exPrimaryDDL]) (Inr [exPrimaryDDL])
     = Inr [''ALTER TABLE `t` CHANGE COLUMN `id` `id` int NOT NULL'']
   \<and> sameContent [exCheckedDDL 0] [exCheckedDDL 1]
   \<and> parsedSeparately [exCheckedDDL 0] [exCheckedDDL 1]
   \<and> GenerateIdempotentDDLs GeneratorModeMysql (Inr [exCheckedDDL 0]) (Inr [exCheckedDDL 1])
     = Inr [''ALTER TABLE `t` CHANGE COLUMN `age` `age` int CHECK (age > 0)'']"
  by (simp add: eval_defs sameContent_def parsedSeparately_def checkAddresses_def
        tableContent_def columnContent_def)

section \<open>A table diffed against itself\<close>

lemma forEachE_Nil: "\<forall>x \<in> set xs. f x = Inr [] \<Longrightarrow> forEachE f xs = Inr []"
  by (induction xs) auto

lemma areSameValue_refl: "areSameValue v v"
  by (cases v) (simp_all add: Let_def)

lemma areSameDefaultValue_refl: "areSameDefaultValue d d"
  by (simp add: areSameDefaultValue_def areSameValue_refl)

lemma areSameCheckDefinition_refl: "areSameCheckDefinition c c"
  by (simp add: areSameCheckDefinition_def split: option.splits)

lemma sameIndexColumns_refl: "sameIndexColumns cs cs"
  by (induction cs) auto

lemma findIndexOptionByName_distinct:
  "distinct (map io_optionName opts) \<Longrightarrow> opt \<in> set opts \<Longrightarrow>
     findIndexOptionByName opts (io_optionName opt) = Some opt"
  by (induction opts) (auto simp: rev_image_eqI)

lemma areSameIndexes_refl:
  assumes "distinct (map io_optionName (i_options i))"
  shows "areSameIndexes i i"
  unfolding areSameIndexes_def sameIndexOptions_iff
  using findIndexOptionByName_distinct[OF assms] areSameValue_refl sameIndexColumns_refl
  by auto

lemma areSameForeignKeys_refl: "areSameForeignKeys mode f f"
  by (simp add: areSameForeignKeys_def)

lemma sameRoles_refl: "sameRoles rs rs"
  by (induction rs) auto

lemma areSamePolicies_refl: "areSamePolicies p p"
  by (simp add: areSamePolicies_def sameRoles_refl)

lemma findColumnByName_distinct:
  "distinct (map c_name cs) \<Longrightarrow> c \<in> set cs \<Longrightarrow> findColumnByName cs (c_name c) = Some c"
  by (induction cs) (auto simp: rev_image_eqI)

lemma findIndexByName_distinct:
  "distinct (map i_name is) \<Longrightarrow> i \<in> set is \<Longrightarrow> findIndexByName is (i_name i) = Some i"
  by (induction "is") (auto simp: rev_image_eqI)

lemma findIndexByName_append:
  "findIndexByName is n = Some i \<Longrightarrow> findIndexByName (is @ js) n = Some i"
  by (induction "is") auto

lemma findForeignKeyByName_distinct:
  "distinct (map fk_constraintName fs) \<Longrightarrow> f \<in> set fs \<Longrightarrow>
     findForeignKeyByName fs (fk_constraintName f) = Some f"
  by (induction fs) (auto simp: rev_image_eqI)

lemma findPolicyByName_distinct:
  "distinct (map p_name ps) \<Longrightarrow> p \<in> set ps \<Longrightarrow> findPolicyByName ps (p_name p) = Some p"
  by (induction ps) (auto simp: rev_image_eqI)

lemma findViewByName_distinct:
  "distinct (map vw_name vs) \<Longrightarrow> v \<in> set vs \<Longrightarrow> findViewByName vs (vw_name v) = Some v"
  by (induction vs) (auto simp: rev_image_eqI)

lemma findPrimaryKey_append:
  "\<forall>i \<in> set js. \<not> i_primary i \<Longrightarrow> findPrimaryKey (is @ js) = findPrimaryKey is"
proof (induction "is")
  case Nil
  then show ?case by (induction js) auto
next
  case (Cons i "is")
  then show ?case by simp
qed

lemma haveSameColumnDefinition_refl:
  assumes "mode = GeneratorModeMysql \<longrightarrow>
             (c_keyOption c = ColumnKeyPrimary \<longrightarrow> c_notNull c = Some True)"
  shows "mode = GeneratorModeMysql \<Longrightarrow> haveSameColumnDefinition mode c c"
  using assms
  by (auto simp: haveSameColumnDefinition_def haveSameDataType_def split: option.splits)

lemma haveSameDataType_refl: "haveSameDataType mode c c"
  by (auto simp: haveSameDataType_def split: option.splits)

lemma unset_autoIncrement: "\<not> c_autoIncrement c \<Longrightarrow> c \<lparr> c_autoIncrement := False \<rparr> = c"
  by simp

text \<open>The column loop.\<close>

lemma examineColumn_self:
  assumes "findColumnByName (t_columns cur) (c_name c) = Some c"
    and "mode = GeneratorModeMysql \<longrightarrow>
           (c_keyOption c = ColumnKeyPrimary \<longrightarrow> c_notNull c = Some True)"
  shows "examineColumn mode cur des i c = Inr []"
proof -
  have d: "(if \<not> c_autoIncrement c then c \<lparr> c_autoIncrement := False \<rparr> else c) = c"
    by simp
  show ?thesis
  proof (cases mode)
    case GeneratorModeMysql
    with assms(2) have "haveSameColumnDefinition GeneratorModeMysql c c"
      using haveSameColumnDefinition_refl[of GeneratorModeMysql c] by simp
    then show ?thesis
      unfolding examineColumn_def assms(1) GeneratorModeMysql
      by (simp add: d changeColumnMysql_def areSameDefaultValue_refl Let_def)
  next
    case GeneratorModePostgres
    show ?thesis
      unfolding examineColumn_def assms(1) GeneratorModePostgres
      by (simp add: d changeColumnPostgres_def haveSameDataType_refl areSameDefaultValue_refl
            areSameCheckDefinition_refl Let_def)
  next
    case GeneratorModeSQLite3
    show ?thesis
      unfolding examineColumn_def assms(1) GeneratorModeSQLite3 by simp
  next
    case GeneratorModeMssql
    show ?thesis
      unfolding examineColumn_def assms(1) GeneratorModeMssql
      by (simp add: d changeColumnMssql_def areSameCheckDefinition_refl Let_def)
  qed
qed

lemma wellFormedTable_primary:
  "wellFormedTable mode t \<Longrightarrow> c \<in> set (t_columns t) \<Longrightarrow>
     mode = GeneratorModeMysql \<longrightarrow> (c_keyOption c = ColumnKeyPrimary \<longrightarrow> c_notNull c = Some True)"
  by (auto simp: wellFormedTable_def list_all_iff split: if_splits)

lemma examineColumns_self:
  assumes "wellFormedTable mode t" and "t_columns des = t_columns t"
  shows "examineColumns mode t des = Inr []"
  unfolding examineColumns_def
proof (rule forEachE_Nil, clarify)
  fix i c
  assume "(i, c) \<in> set (enumerate 0 (t_columns des))"
  then have c: "c \<in> set (t_columns t)" using assms(2) by (auto simp: in_set_enumerate_eq)
  with assms(1) have "findColumnByName (t_columns t) (c_name c) = Some c"
    by (auto simp: wellFormedTable_def intro: findColumnByName_distinct)
  then show "examineColumn mode t des i c = Inr []"
    using wellFormedTable_primary[OF assms(1) c] by (rule examineColumn_self)
qed

lemma removeOldAutoIncrement_self:
  assumes "wellFormedTable mode t" and "t_columns des = t_columns t"
  shows "removeOldAutoIncrement mode t des = Inr []"
proof -
  have "\<forall>c \<in> set (t_columns t). findColumnByName (t_columns des) (c_name c) = Some c"
    using assms by (auto simp: wellFormedTable_def intro: findColumnByName_distinct)
  then show ?thesis
    unfolding removeOldAutoIncrement_def by (auto intro!: forEachE_Nil)
qed

lemma addNewAutoIncrement_self:
  assumes "wellFormedTable mode t" and "t_columns des = t_columns t"
  shows "addNewAutoIncrement mode t des = Inr []"
proof -
  have "\<forall>c \<in> set (t_columns des). findColumnByName (t_columns t) (c_name c) = Some c"
    using assms by (auto simp: wellFormedTable_def intro: findColumnByName_distinct)
  then show ?thesis
    unfolding addNewAutoIncrement_def by (auto intro!: forEachE_Nil)
qed

lemma tableGrows_indexes:
  "tableGrows d t \<Longrightarrow>
     \<exists>zs. t_indexes t = t_indexes d @ zs \<and> (\<forall>i \<in> set zs. \<not> i_primary i)"
  unfolding tableGrows_def prefix_def by (auto simp: list_all_iff)

lemma PrimaryKey_grows: "tableGrows d t \<Longrightarrow> PrimaryKey t = PrimaryKey d"
proof -
  assume g: "tableGrows d t"
  from tableGrows_indexes[OF g] obtain zs where
    "t_indexes t = t_indexes d @ zs" "\<forall>i \<in> set zs. \<not> i_primary i" by blast
  then have i: "findPrimaryKey (t_indexes t) = findPrimaryKey (t_indexes d)"
    by (simp add: findPrimaryKey_append)
  from g have c: "t_columns t = t_columns d" by (simp add: tableGrows_def)
  show ?thesis unfolding PrimaryKey_def i c ..
qed

lemma findPrimaryKey_mem: "findPrimaryKey is = Some i \<Longrightarrow> i \<in> set is"
  by (induction "is") (auto split: if_splits)

lemma areSamePrimaryKeys_self:
  assumes "wellFormedTable mode t" and "tableGrows des t"
  shows "areSamePrimaryKeys (PrimaryKey t) (PrimaryKey des)"
proof -
  have "areSamePrimaryKeys (PrimaryKey des) (PrimaryKey des)"
  proof (cases "findPrimaryKey (t_indexes des)")
    case None
    then show ?thesis
      by (auto simp: areSamePrimaryKeys_def PrimaryKey_def Let_def areSameIndexes_def
            sameIndexColumns_refl)
  next
    case (Some pk)
    then have "pk \<in> set (t_indexes des)" by (rule findPrimaryKey_mem)
    with assms(2) have "pk \<in> set (t_indexes t)" by (auto simp: tableGrows_def prefix_def)
    with assms(1) have "distinct (map io_optionName (i_options pk))"
      by (auto simp: wellFormedTable_def list_all_iff)
    then have "areSameIndexes pk pk" by (rule areSameIndexes_refl)
    with Some show ?thesis by (simp add: areSamePrimaryKeys_def PrimaryKey_def)
  qed
  then show ?thesis unfolding PrimaryKey_grows[OF assms(2)] .
qed

lemma examinePrimaryKey_self:
  assumes "wellFormedTable mode t" and "tableGrows des t"
  shows "examinePrimaryKey mode t des = Inr []"
  using areSamePrimaryKeys_self[OF assms] by (simp add: examinePrimaryKey_def Let_def)

lemma examineIndexes_self:
  assumes "wellFormedTable mode t" and "tableGrows des t"
  shows "examineIndexes mode t des = Inr []"
  unfolding examineIndexes_def
proof (rule forEachE_Nil, rule ballI)
  fix i
  assume "i \<in> set (t_indexes des)"
  with assms(2) have m: "i \<in> set (t_indexes t)" by (auto simp: tableGrows_def prefix_def)
  with assms(1) have "findIndexByName (t_indexes t) (i_name i) = Some i"
    by (auto simp: wellFormedTable_def intro: findIndexByName_distinct)
  moreover from assms(1) m have "areSameIndexes i i"
    by (auto simp: wellFormedTable_def list_all_iff intro: areSameIndexes_refl)
  ultimately show "(if i_primary i then Inr []
          else case findIndexByName (t_indexes t) (i_name i) of
               None \<Rightarrow>
                 (case returnDDLs (generateAddIndex mode (t_name des) i) of
                    Inl fl \<Rightarrow> Inl fl | Inr ddl \<Rightarrow> Inr [ddl])
               | Some currentIndex \<Rightarrow>
                   if \<not> areSameIndexes currentIndex i
                   then case returnDDLs (generateAddIndex mode (t_name des) i) of
                          Inl fl \<Rightarrow> Inl fl
                        | Inr ddl \<Rightarrow> Inr [generateDropIndex mode (t_name des) (i_name i), ddl]
                   else Inr []) = Inr []"
    by simp
qed

lemma examineForeignKeys_self:
  assumes "wellFormedTable mode t" and "tableGrows des t"
  shows "examineForeignKeys mode t des = Inr []"
  unfolding examineForeignKeys_def
proof (rule forEachE_Nil, rule ballI)
  fix f
  assume "f \<in> set (t_foreignKeys des)"
  with assms(2) have m: "f \<in> set (t_foreignKeys t)" by (auto simp: tableGrows_def prefix_def)
  with assms(1) have "findForeignKeyByName (t_foreignKeys t) (fk_constraintName f) = Some f"
    and "fk_constraintName f \<noteq> []"
    by (auto simp: wellFormedTable_def list_all_iff intro: findForeignKeyByName_distinct)
  then show "examineForeignKey mode t des f = Inr []"
    by (simp add: examineForeignKey_def areSameForeignKeys_refl)
qed

text \<open>The diff of a well-formed folded table against the table it has grown from.\<close>

lemma generateDDLsForCreateTable_self:
  assumes "wellFormedTable mode t" and "tableGrows des t"
  shows "generateDDLsForCreateTable mode t des = Inr []"
proof -
  from assms(2) have c: "t_columns des = t_columns t" by (simp add: tableGrows_def)
  show ?thesis
    unfolding generateDDLsForCreateTable_def
    by (simp add: examineColumns_self[OF assms(1) c] removeOldAutoIncrement_self[OF assms(1) c]
          examinePrimaryKey_self[OF assms] examineIndexes_self[OF assms]
          addNewAutoIncrement_self[OF assms(1) c] examineForeignKeys_self[OF assms])
qed

section \<open>Desired statements with the content of the current ones\<close>

lemma columnContent_fields:
  assumes "columnContent a = columnContent b"
  shows "c_name a = c_name b \<and> c_typeName a = c_typeName b \<and> c_notNull a = c_notNull b
       \<and> c_autoIncrement a = c_autoIncrement b \<and> c_array a = c_array b
       \<and> c_defaultDef a = c_defaultDef b \<and> c_length a = c_length b
       \<and> c_checkNoInherit a = c_checkNoInherit b \<and> c_keyOption a = c_keyOption b
       \<and> c_identity a = c_identity b \<and> c_sequence a = c_sequence b
       \<and> map_option snd (c_check a) = map_option snd (c_check b)"
  using assms
  by (cases "c_check a"; cases "c_check b") (auto simp: columnContent_def)

lemma columnContent_no_check:
  assumes "columnContent a = columnContent b" and "c_check b = None"
  shows "a = b"
  using assms by (cases a; cases b) (simp add: columnContent_def)

lemma map_columnContent_no_check:
  "map columnContent as = map columnContent bs \<Longrightarrow> \<forall>b \<in> set bs. c_check b = None \<Longrightarrow>
     as = bs"
proof (induction bs arbitrary: as)
  case Nil
  then show ?case by simp
next
  case (Cons b bs)
  then obtain a as' where as: "as = a # as'" by (cases as) auto
  with Cons.prems have "columnContent a = columnContent b" "c_check b = None"
    "map columnContent as' = map columnContent bs" "\<forall>b \<in> set bs. c_check b = None"
    by auto
  with Cons.IH[of as'] columnContent_no_check[of a b] as show ?case by simp
qed

lemma tableContent_fields:
  assumes "tableContent a = tableContent b"
  shows "t_name a = t_name b \<and> map columnContent (t_columns a) = map columnContent (t_columns b)
       \<and> t_indexes a = t_indexes b \<and> t_foreignKeys a = t_foreignKeys b
       \<and> t_policies a = t_policies b"
  using assms by (simp add: tableContent_def)

lemma tableContent_no_check:
  assumes "tableContent a = tableContent b" and "\<forall>c \<in> set (t_columns b). c_check c = None"
  shows "a = b"
proof -
  from tableContent_fields[OF assms(1)] map_columnContent_no_check[OF _ assms(2)]
  have "t_name a = t_name b" "t_columns a = t_columns b" "t_indexes a = t_indexes b"
    "t_foreignKeys a = t_foreignKeys b" "t_policies a = t_policies b"
    by auto
  then show ?thesis by simp
qed

lemma map_content_mem:
  "map f as = map f bs \<Longrightarrow> a \<in> set as \<Longrightarrow> \<exists>b \<in> set bs. f a = f b"
  by (metis image_iff list.set_map)

lemma areSameCheckDefinition_content:
  "map_option snd x = map_option snd y \<Longrightarrow> areSameCheckDefinition y x"
  by (cases x; cases y) (auto simp: areSameCheckDefinition_def)

text \<open>
  Outside MySQL mode, a desired column with the content of the current column of its name
  gives no statement.
\<close>

lemma examineColumn_same_content:
  assumes "findColumnByName (t_columns cur) (c_name c') = Some c"
    and "columnContent c' = columnContent c"
    and "mode \<noteq> GeneratorModeMysql"
  shows "examineColumn mode cur des i c' = Inr []"
proof -
  note eq = columnContent_fields[OF assms(2)]
  have chk: "areSameCheckDefinition (c_check c) (c_check c')"
    using eq by (simp add: areSameCheckDefinition_content)
  have dt: "haveSameDataType mode c (c' \<lparr> c_autoIncrement := a \<rparr>)" for a
    using eq by (auto simp: haveSameDataType_def split: option.splits)
  have nn: "notNull mode (c' \<lparr> c_autoIncrement := a \<rparr>) = notNull mode c" for a
    using eq by (simp add: notNull_def split: option.splits GeneratorMode.splits)
  have dv: "areSameDefaultValue (c_defaultDef c) (c_defaultDef c')"
    using eq by (simp add: areSameDefaultValue_refl)
  have upd: "c' \<lparr> c_autoIncrement := c_autoIncrement c' \<rparr> = c'" by simp
  show ?thesis
  proof (cases mode)
    case GeneratorModeMysql
    with assms(3) show ?thesis by simp
  next
    case GeneratorModePostgres
    have "changeColumnPostgres cur des c (c' \<lparr> c_autoIncrement := a \<rparr>) = Inr []" for a
      using eq chk dv dt[of a] nn[of a] unfolding GeneratorModePostgres
      by (simp add: changeColumnPostgres_def Let_def)
    from this[of False] this[of "c_autoIncrement c'"] show ?thesis
      unfolding examineColumn_def assms(1) GeneratorModePostgres by (simp add: upd)
  next
    case GeneratorModeSQLite3
    show ?thesis
      unfolding examineColumn_def assms(1) GeneratorModeSQLite3 by simp
  next
    case GeneratorModeMssql
    have "changeColumnMssql des c (c' \<lparr> c_autoIncrement := a \<rparr>) = []" for a
      using eq chk by (simp add: changeColumnMssql_def Let_def)
    from this[of False] this[of "c_autoIncrement c'"] show ?thesis
      unfolding examineColumn_def assms(1) GeneratorModeMssql by (simp add: upd)
  qed
qed

lemma PrimaryKey_content:
  assumes "tableContent a = tableContent b"
  shows "PrimaryKey a = PrimaryKey b"
proof -
  let ?P = "\<lambda>c. c_keyOption c = ColumnKeyPrimary"
  let ?ic = "\<lambda>c. \<lparr> ic_column = c_name c, ic_length = None \<rparr>"
  have cols: "map columnContent as = map columnContent bs \<Longrightarrow>
                map ?ic (filter ?P as) = map ?ic (filter ?P bs)" for as bs
  proof (induction bs arbitrary: as)
    case Nil
    then show ?case by simp
  next
    case (Cons b bs)
    then obtain a as' where as: "as = a # as'" by (cases as) auto
    with Cons.prems have "columnContent a = columnContent b"
      "map columnContent as' = map columnContent bs" by auto
    with Cons.IH[of as'] columnContent_fields[of a b] as show ?case by simp
  qed
  note f = tableContent_fields[OF assms]
  from cols[of "t_columns a" "t_columns b"] f
  have m: "map ?ic (filter ?P (t_columns a)) = map ?ic (filter ?P (t_columns b))" by simp
  then have "(filter ?P (t_columns a) = []) = (filter ?P (t_columns b) = [])"
    by (metis map_is_Nil_conv)
  with m f show ?thesis by (auto simp: PrimaryKey_def Let_def split: option.splits)
qed

text \<open>
  The diff of a well-formed folded table against a desired table that has the content of
  a table it has grown from.
\<close>

lemma generateDDLsForCreateTable_same_content:
  assumes "wellFormedTable mode t" and "tableGrows des t"
    and "tableContent des' = tableContent des"
  shows "generateDDLsForCreateTable mode t des' = Inr []"
proof (cases "mode = GeneratorModeMysql")
  case True
  with assms(1) have "\<forall>c \<in> set (t_columns t). c_check c = None"
    by (auto simp: wellFormedTable_def list_all_iff)
  with assms(2) have "\<forall>c \<in> set (t_columns des). c_check c = None"
    by (simp add: tableGrows_def)
  from tableContent_no_check[OF assms(3) this] have "des' = des" .
  with generateDDLsForCreateTable_self[OF assms(1,2)] show ?thesis by simp
next
  case False
  note f = tableContent_fields[OF assms(3)]
  from assms(2) have c: "t_columns des = t_columns t" by (simp add: tableGrows_def)
  have 1: "examineColumns mode t des' = Inr []"
    unfolding examineColumns_def
  proof (rule forEachE_Nil, clarify)
    fix i c'
    assume "(i, c') \<in> set (enumerate 0 (t_columns des'))"
    then have "c' \<in> set (t_columns des')" by (auto simp: in_set_enumerate_eq)
    from map_content_mem[OF _ this, of columnContent "t_columns t"] f c
    obtain c where m: "c \<in> set (t_columns t)" and cc: "columnContent c' = columnContent c"
      by auto
    from assms(1) m have "findColumnByName (t_columns t) (c_name c) = Some c"
      by (auto simp: wellFormedTable_def intro: findColumnByName_distinct)
    with columnContent_fields[OF cc]
    have "findColumnByName (t_columns t) (c_name c') = Some c" by simp
    then show "examineColumn mode t des' i c' = Inr []"
      using cc False by (rule examineColumn_same_content)
  qed
  have 2: "removeOldAutoIncrement mode t des' = Inr []"
    using False by (simp add: removeOldAutoIncrement_def)
  have 3: "examinePrimaryKey mode t des' = Inr []"
    using areSamePrimaryKeys_self[OF assms(1,2)]
    by (simp add: examinePrimaryKey_def Let_def PrimaryKey_content[OF assms(3)])
  from f have fn: "t_name des' = t_name des" and fi: "t_indexes des' = t_indexes des"
    and ff: "t_foreignKeys des' = t_foreignKeys des" by simp_all
  have 4: "examineIndexes mode t des' = Inr []"
    using examineIndexes_self[OF assms(1,2)] unfolding examineIndexes_def fn fi .
  have 5: "addNewAutoIncrement mode t des' = Inr []"
    using False by (simp add: addNewAutoIncrement_def)
  have 6: "examineForeignKeys mode t des' = Inr []"
    using examineForeignKeys_self[OF assms(1,2)]
    unfolding examineForeignKeys_def examineForeignKey_def fn ff .
  show ?thesis
    unfolding generateDDLsForCreateTable_def by (simp add: 1 2 3 4 5 6)
qed

text \<open>Lists of tables with the same content, looked up and updated by name.\<close>

lemma findTableByName_content:
  "map tableContent as = map tableContent bs \<Longrightarrow> findTableByName bs n = Some b \<Longrightarrow>
     \<exists>a. findTableByName as n = Some a \<and> tableContent a = tableContent b"
proof (induction bs arbitrary: as)
  case Nil
  then show ?case by simp
next
  case (Cons x bs)
  then obtain y as' where as: "as = y # as'" by (cases as) auto
  with Cons.prems have h: "tableContent y = tableContent x"
    "map tableContent as' = map tableContent bs" by auto
  from tableContent_fields[OF h(1)] have n: "t_name y = t_name x" by simp
  show ?case
  proof (cases "t_name x = n")
    case True
    with Cons.prems(2) h(1) n as show ?thesis by simp
  next
    case False
    with Cons.prems(2) have "findTableByName bs n = Some b" by simp
    from Cons.IH[OF h(2) this] False n as show ?thesis by simp
  qed
qed

lemma names_content:
  assumes "map tableContent as = map tableContent bs"
  shows "map t_name as = map t_name bs"
proof -
  have "map t_name as = map t_name (map tableContent as)"
    by (simp add: tableContent_def)
  also have "\<dots> = map t_name (map tableContent bs)" by (simp only: assms)
  also have "\<dots> = map t_name bs" by (simp add: tableContent_def)
  finally show ?thesis .
qed

lemma updateTableByName_content:
  "map tableContent as = map tableContent bs \<Longrightarrow> tableContent a = tableContent b \<Longrightarrow>
     map tableContent (updateTableByName as n a) = map tableContent (updateTableByName bs n b)"
proof (induction bs arbitrary: as)
  case Nil
  then show ?case by simp
next
  case (Cons x bs)
  then obtain y as' where as: "as = y # as'" by (cases as) auto
  with Cons.prems have h: "tableContent y = tableContent x"
    "map tableContent as' = map tableContent bs" by auto
  from tableContent_fields[OF h(1)] have "t_name y = t_name x" by simp
  with Cons.IH[OF h(2) Cons.prems(2)] h Cons.prems(2) as show ?case by simp
qed

lemma statementContent_cases:
  assumes "statementContent d' = statementContent d"
  shows "(\<exists>s tbl tbl'. d = CreateTable s tbl \<and> d' = CreateTable s tbl'
                        \<and> tableContent tbl' = tableContent tbl)
       \<or> ((\<forall>s tbl. d \<noteq> CreateTable s tbl) \<and> d' = d)"
  using assms by (cases d; cases d') auto

section \<open>The fold of a schema\<close>

lemma convertDDLsToTablesFrom_append:
  "convertDDLsToTablesFrom D (xs @ ys) =
     (case convertDDLsToTablesFrom D xs of
        Inl e \<Rightarrow> Inl e
      | Inr D1 \<Rightarrow> convertDDLsToTablesFrom D1 ys)"
  by (induction xs arbitrary: D) (auto split: sum.splits)

lemma convertDDLsToViews_append:
  "convertDDLsToViews (xs @ ys) = convertDDLsToViews xs @ convertDDLsToViews ys"
proof (induction xs)
  case Nil
  then show ?case by simp
next
  case (Cons d xs)
  then show ?case by (cases d) auto
qed

lemma findTableByName_distinct:
  "distinct (map t_name ts) \<Longrightarrow> t \<in> set ts \<Longrightarrow> findTableByName ts (t_name t) = Some t"
  by (induction ts) (auto simp: rev_image_eqI)

lemma updateTableByName_same:
  "findTableByName ts n = Some t \<Longrightarrow> updateTableByName ts n t = ts"
  by (induction ts) (auto split: if_splits)

lemma set_updateTableByName: "set (updateTableByName ts n t') \<subseteq> insert t' (set ts)"
  by (induction ts) auto

lemma tableGrows_refl: "tableGrows t t"
  by (simp add: tableGrows_def)

lemma tableGrows_trans:
  assumes "tableGrows d t" and "tableGrows t u"
  shows "tableGrows d u"
proof -
  from tableGrows_indexes[OF assms(1)] obtain z1 where
    z1: "t_indexes t = t_indexes d @ z1" "\<forall>i \<in> set z1. \<not> i_primary i" by blast
  from tableGrows_indexes[OF assms(2)] obtain z2 where
    z2: "t_indexes u = t_indexes t @ z2" "\<forall>i \<in> set z2. \<not> i_primary i" by blast
  have "t_indexes u = t_indexes d @ (z1 @ z2)" using z1 z2 by simp
  moreover have "\<forall>i \<in> set (z1 @ z2). \<not> i_primary i" using z1 z2 by auto
  ultimately have "prefix (t_indexes d) (t_indexes u)"
    and "list_all (\<lambda>i. \<not> i_primary i) (drop (length (t_indexes d)) (t_indexes u))"
    by (auto simp: list_all_iff)
  moreover from assms have "prefix (t_foreignKeys d) (t_foreignKeys u)"
    and "prefix (t_policies d) (t_policies u)"
    by (auto simp: tableGrows_def)
  ultimately show ?thesis using assms by (simp add: tableGrows_def)
qed

lemma tableGrows_add_index:
  "\<not> i_primary i \<Longrightarrow> tableGrows t (t \<lparr> t_indexes := t_indexes t @ [i] \<rparr>)"
  by (simp add: tableGrows_def)

lemma tableGrows_add_foreignKey:
  "tableGrows t (t \<lparr> t_foreignKeys := t_foreignKeys t @ [f] \<rparr>)"
  by (simp add: tableGrows_def)

lemma tableGrows_add_policy: "tableGrows t (t \<lparr> t_policies := t_policies t @ [p] \<rparr>)"
  by (simp add: tableGrows_def)

text \<open>One statement of the fold: the table names are kept, and each table grows.\<close>

lemma convertDDLToTables_names:
  "convertDDLToTables D d = Inr D' \<Longrightarrow> prefix (map t_name D) (map t_name D')"
  by (cases d)
     (auto split: option.splits if_splits sum.splits
           dest!: findTableByName_Some_D simp: map_name_updateTableByName)

lemma convertDDLToTables_grows:
  assumes "convertDDLToTables D d = Inr D'" and "admittedStatement d"
    and "findTableByName D n = Some x"
  shows "\<exists>y. findTableByName D' n = Some y \<and> tableGrows x y"
proof (cases d)
  case (CreateTable s tbl)
  with assms show ?thesis by (auto simp: findTableByName_append tableGrows_refl)
next
  case (CreateIndex s m i)
  with assms obtain u where u: "findTableByName D m = Some u"
    and D': "D' = updateTableByName D m (u \<lparr> t_indexes := t_indexes u @ [i] \<rparr>)"
    and i: "\<not> i_primary i"
    by (auto split: option.splits)
  from findTableByName_Some_D[OF u]
  have "t_name (u \<lparr> t_indexes := t_indexes u @ [i] \<rparr>) = m" by simp
  from findTableByName_update[OF this u, of n] assms(3) u i show ?thesis
    unfolding D' by (auto simp: tableGrows_refl tableGrows_add_index)
next
  case (AddForeignKey s m f)
  with assms obtain u where u: "findTableByName D m = Some u"
    and D': "D' = updateTableByName D m (u \<lparr> t_foreignKeys := t_foreignKeys u @ [f] \<rparr>)"
    by (auto split: option.splits)
  from findTableByName_Some_D[OF u]
  have "t_name (u \<lparr> t_foreignKeys := t_foreignKeys u @ [f] \<rparr>) = m" by simp
  from findTableByName_update[OF this u, of n] assms(3) u show ?thesis
    unfolding D' by (auto simp: tableGrows_refl tableGrows_add_foreignKey)
next
  case (AddPolicy s m p)
  with assms obtain u where u: "findTableByName D m = Some u"
    and D': "D' = updateTableByName D m (u \<lparr> t_policies := t_policies u @ [p] \<rparr>)"
    by (auto split: option.splits)
  from findTableByName_Some_D[OF u]
  have "t_name (u \<lparr> t_policies := t_policies u @ [p] \<rparr>) = m" by simp
  from findTableByName_update[OF this u, of n] assms(3) u show ?thesis
    unfolding D' by (auto simp: tableGrows_refl tableGrows_add_policy)
next
  case (CreateView v)
  with assms show ?thesis by (auto simp: tableGrows_refl)
next
  case (AddIndex s m i)
  with assms show ?thesis by simp
next
  case (AddPrimaryKey s m i)
  with assms show ?thesis by simp
qed

lemma convertDDLsToTablesFrom_names:
  "convertDDLsToTablesFrom D xs = Inr T \<Longrightarrow> prefix (map t_name D) (map t_name T)"
proof (induction xs arbitrary: D)
  case Nil
  then show ?case by simp
next
  case (Cons d xs)
  from Cons.prems obtain D1 where s: "convertDDLToTables D d = Inr D1"
    and r: "convertDDLsToTablesFrom D1 xs = Inr T"
    by (auto split: sum.splits)
  from convertDDLToTables_names[OF s] Cons.IH[OF r] show ?case
    by (rule prefix_order.order_trans)
qed

lemma convertDDLsToTablesFrom_grows:
  "convertDDLsToTablesFrom D xs = Inr T \<Longrightarrow> list_all admittedStatement xs \<Longrightarrow>
   findTableByName D n = Some x \<Longrightarrow> \<exists>y. findTableByName T n = Some y \<and> tableGrows x y"
proof (induction xs arbitrary: D x)
  case Nil
  then show ?case by (auto simp: tableGrows_refl)
next
  case (Cons d xs)
  from Cons.prems(1) obtain D1 where s: "convertDDLToTables D d = Inr D1"
    and r: "convertDDLsToTablesFrom D1 xs = Inr T"
    by (auto split: sum.splits)
  from Cons.prems(2) have a: "admittedStatement d" "list_all admittedStatement xs" by auto
  from convertDDLToTables_grows[OF s a(1) Cons.prems(3)] obtain y1 where
    y1: "findTableByName D1 n = Some y1" "tableGrows x y1" by blast
  from Cons.IH[OF r a(2) y1(1)] obtain y where
    "findTableByName T n = Some y" "tableGrows y1 y" by blast
  with y1(2) show ?case by (auto intro: tableGrows_trans)
qed

section \<open>The merged current table\<close>

lemma mergeColumns_shape: "\<exists>zs. mergeColumns cs ds = cs @ zs \<and> set zs \<subseteq> set ds"
proof (induction ds arbitrary: cs)
  case Nil
  then show ?case by simp
next
  case (Cons d ds)
  show ?case
  proof (cases "containsString (convertColumnsToColumnNames cs) (c_name d)")
    case True
    from Cons.IH[of "cs @ [d]"] obtain zs where
      "mergeColumns (cs @ [d]) ds = (cs @ [d]) @ zs" "set zs \<subseteq> set ds" by blast
    with True have "mergeColumns cs (d # ds) = cs @ (d # zs)" "set (d # zs) \<subseteq> set (d # ds)"
      by auto
    then show ?thesis by blast
  next
    case False
    from Cons.IH[of cs] obtain zs where
      "mergeColumns cs ds = cs @ zs" "set zs \<subseteq> set ds" by blast
    with False have "mergeColumns cs (d # ds) = cs @ zs" "set zs \<subseteq> set (d # ds)" by auto
    then show ?thesis by blast
  qed
qed

lemma mergeIndexes_shape: "\<exists>zs. mergeIndexes cs ds = cs @ zs \<and> set zs \<subseteq> set ds"
proof (induction ds arbitrary: cs)
  case Nil
  then show ?case by simp
next
  case (Cons d ds)
  show ?case
  proof (cases "containsString (convertIndexesToIndexNames cs) (i_name d)")
    case True
    from Cons.IH[of "cs @ [d]"] obtain zs where
      "mergeIndexes (cs @ [d]) ds = (cs @ [d]) @ zs" "set zs \<subseteq> set ds" by blast
    with True have "mergeIndexes cs (d # ds) = cs @ (d # zs)" "set (d # zs) \<subseteq> set (d # ds)"
      by auto
    then show ?thesis by blast
  next
    case False
    from Cons.IH[of cs] obtain zs where
      "mergeIndexes cs ds = cs @ zs" "set zs \<subseteq> set ds" by blast
    with False have "mergeIndexes cs (d # ds) = cs @ zs" "set zs \<subseteq> set (d # ds)" by auto
    then show ?thesis by blast
  qed
qed

lemma tableMerged_refl: "tableMerged t t"
  by (simp add: tableMerged_def)

lemma tableMerged_mergeTable:
  assumes "tableGrows des t" and "tableContent des' = tableContent des"
  shows "tableMerged (mergeTable t des') t"
proof -
  note f = tableContent_fields[OF assms(2)]
  from mergeColumns_shape[of "t_columns t" "t_columns des'"] obtain xs where
    xs: "mergeColumns (t_columns t) (t_columns des') = t_columns t @ xs"
    "set xs \<subseteq> set (t_columns des')" by blast
  from mergeIndexes_shape[of "t_indexes t" "t_indexes des'"] obtain ys where
    ys: "mergeIndexes (t_indexes t) (t_indexes des') = t_indexes t @ ys"
    "set ys \<subseteq> set (t_indexes des')" by blast
  have "c_name x \<in> c_name ` set (t_columns t)" if "x \<in> set xs" for x
  proof -
    from that xs(2) have "x \<in> set (t_columns des')" by auto
    from map_content_mem[OF _ this, of columnContent "t_columns des"] f
    obtain c where "c \<in> set (t_columns des)" "columnContent x = columnContent c" by auto
    with columnContent_fields[of x c] assms(1) show ?thesis
      by (auto simp: tableGrows_def)
  qed
  moreover from assms(1) f have "set (t_indexes des') \<subseteq> set (t_indexes t)"
    by (auto simp: tableGrows_def prefix_def)
  ultimately show ?thesis using xs ys by (auto simp: tableMerged_def mergeTable_def)
qed

text \<open>
  The clean-up of a merged table against a desired table with the content of the folded
  table gives no statement.
\<close>

lemma cleanUpTable_merged:
  assumes "tableMerged c t" and "tableContent t' = tableContent t"
  shows "cleanUpTable mode c t' = Inr []"
proof -
  note e = tableContent_fields[OF assms(2)]
  have "c_name \<circ> columnContent = c_name" by (auto simp: columnContent_def)
  moreover from e have "map c_name (map columnContent (t_columns t'))
                 = map c_name (map columnContent (t_columns t))" by simp
  ultimately have n: "map c_name (t_columns t') = map c_name (t_columns t)" by simp
  from assms(1) e have f: "t_foreignKeys c = t_foreignKeys t'" and p: "t_policies c = t_policies t'"
    and i: "set (t_indexes c) \<subseteq> set (t_indexes t')"
    by (auto simp: tableMerged_def)
  from assms(1) have "c_name ` set (t_columns c) \<subseteq> set (map c_name (t_columns t))"
    by (auto simp: tableMerged_def)
  with n have cs: "c_name ` set (t_columns c) \<subseteq> set (map c_name (t_columns t'))" by simp
  have 1: "dropObsoleteForeignKeys mode c t' = []"
    unfolding dropObsoleteForeignKeys_def f
    by (auto simp: containsString_iff convertForeignKeysToConstraintNames_def)
  have 2: "dropObsoleteIndexes mode c t' = Inr []"
    unfolding dropObsoleteIndexes_def using i
    by (intro forEachE_Nil) (auto simp: containsString_iff convertIndexesToIndexNames_def)
  have 3: "dropObsoleteColumns mode c t' = []"
    unfolding dropObsoleteColumns_def using cs
    by (auto simp: containsString_iff convertColumnsToColumnNames_def)
  have 4: "dropObsoletePolicies mode c t' = []"
    unfolding dropObsoletePolicies_def p
    by (auto simp: containsString_iff convertPolicyNames_def)
  show ?thesis by (simp add: cleanUpTable_def 1 2 3 4)
qed

lemma cleanUpTables_Nil:
  "\<forall>c \<in> set snap. \<exists>t. findTableByName dts (t_name c) = Some t
                        \<and> cleanUpTable mode c t = Inr [] \<Longrightarrow>
     cleanUpTables mode dts cts snap = Inr []"
  by (induction snap) auto

lemma cleanUpViews_self: "cleanUpViews mode vs vs = []"
  by (auto simp: cleanUpViews_def containsString_iff convertViewNames_def)

section \<open>The walk over a schema diffed against itself\<close>

lemma selfDiffState_lookup:
  assumes "selfDiffState mode S T seen g" and "findTableByName T n = Some t"
  shows "\<exists>c. findTableByName (g_currentTables g) n = Some c
            \<and> (if n \<in> t_name ` set (g_desiredTables g) then tableMerged c t else c = t)"
proof -
  from assms(1) have names: "map t_name (g_currentTables g) = map t_name T"
    and inv: "\<forall>c \<in> set (g_currentTables g).
                \<exists>t. findTableByName T (t_name c) = Some t
                   \<and> (if t_name c \<in> t_name ` set (g_desiredTables g) then tableMerged c t
                       else c = t)"
    by (auto simp: selfDiffState_def)
  from findTableByName_Some_D[OF assms(2)] have "n \<in> t_name ` set T" by auto
  with names have "n \<in> t_name ` set (g_currentTables g)" by (metis set_map)
  then obtain c where c: "findTableByName (g_currentTables g) n = Some c"
    using findTableByName_None_iff[of "g_currentTables g" n] by auto
  from findTableByName_Some_D[OF c] inv assms(2) c show ?thesis by fastforce
qed

lemma selfDiffState_desired:
  assumes "selfDiffState mode S T seen g" and "convertDDLsToTablesFrom [] seen = Inr D"
  shows "map tableContent (g_desiredTables g) = map tableContent D"
    and "t_name ` set (g_desiredTables g) = t_name ` set D"
proof -
  from assms show c: "map tableContent (g_desiredTables g) = map tableContent D"
    by (simp add: selfDiffState_def)
  from names_content[OF c] show "t_name ` set (g_desiredTables g) = t_name ` set D"
    by (metis set_map)
qed

lemma selfDiffState_current:
  assumes "selfDiffState mode S T seen g" and "convertDDLsToTablesFrom [] seen = Inr D"
    and "c \<in> set (g_currentTables g)"
  shows "\<exists>t. findTableByName T (t_name c) = Some t
            \<and> (if t_name c \<in> t_name ` set D then tableMerged c t else c = t)"
  using assms(1,3) unfolding selfDiffState_desired(2)[OF assms(1,2), symmetric]
  by (simp add: selfDiffState_def)

lemma selfDiffStateI:
  assumes "g_mode g = mode" and "convertDDLsToTablesFrom [] seen = Inr D"
    and "map tableContent (g_desiredTables g) = map tableContent D"
    and "g_desiredViews g = convertDDLsToViews seen"
    and "g_currentViews g = convertDDLsToViews S"
    and "map t_name (g_currentTables g) = map t_name T"
    and "\<And>c. c \<in> set (g_currentTables g) \<Longrightarrow>
           \<exists>t. findTableByName T (t_name c) = Some t
              \<and> (if t_name c \<in> t_name ` set D then tableMerged c t else c = t)"
  shows "selfDiffState mode S T seen g"
proof -
  from names_content[OF assms(3)] have "t_name ` set (g_desiredTables g) = t_name ` set D"
    by (metis set_map)
  with assms show ?thesis by (simp add: selfDiffState_def)
qed

lemma selfDiffState_fold_step:
  assumes "convertDDLsToTablesFrom [] seen = Inr D"
    and "convertDDLToTables D d = Inr D'"
  shows "convertDDLsToTablesFrom [] (seen @ [d]) = Inr D'"
  using assms by (simp add: convertDDLsToTablesFrom_append)

lemma selfDiffState_CreateTable:
  assumes st: "selfDiffState mode S T seen g"
    and D: "convertDDLsToTablesFrom [] seen = Inr D"
    and dn: "distinct (map t_name (D @ [tbl]))"
    and gr: "\<forall>n x. findTableByName (D @ [tbl]) n = Some x \<longrightarrow>
                (\<exists>y. findTableByName T n = Some y \<and> tableGrows x y)"
    and wf: "list_all (wellFormedTable mode) T"
    and same: "tableContent tbl' = tableContent tbl"
  shows "\<exists>g'. generateDDL g (CreateTable s tbl') = Inr ([], g')
             \<and> selfDiffState mode S T (seen @ [CreateTable s tbl]) g'"
proof -
  let ?n = "t_name tbl"
  let ?G = "g_desiredTables g"
  note G = selfDiffState_desired[OF st D]
  from tableContent_fields[OF same] have n': "t_name tbl' = ?n" by simp
  from dn have fresh: "?n \<notin> t_name ` set D" by auto
  with G(2) have freshG: "?n \<notin> t_name ` set ?G" by simp
  from fresh have "findTableByName (D @ [tbl]) ?n = Some tbl"
    using findTableByName_None_iff[of D ?n] by (simp add: findTableByName_append)
  with gr obtain t where t: "findTableByName T ?n = Some t" and g: "tableGrows tbl t" by blast
  from selfDiffState_lookup[OF st t] freshG
  have cur: "findTableByName (g_currentTables g) ?n = Some t" by auto
  from findTableByName_Some_D[OF t] wf have wft: "wellFormedTable mode t" and nt: "t_name t = ?n"
    by (auto simp: list_all_iff)
  from st have mode: "g_mode g = mode" and dvs: "g_desiredViews g = convertDDLsToViews seen"
    and cvs: "g_currentViews g = convertDDLsToViews S"
    and names: "map t_name (g_currentTables g) = map t_name T"
    by (auto simp: selfDiffState_def)
  let ?g' = "g \<lparr> g_currentTables :=
                   updateTableByName (g_currentTables g) ?n (mergeTable t tbl'),
                 g_desiredTables := ?G @ [tbl'] \<rparr>"
  have run: "generateDDL g (CreateTable s tbl') = Inr ([], ?g')"
    by (simp add: n' cur mode generateDDLsForCreateTable_same_content[OF wft g same])
  have nm: "t_name (mergeTable t tbl') = ?n" using nt by (simp add: mergeTable_def)
  have inv: "\<exists>t'. findTableByName T (t_name c) = Some t'
               \<and> (if t_name c \<in> t_name ` set (D @ [tbl]) then tableMerged c t' else c = t')"
    if c: "c \<in> set (updateTableByName (g_currentTables g) ?n (mergeTable t tbl'))" for c
  proof (cases "c = mergeTable t tbl'")
    case True
    with t nm tableMerged_mergeTable[OF g same] show ?thesis by auto
  next
    case False
    with c set_updateTableByName[of "g_currentTables g" ?n "mergeTable t tbl'"]
    have "c \<in> set (g_currentTables g)" by auto
    from selfDiffState_current[OF st D this] obtain t' where
      t': "findTableByName T (t_name c) = Some t'"
      "if t_name c \<in> t_name ` set D then tableMerged c t' else c = t'"
      by blast
    then show ?thesis by (auto simp: tableMerged_refl split: if_splits)
  qed
  have "selfDiffState mode S T (seen @ [CreateTable s tbl]) ?g'"
  proof (rule selfDiffStateI[where D = "D @ [tbl]"])
    show "convertDDLsToTablesFrom [] (seen @ [CreateTable s tbl]) = Inr (D @ [tbl])"
      by (rule selfDiffState_fold_step[OF D]) simp
    show "map tableContent (g_desiredTables ?g') = map tableContent (D @ [tbl])"
      using G(1) same by simp
    show "map t_name (g_currentTables ?g') = map t_name T"
      using names by (simp add: map_name_updateTableByName[OF nm])
    show "\<exists>t. findTableByName T (t_name c) = Some t
             \<and> (if t_name c \<in> t_name ` set (D @ [tbl]) then tableMerged c t else c = t)"
      if "c \<in> set (g_currentTables ?g')" for c
      using inv[of c] that by simp
  qed (simp_all add: mode dvs cvs convertDDLsToViews_append)
  with run show ?thesis by blast
qed

lemma prefix_snoc_mem: "prefix (xs @ [x]) ys \<Longrightarrow> x \<in> set ys"
  by (auto simp: prefix_def)

lemma prefix_snoc_fresh:
  "prefix (xs @ [x]) ys \<Longrightarrow> distinct (map f ys) \<Longrightarrow> f x \<notin> f ` set xs"
  by (auto simp: prefix_def)

text \<open>
  A statement that only changes a desired table already there: the state follows the fold
  when the changed desired table has the content of the changed folded table.
\<close>

lemma selfDiffState_desired_update:
  assumes st: "selfDiffState mode S T seen g"
    and D: "convertDDLsToTablesFrom [] seen = Inr D"
    and step: "convertDDLToTables D d = Inr (updateTableByName D n dt')"
    and nd: "t_name dt' = n"
    and same: "tableContent gt' = tableContent dt'"
    and nv: "convertDDLsToViews [d] = []"
  shows "selfDiffState mode S T (seen @ [d])
           (g \<lparr> g_desiredTables := updateTableByName (g_desiredTables g) n gt' \<rparr>)"
proof (rule selfDiffStateI[where D = "updateTableByName D n dt'"])
  let ?g' = "g \<lparr> g_desiredTables := updateTableByName (g_desiredTables g) n gt' \<rparr>"
  note G = selfDiffState_desired[OF st D]
  show "convertDDLsToTablesFrom [] (seen @ [d]) = Inr (updateTableByName D n dt')"
    by (rule selfDiffState_fold_step[OF D step])
  show "map tableContent (g_desiredTables ?g') = map tableContent (updateTableByName D n dt')"
    using updateTableByName_content[OF G(1) same] by simp
  show "g_mode ?g' = mode" "g_currentViews ?g' = convertDDLsToViews S"
    "map t_name (g_currentTables ?g') = map t_name T"
    using st by (auto simp: selfDiffState_def)
  show "g_desiredViews ?g' = convertDDLsToViews (seen @ [d])"
    using st nv by (simp add: selfDiffState_def convertDDLsToViews_append)
  have "t_name ` set (updateTableByName D n dt') = t_name ` set D"
    using map_name_updateTableByName[OF nd, of D] by (metis set_map)
  then show "\<exists>t. findTableByName T (t_name c) = Some t
             \<and> (if t_name c \<in> t_name ` set (updateTableByName D n dt') then tableMerged c t
                 else c = t)"
    if "c \<in> set (g_currentTables ?g')" for c
    using selfDiffState_current[OF st D, of c] that by simp
qed

lemma selfDiffState_CreateIndex:
  assumes st: "selfDiffState mode S T seen g"
    and D: "convertDDLsToTablesFrom [] seen = Inr D"
    and step: "convertDDLToTables D (CreateIndex s n idx) = Inr D'"
    and gr: "\<forall>m x. findTableByName D' m = Some x \<longrightarrow>
                (\<exists>y. findTableByName T m = Some y \<and> tableGrows x y)"
    and wf: "list_all (wellFormedTable mode) T"
  shows "\<exists>g'. generateDDL g (CreateIndex s n idx) = Inr ([], g')
             \<and> selfDiffState mode S T (seen @ [CreateIndex s n idx]) g'"
proof -
  let ?G = "g_desiredTables g"
  note G = selfDiffState_desired[OF st D]
  from step obtain dt where dt: "findTableByName D n = Some dt"
    and D': "D' = updateTableByName D n (dt \<lparr> t_indexes := t_indexes dt @ [idx] \<rparr>)"
    by (auto split: option.splits)
  let ?dt' = "dt \<lparr> t_indexes := t_indexes dt @ [idx] \<rparr>"
  from findTableByName_content[OF G(1) dt] obtain gt where
    gt: "findTableByName ?G n = Some gt" and gc: "tableContent gt = tableContent dt" by blast
  let ?gt' = "gt \<lparr> t_indexes := t_indexes gt @ [idx] \<rparr>"
  from tableContent_fields[OF gc] have gi: "t_indexes gt = t_indexes dt" by simp
  from gc have same: "tableContent ?gt' = tableContent ?dt'" by (simp add: tableContent_def)
  from findTableByName_Some_D[OF dt] have ndt: "t_name ?dt' = n" by auto
  from findTableByName_Some_D[OF gt] have inG: "n \<in> t_name ` set ?G" by auto
  from findTableByName_update[OF ndt dt, of n] have "findTableByName D' n = Some ?dt'"
    unfolding D' by simp
  with gr obtain t where t: "findTableByName T n = Some t" and g: "tableGrows ?dt' t" by blast
  from selfDiffState_lookup[OF st t] inG obtain c where
    cur: "findTableByName (g_currentTables g) n = Some c" and m: "tableMerged c t" by auto
  from findTableByName_Some_D[OF t] wf have wft: "wellFormedTable mode t"
    by (auto simp: list_all_iff)
  from g have p: "prefix (t_indexes dt @ [idx]) (t_indexes t)" by (simp add: tableGrows_def)
  from wft have di: "distinct (map i_name (t_indexes t))" by (simp add: wellFormedTable_def)
  from prefix_snoc_mem[OF p] have mem: "idx \<in> set (t_indexes t)" .
  from prefix_snoc_fresh[OF p di] gi have fresh: "i_name idx \<notin> i_name ` set (t_indexes gt)"
    by simp
  from m obtain ys where "t_indexes c = t_indexes t @ ys" by (auto simp: tableMerged_def prefix_def)
  with findIndexByName_distinct[OF di mem]
  have fi: "findIndexByName (t_indexes c) (i_name idx) = Some idx"
    by (simp add: findIndexByName_append)
  from wft mem have sameI: "areSameIndexes idx idx"
    by (auto simp: wellFormedTable_def list_all_iff intro: areSameIndexes_refl)
  let ?g' = "g \<lparr> g_desiredTables := updateTableByName ?G n ?gt' \<rparr>"
  have run: "generateDDLsForCreateIndex g n idx ''CREATE INDEX'' s = Inr ([], ?g')"
    unfolding generateDDLsForCreateIndex_def
    using fresh
    by (simp add: cur fi sameI updateTableByName_same[OF cur] gt containsString_iff
          convertIndexesToIndexNames_def)
  have "selfDiffState mode S T (seen @ [CreateIndex s n idx]) ?g'"
    by (rule selfDiffState_desired_update[OF st D step[unfolded D'] ndt same]) simp
  with run show ?thesis by auto
qed

lemma selfDiffState_AddForeignKey:
  assumes st: "selfDiffState mode S T seen g"
    and D: "convertDDLsToTablesFrom [] seen = Inr D"
    and step: "convertDDLToTables D (AddForeignKey s n f) = Inr D'"
    and gr: "\<forall>m x. findTableByName D' m = Some x \<longrightarrow>
                (\<exists>y. findTableByName T m = Some y \<and> tableGrows x y)"
    and wf: "list_all (wellFormedTable mode) T"
  shows "\<exists>g'. generateDDL g (AddForeignKey s n f) = Inr ([], g')
             \<and> selfDiffState mode S T (seen @ [AddForeignKey s n f]) g'"
proof -
  let ?G = "g_desiredTables g"
  note G = selfDiffState_desired[OF st D]
  from step obtain dt where dt: "findTableByName D n = Some dt"
    and D': "D' = updateTableByName D n (dt \<lparr> t_foreignKeys := t_foreignKeys dt @ [f] \<rparr>)"
    by (auto split: option.splits)
  let ?dt' = "dt \<lparr> t_foreignKeys := t_foreignKeys dt @ [f] \<rparr>"
  from findTableByName_content[OF G(1) dt] obtain gt where
    gt: "findTableByName ?G n = Some gt" and gc: "tableContent gt = tableContent dt" by blast
  let ?gt' = "gt \<lparr> t_foreignKeys := t_foreignKeys gt @ [f] \<rparr>"
  from tableContent_fields[OF gc] have gi: "t_foreignKeys gt = t_foreignKeys dt" by simp
  from gc have same: "tableContent ?gt' = tableContent ?dt'" by (simp add: tableContent_def)
  from findTableByName_Some_D[OF dt] have ndt: "t_name ?dt' = n" by auto
  from findTableByName_update[OF ndt dt, of n] have "findTableByName D' n = Some ?dt'"
    unfolding D' by simp
  with gr obtain t where t: "findTableByName T n = Some t" and g: "tableGrows ?dt' t" by blast
  from findTableByName_Some_D[OF t] wf have wft: "wellFormedTable mode t"
    by (auto simp: list_all_iff)
  from g have p: "prefix (t_foreignKeys dt @ [f]) (t_foreignKeys t)" by (simp add: tableGrows_def)
  from wft have "distinct (map fk_constraintName (t_foreignKeys t))"
    by (simp add: wellFormedTable_def)
  from prefix_snoc_fresh[OF p this] gi
  have fresh: "fk_constraintName f \<notin> fk_constraintName ` set (t_foreignKeys gt)" by simp
  let ?g' = "g \<lparr> g_desiredTables := updateTableByName ?G n ?gt' \<rparr>"
  have run: "generateDDLsForAddForeignKey g n f ''ALTER TABLE'' s = Inr ([], ?g')"
    unfolding generateDDLsForAddForeignKey_def
    using fresh
    by (simp add: gt containsString_iff convertForeignKeysToConstraintNames_def)
  have "selfDiffState mode S T (seen @ [AddForeignKey s n f]) ?g'"
    by (rule selfDiffState_desired_update[OF st D step[unfolded D'] ndt same]) simp
  with run show ?thesis by auto
qed

lemma selfDiffState_AddPolicy:
  assumes st: "selfDiffState mode S T seen g"
    and D: "convertDDLsToTablesFrom [] seen = Inr D"
    and step: "convertDDLToTables D (AddPolicy s n p) = Inr D'"
    and gr: "\<forall>m x. findTableByName D' m = Some x \<longrightarrow>
                (\<exists>y. findTableByName T m = Some y \<and> tableGrows x y)"
    and wf: "list_all (wellFormedTable mode) T"
  shows "\<exists>g'. generateDDL g (AddPolicy s n p) = Inr ([], g')
             \<and> selfDiffState mode S T (seen @ [AddPolicy s n p]) g'"
proof -
  let ?G = "g_desiredTables g"
  note G = selfDiffState_desired[OF st D]
  from step obtain dt where dt: "findTableByName D n = Some dt"
    and D': "D' = updateTableByName D n (dt \<lparr> t_policies := t_policies dt @ [p] \<rparr>)"
    by (auto split: option.splits)
  let ?dt' = "dt \<lparr> t_policies := t_policies dt @ [p] \<rparr>"
  from findTableByName_content[OF G(1) dt] obtain gt where
    gt: "findTableByName ?G n = Some gt" and gc: "tableContent gt = tableContent dt" by blast
  let ?gt' = "gt \<lparr> t_policies := t_policies gt @ [p] \<rparr>"
  from tableContent_fields[OF gc] have gi: "t_policies gt = t_policies dt" by simp
  from gc have same: "tableContent ?gt' = tableContent ?dt'" by (simp add: tableContent_def)
  from findTableByName_Some_D[OF dt] have ndt: "t_name ?dt' = n" by auto
  from findTableByName_Some_D[OF gt] have inG: "n \<in> t_name ` set ?G" by auto
  from findTableByName_update[OF ndt dt, of n] have "findTableByName D' n = Some ?dt'"
    unfolding D' by simp
  with gr obtain t where t: "findTableByName T n = Some t" and g: "tableGrows ?dt' t" by blast
  from selfDiffState_lookup[OF st t] inG obtain c where
    cur: "findTableByName (g_currentTables g) n = Some c" and m: "tableMerged c t" by auto
  from findTableByName_Some_D[OF t] wf have wft: "wellFormedTable mode t"
    by (auto simp: list_all_iff)
  from g have pp: "prefix (t_policies dt @ [p]) (t_policies t)" by (simp add: tableGrows_def)
  from wft have dp: "distinct (map p_name (t_policies t))" by (simp add: wellFormedTable_def)
  from prefix_snoc_mem[OF pp] have mem: "p \<in> set (t_policies t)" .
  from prefix_snoc_fresh[OF pp dp] gi have fresh: "p_name p \<notin> p_name ` set (t_policies gt)"
    by simp
  from m have "t_policies c = t_policies t" by (simp add: tableMerged_def)
  with findPolicyByName_distinct[OF dp mem]
  have fp: "findPolicyByName (t_policies c) (p_name p) = Some p" by simp
  let ?g' = "g \<lparr> g_desiredTables := updateTableByName ?G n ?gt' \<rparr>"
  have run: "generateDDLsForCreatePolicy g n p ''CREATE POLICY'' s = Inr ([], ?g')"
    unfolding generateDDLsForCreatePolicy_def
    using fresh
    by (simp add: cur fp areSamePolicies_refl updateTableByName_same[OF cur] gt
          containsString_iff convertPolicyNames_def)
  have "selfDiffState mode S T (seen @ [AddPolicy s n p]) ?g'"
    by (rule selfDiffState_desired_update[OF st D step[unfolded D'] ndt same]) simp
  with run show ?thesis by auto
qed

lemma selfDiffState_CreateView:
  assumes st: "selfDiffState mode S T seen g"
    and D: "convertDDLsToTablesFrom [] seen = Inr D"
    and S: "S = seen @ CreateView v # rest"
    and dv: "distinct (map vw_name (convertDDLsToViews S))"
  shows "\<exists>g'. generateDDL g (CreateView v) = Inr ([], g')
             \<and> selfDiffState mode S T (seen @ [CreateView v]) g'"
proof -
  have views: "convertDDLsToViews S = convertDDLsToViews seen @ v # convertDDLsToViews rest"
    unfolding S by (simp add: convertDDLsToViews_append)
  with dv have fresh: "vw_name v \<notin> vw_name ` set (convertDDLsToViews seen)" by auto
  from views have "v \<in> set (convertDDLsToViews S)" by simp
  from findViewByName_distinct[OF dv this]
  have fv: "findViewByName (convertDDLsToViews S) (vw_name v) = Some v" .
  from st have cv: "g_currentViews g = convertDDLsToViews S"
    and dvs: "g_desiredViews g = convertDDLsToViews seen"
    by (auto simp: selfDiffState_def)
  let ?g' = "g \<lparr> g_desiredViews := g_desiredViews g @ [v] \<rparr>"
  have run: "generateDDLsForCreateView g (vw_name v) v = Inr ([], ?g')"
    unfolding generateDDLsForCreateView_def
    using fresh by (simp add: cv dvs fv containsString_iff convertViewNames_def)
  have "selfDiffState mode S T (seen @ [CreateView v]) ?g'"
  proof (rule selfDiffStateI[where D = D])
    show "convertDDLsToTablesFrom [] (seen @ [CreateView v]) = Inr D"
      by (rule selfDiffState_fold_step[OF D]) simp
    show "map tableContent (g_desiredTables ?g') = map tableContent D"
      using selfDiffState_desired(1)[OF st D] by simp
    show "\<exists>t. findTableByName T (t_name c) = Some t
             \<and> (if t_name c \<in> t_name ` set D then tableMerged c t else c = t)"
      if "c \<in> set (g_currentTables ?g')" for c
      using selfDiffState_current[OF st D, of c] that by simp
  qed (use st in \<open>auto simp: selfDiffState_def convertDDLsToViews_append\<close>)
  with run show ?thesis by auto
qed

text \<open>
  Every desired statement with the content of a statement of a well-formed schema is
  examined without a statement being generated, and the simulated state follows the fold.
\<close>

lemma selfDiffState_walk:
  assumes fold: "convertDDLsToTablesFrom [] S = Inr T"
    and adm: "list_all admittedStatement S"
    and dT: "distinct (map t_name T)"
    and wf: "list_all (wellFormedTable mode) T"
    and dv: "distinct (map vw_name (convertDDLsToViews S))"
  shows "S = seen @ rest \<Longrightarrow> map statementContent rest' = map statementContent rest \<Longrightarrow>
         selfDiffState mode S T seen g \<Longrightarrow>
           \<exists>g'. examineDesiredDDLs g rest' = Inr ([], g') \<and> selfDiffState mode S T S g'"
proof (induction rest arbitrary: seen g rest')
  case Nil
  then show ?case by simp
next
  case (Cons d rest)
  from Cons.prems(2) obtain d' rest'' where r': "rest' = d' # rest''"
    and sc: "statementContent d' = statementContent d"
    and rc: "map statementContent rest'' = map statementContent rest"
    by (cases rest') auto
  from fold Cons.prems(1) obtain D D' where D: "convertDDLsToTablesFrom [] seen = Inr D"
    and step: "convertDDLToTables D d = Inr D'" and tail: "convertDDLsToTablesFrom D' rest = Inr T"
    by (auto simp: convertDDLsToTablesFrom_append split: sum.splits)
  from adm Cons.prems(1) have ad: "admittedStatement d" and ar: "list_all admittedStatement rest"
    by auto
  from convertDDLsToTablesFrom_names[OF tail] dT have dn: "distinct (map t_name D')"
    by (auto simp: prefix_def)
  from convertDDLsToTablesFrom_grows[OF tail ar]
  have gr: "\<forall>n x. findTableByName D' n = Some x \<longrightarrow>
              (\<exists>y. findTableByName T n = Some y \<and> tableGrows x y)"
    by blast
  note st = Cons.prems(3)
  have "\<exists>g1. generateDDL g d' = Inr ([], g1) \<and> selfDiffState mode S T (seen @ [d]) g1"
  proof (cases d)
    case (CreateTable s tbl)
    with statementContent_cases[OF sc] obtain tbl' where
      d': "d' = CreateTable s tbl'" and tc: "tableContent tbl' = tableContent tbl" by auto
    from step CreateTable have "D' = D @ [tbl]" by simp
    with selfDiffState_CreateTable[OF st D _ _ wf tc, of s] dn gr CreateTable d'
    show ?thesis by simp
  next
    case (CreateIndex s n idx)
    with statementContent_cases[OF sc] have "d' = d" by auto
    with selfDiffState_CreateIndex[OF st D _ gr wf] step CreateIndex show ?thesis by simp
  next
    case (AddIndex s n idx)
    with step show ?thesis by simp
  next
    case (AddPrimaryKey s n idx)
    with ad show ?thesis by simp
  next
    case (AddForeignKey s n f)
    with statementContent_cases[OF sc] have "d' = d" by auto
    with selfDiffState_AddForeignKey[OF st D _ gr wf] step AddForeignKey show ?thesis by simp
  next
    case (AddPolicy s n p)
    with statementContent_cases[OF sc] have "d' = d" by auto
    with selfDiffState_AddPolicy[OF st D _ gr wf] step AddPolicy show ?thesis by simp
  next
    case (CreateView v)
    with statementContent_cases[OF sc] have "d' = d" by auto
    with selfDiffState_CreateView[OF st D _ dv] Cons.prems(1) CreateView show ?thesis by simp
  qed
  then obtain g1 where g1: "generateDDL g d' = Inr ([], g1)"
    and st1: "selfDiffState mode S T (seen @ [d]) g1" by blast
  from Cons.prems(1) have "S = (seen @ [d]) @ rest" by simp
  from Cons.IH[OF this rc st1] obtain g' where
    "examineDesiredDDLs g1 rest'' = Inr ([], g')" "selfDiffState mode S T S g'" by blast
  with g1 r' show ?case by auto
qed

text \<open>
  Claim C1, amended: for every dialect, the generator run on a well-formed schema parsed
  once as the desired statements and once as the current statements returns the empty
  statement list. The two parses have the same content and differ at most in the addresses
  of their check definitions (which the two calls of the parser allocate apart). A schema
  is well formed when the folder accepts it, it has no \<^verbatim>\<open>ADD PRIMARY KEY\<close> statement
  and no \<^verbatim>\<open>CREATE INDEX\<close> of a primary index, its table names and its view names are
  unique, and in each folded table the column names, the index names, the foreign key
  constraint names (none empty), the policy names and the option names of each index are
  unique, and, in MySQL mode, every column with the key option \<open>Primary\<close> is explicitly
  not null and no column has a check definition.
\<close>

theorem identity_of_well_formed_schema:
  assumes "wellFormedSchema mode currentDDLs" and "sameContent desiredDDLs currentDDLs"
  shows "GenerateIdempotentDDLs mode (Inr desiredDDLs) (Inr currentDDLs) = Inr []"
proof -
  let ?S = currentDDLs
  from assms(1) obtain T where fold: "convertDDLsToTablesFrom [] ?S = Inr T"
    and adm: "list_all admittedStatement ?S"
    and dT: "distinct (map t_name T)"
    and wf: "list_all (wellFormedTable mode) T"
    and dv: "distinct (map vw_name (convertDDLsToViews ?S))"
    by (auto simp: wellFormedSchema_def convertDDLsToTables_def split: sum.splits)
  let ?g = "\<lparr> g_mode = mode, g_desiredTables = [], g_currentTables = T, g_desiredViews = [],
              g_currentViews = convertDDLsToViews ?S \<rparr>"
  have init: "selfDiffState mode ?S T [] ?g"
    using findTableByName_distinct[OF dT] by (simp add: selfDiffState_def)
  from assms(2) have sc: "map statementContent desiredDDLs = map statementContent ?S"
    by (simp add: sameContent_def)
  from selfDiffState_walk[OF fold adm dT wf dv _ sc init] obtain g' where
    walk: "examineDesiredDDLs ?g desiredDDLs = Inr ([], g')"
    and fin: "selfDiffState mode ?S T ?S g'"
    by auto
  note G = selfDiffState_desired[OF fin fold]
  from fin have mode: "g_mode g' = mode" and views: "g_desiredViews g' = g_currentViews g'"
    by (auto simp: selfDiffState_def)
  have "\<forall>c \<in> set (g_currentTables g').
          \<exists>t'. findTableByName (g_desiredTables g') (t_name c) = Some t'
             \<and> cleanUpTable mode c t' = Inr []"
  proof
    fix c
    assume "c \<in> set (g_currentTables g')"
    from selfDiffState_current[OF fin fold this] obtain t where
      t: "findTableByName T (t_name c) = Some t"
      and m: "if t_name c \<in> t_name ` set T then tableMerged c t else c = t" by blast
    from findTableByName_Some_D[OF t] have "t_name c \<in> t_name ` set T" by (metis imageI)
    with m have merged: "tableMerged c t" by simp
    from findTableByName_content[OF G(1) t] obtain t' where
      t': "findTableByName (g_desiredTables g') (t_name c) = Some t'"
      "tableContent t' = tableContent t" by blast
    from cleanUpTable_merged[OF merged t'(2)] t'(1)
    show "\<exists>t'. findTableByName (g_desiredTables g') (t_name c) = Some t'
             \<and> cleanUpTable mode c t' = Inr []" by blast
  qed
  then have "cleanUpTables mode (g_desiredTables g') (g_currentTables g') (g_currentTables g')
               = Inr []"
    by (rule cleanUpTables_Nil)
  with walk mode views have "generateDDLs ?g desiredDDLs = Inr []"
    by (simp add: generateDDLs_def cleanUpViews_self)
  with fold show ?thesis by (simp add: GenerateIdempotentDDLs_def convertDDLsToTables_def)
qed

theorem identity_of_well_formed_schema_witness:
  "wellFormedSchema GeneratorModePostgres (exSchema (Some 1))
   \<and> sameContent (exSchema (Some 0)) (exSchema (Some 1))
   \<and> parsedSeparately (exSchema (Some 0)) (exSchema (Some 1))
   \<and> GenerateIdempotentDDLs GeneratorModePostgres (Inr (exSchema (Some 0)))
        (Inr (exSchema (Some 1))) = Inr []
   \<and> wellFormedSchema GeneratorModeMysql (exSchema None)
   \<and> GenerateIdempotentDDLs GeneratorModeMysql (Inr (exSchema None)) (Inr (exSchema None))
     = Inr []"
proof -
  have p: "wellFormedSchema GeneratorModePostgres (exSchema (Some 1))"
    by (simp add: wellFormedSchema_def wellFormedTable_def exSchema_def eval_defs)
  have c: "sameContent (exSchema (Some 0)) (exSchema (Some 1))"
    by (simp add: sameContent_def tableContent_def columnContent_def exSchema_def eval_defs)
  have s: "parsedSeparately (exSchema (Some 0)) (exSchema (Some 1))"
    by (simp add: parsedSeparately_def checkAddresses_def exSchema_def eval_defs)
  have m: "wellFormedSchema GeneratorModeMysql (exSchema None)"
    by (simp add: wellFormedSchema_def wellFormedTable_def exSchema_def eval_defs)
  have n: "sameContent (exSchema None) (exSchema None)" by (simp add: sameContent_def)
  from identity_of_well_formed_schema[OF p c] identity_of_well_formed_schema[OF m n] p c s m
  show ?thesis by simp
qed

end
